theory Spec2Isabelle
  imports Complex_Main
begin

section \<open>Numeric model\<close>

text \<open>
  The mean-field toolbox computes with numpy \<^verbatim>\<open>float64\<close> and \<^verbatim>\<open>complex128\<close>
  values. They are idealised here as \<^typ>\<open>real\<close> and \<^typ>\<open>complex\<close>: rounding,
  overflow and underflow are outside this development. A one-dimensional numpy array is a
  list; a Python scalar that numpy promotes with \<^verbatim>\<open>np.atleast_1d\<close> is a list of
  length one. A leading underscore of a Python name is dropped, since an Isabelle name
  cannot start with one (\<^verbatim>\<open>_siegert_exc\<close> is \<open>siegert_exc\<close>).
\<close>

datatype py_error =
    ConvergenceError nat "real option"
  | UnboundLocalError
  | AssertionError
  | ValueError
  | ShapeError
  | LinAlgError
  | ZeroDivisionError

text \<open>
  \<open>ConvergenceError maxiter e\<close> is the \<^verbatim>\<open>RuntimeError\<close> of the order search with the
  message \<^verbatim>\<open>Failed to converge after {maxiter} iterations. Last relative error {e}.\<close>;
  \<open>ShapeError\<close> is the \<^verbatim>\<open>RuntimeError\<close> of \<^verbatim>\<open>_similar_array\<close>.
\<close>

datatype 'a ndarray = Scalar 'a | Array "'a list"

definition bind_err :: "'e + 'a \<Rightarrow> ('a \<Rightarrow> 'e + 'b) \<Rightarrow> 'e + 'b" where
  "bind_err m f = (case m of Inl e \<Rightarrow> Inl e | Inr v \<Rightarrow> f v)"

subsection \<open>Special functions of \<^verbatim>\<open>scipy.special\<close>\<close>

text \<open>
  The library functions are taken by their mathematical definitions. The error function
  is given by its Maclaurin series, which converges everywhere; the series is
  \<open>2/\<surd>\<pi>\<close> times the integral of \<open>exp (- t\<^sup>2)\<close> from \<open>0\<close> to \<open>x\<close>.
  \<^verbatim>\<open>erfcx(x) = exp(x**2) * erfc(x)\<close> and
  \<^verbatim>\<open>dawsn(x) = exp(-x**2) * integral(exp(t**2), t=0..x)\<close>, the integral again as its
  series.
\<close>

definition gauss_int :: "real \<Rightarrow> real" where
  "gauss_int x = (\<Sum>n. (- 1) ^ n * x ^ (2 * n + 1) / (fact n * (2 * real n + 1)))"

definition erf :: "real \<Rightarrow> real" where
  "erf x = 2 / sqrt pi * gauss_int x"

definition erfc :: "real \<Rightarrow> real" where
  "erfc x = 1 - erf x"

definition erfcx :: "real \<Rightarrow> real" where
  "erfcx x = exp (x\<^sup>2) * erfc x"

definition exp_sq_int :: "real \<Rightarrow> real" where
  "exp_sq_int x = (\<Sum>n. x ^ (2 * n + 1) / (fact n * (2 * real n + 1)))"

definition dawsn :: "real \<Rightarrow> real" where
  "dawsn x = exp (- (x\<^sup>2)) * exp_sq_int x"

subsection \<open>Array helpers\<close>

text \<open>\<^verbatim>\<open>x.min()\<close> and \<^verbatim>\<open>x.max()\<close>; numpy raises \<^verbatim>\<open>ValueError\<close> on an empty array.\<close>

definition amin :: "real list \<Rightarrow> py_error + real" where
  "amin xs = (case xs of [] \<Rightarrow> Inl ValueError | x # r \<Rightarrow> Inr (fold min r x))"

definition amax :: "real list \<Rightarrow> py_error + real" where
  "amax xs = (case xs of [] \<Rightarrow> Inl ValueError | x # r \<Rightarrow> Inr (fold max r x))"

text \<open>
  Boolean-mask indexing \<^verbatim>\<open>x[mask]\<close> and masked assignment \<^verbatim>\<open>x[mask] = vals\<close>. numpy
  stretches an array \<open>vals\<close> of length one over the selected elements; otherwise it wants
  one value per selected element and raises \<^verbatim>\<open>ValueError\<close> if their number differs.
  \<open>assign_items\<close> writes one value per selected element.
\<close>

definition select :: "bool list \<Rightarrow> 'a list \<Rightarrow> 'a list" where
  "select msk xs = map snd (filter fst (zip msk xs))"

fun assign_items :: "'a list \<Rightarrow> bool list \<Rightarrow> 'a list \<Rightarrow> py_error + 'a list" where
  "assign_items [] [] [] = Inr []"
| "assign_items (n # ns) (True # ms) (v # vs) =
     bind_err (assign_items ns ms vs) (\<lambda>r. Inr (v # r))"
| "assign_items (n # ns) (False # ms) vs =
     bind_err (assign_items ns ms vs) (\<lambda>r. Inr (n # r))"
| "assign_items _ _ _ = Inl ValueError"

definition assign_masked :: "'a list \<Rightarrow> bool list \<Rightarrow> 'a list \<Rightarrow> py_error + 'a list" where
  "assign_masked x msk vals =
     assign_items x msk
       (if length vals = 1 then replicate (length (filter id msk)) (vals ! 0) else vals)"

text \<open>
  Broadcasting of one-dimensional operands: all lengths are equal, or are one.
  \<open>common_len\<close> is the broadcast length, \<open>bcast n xs\<close> the operand stretched to it.
\<close>

fun common_len :: "nat list \<Rightarrow> py_error + nat" where
  "common_len [] = Inr 1"
| "common_len (l # ls) =
     bind_err (common_len ls)
       (\<lambda>n. if l = n then Inr n else if n = 1 then Inr l else if l = 1 then Inr n
            else Inl ValueError)"

definition bcast :: "nat \<Rightarrow> 'a list \<Rightarrow> 'a list" where
  "bcast n xs = (if length xs = n then xs else replicate n (hd xs))"

section \<open>Adaptive quadrature engine (\<^verbatim>\<open>aux_calcs.py\<close>)\<close>

text \<open>
  \<^verbatim>\<open>scipy.special.roots_legendre(order)\<close> (the nodes and weights of the rule) and
  \<^verbatim>\<open>scipy.integrate.quad\<close> (the adaptive reference) are library routines; the model
  takes them as the parameters \<open>roots_legendre\<close> and \<open>quad\<close>.
\<close>

type_synonym gl_table = "nat \<Rightarrow> real list \<times> real list"
type_synonym quad_fn = "(real \<Rightarrow> real) \<Rightarrow> real \<Rightarrow> real \<Rightarrow> real \<Rightarrow> real"

text \<open>One column of \<^verbatim>\<open>_erfcx_integral\<close>: the rule of the given order on \<open>[a, b]\<close>.\<close>

definition erfcx_integral1 :: "gl_table \<Rightarrow> real \<Rightarrow> real \<Rightarrow> nat \<Rightarrow> real" where
  "erfcx_integral1 roots_legendre a b order =
     (let (x, w) = roots_legendre order
      in (b - a) * sum_list (map2 (\<lambda>xi wi. wi * erfcx ((b - a) * xi / 2 + (b + a) / 2)) x w) / 2)"

definition erfcx_integral :: "gl_table \<Rightarrow> real list \<Rightarrow> real list \<Rightarrow> nat \<Rightarrow> py_error + real list" where
  "erfcx_integral roots_legendre a b order =
     (if (\<forall>v \<in> set a. v \<ge> 0) \<and> (\<forall>v \<in> set b. v \<ge> 0) then
        bind_err (common_len [length a, length b])
          (\<lambda>n. Inr (map2 (\<lambda>ai bi. erfcx_integral1 roots_legendre ai bi order) (bcast n a) (bcast n b)))
      else Inl AssertionError)"

text \<open>
  \<^verbatim>\<open>rel_error = np.abs(I_gl/I_quad - 1)\<close>. A float division by zero gives \<^verbatim>\<open>inf\<close> or
  \<^verbatim>\<open>nan\<close>; \<open>None\<close> stands for both, and \<^verbatim>\<open>rel_error < epsrel\<close> is false for them.
\<close>

definition rel_error :: "real \<Rightarrow> real \<Rightarrow> real option" where
  "rel_error I_gl I_quad = (if I_quad = 0 then None else Some \<bar>I_gl / I_quad - 1\<bar>)"

definition below :: "real option \<Rightarrow> real \<Rightarrow> bool" where
  "below e epsrel = (case e of None \<Rightarrow> False | Some v \<Rightarrow> v < epsrel)"

text \<open>
  The \<^verbatim>\<open>for _ in range(maxiter)\<close> loop of \<^verbatim>\<open>_get_erfcx_integral_gl_order\<close>: \<open>k\<close>
  iterations are left, \<open>order\<close> is the order to try next and \<open>prev\<close> the relative error
  of the previous iteration (\<open>None\<close> before the first, where the Python name is unbound).
\<close>

fun gl_order_loop ::
  "(nat \<Rightarrow> py_error + real) \<Rightarrow> real \<Rightarrow> real \<Rightarrow> nat \<Rightarrow> nat \<Rightarrow> nat \<Rightarrow> real option option \<Rightarrow> py_error + nat"
where
  "gl_order_loop I_gl I_quad epsrel maxiter 0 order prev =
     (case prev of None \<Rightarrow> Inl UnboundLocalError | Some e \<Rightarrow> Inl (ConvergenceError maxiter e))"
| "gl_order_loop I_gl I_quad epsrel maxiter (Suc k) order prev =
     bind_err (I_gl order)
       (\<lambda>v. let e = rel_error v I_quad
            in if below e epsrel then Inr order
               else gl_order_loop I_gl I_quad epsrel maxiter k (order * 2) (Some e))"

definition get_erfcx_integral_gl_order ::
  "gl_table \<Rightarrow> quad_fn \<Rightarrow> real list \<Rightarrow> real list \<Rightarrow> nat \<Rightarrow> real \<Rightarrow> nat \<Rightarrow> py_error + nat"
where
  "get_erfcx_integral_gl_order roots_legendre quad y_th y_r start_order epsrel maxiter =
     bind_err (amin (map abs y_th)) (\<lambda>a1. bind_err (amin (map abs y_r)) (\<lambda>a2.
     bind_err (amax (map abs y_th)) (\<lambda>b1. bind_err (amax (map abs y_r)) (\<lambda>b2.
       let a = min a1 a2; b = max b1 b2;
           I_quad = quad erfcx a b epsrel
       in gl_order_loop
            (\<lambda>order. bind_err (erfcx_integral roots_legendre [a] [b] order) (\<lambda>r. Inr (r ! 0)))
            I_quad epsrel maxiter maxiter start_order None))))"


section \<open>Siegert rate engine (\<^verbatim>\<open>aux_calcs.py\<close>)\<close>

text \<open>
  The element-wise formulas of the three branches, with \<open>G\<close> the value of the
  Gauss--Legendre integral of that element. \<^verbatim>\<open>np.exp\<close> is the real exponential, so that
  \<open>exp (- y_th\<^sup>2)\<close> is positive here for every \<open>y_th\<close>. In \<^verbatim>\<open>float64\<close> it underflows to
  \<open>0.0\<close> from about \<open>y_th = 27.3\<close> on, and \<^verbatim>\<open>_siegert_inh\<close> and \<^verbatim>\<open>_siegert_interm\<close> then
  return exactly \<open>0.0\<close>: \<open>inh_rate\<close> and \<open>interm_rate\<close> are the values of the formulas in
  exact arithmetic, not the rounded ones.
\<close>

definition exc_rate :: "real \<Rightarrow> real \<Rightarrow> real \<Rightarrow> real" where
  "exc_rate tau_m t_ref G = 1 / (t_ref + tau_m * sqrt pi * G)"

definition inh_rate :: "real \<Rightarrow> real \<Rightarrow> real \<Rightarrow> real \<Rightarrow> real \<Rightarrow> real" where
  "inh_rate y_th y_r tau_m t_ref G =
     (let e_V_th_2 = exp (- (y_th\<^sup>2));
          I = 2 * dawsn y_th - 2 * exp (y_r\<^sup>2 - y_th\<^sup>2) * dawsn y_r;
          I = I - e_V_th_2 * G
      in e_V_th_2 / (e_V_th_2 * t_ref + tau_m * sqrt pi * I))"

definition interm_rate :: "real \<Rightarrow> real \<Rightarrow> real \<Rightarrow> real \<Rightarrow> real" where
  "interm_rate y_th tau_m t_ref G =
     (let e_V_th_2 = exp (- (y_th\<^sup>2));
          I = 2 * dawsn y_th;
          I = I + e_V_th_2 * G
      in e_V_th_2 / (e_V_th_2 * t_ref + tau_m * sqrt pi * I))"

text \<open>
  The vectorised branch functions: the \<^verbatim>\<open>assert\<close> on the whole argument array, the
  integral of every element, and the element-wise formula under numpy broadcasting
  (\<open>tau_m\<close> and \<open>t_ref\<close> are arrays, or scalars as lists of length one).
\<close>

definition siegert_exc ::
  "gl_table \<Rightarrow> real list \<Rightarrow> real list \<Rightarrow> real list \<Rightarrow> real list \<Rightarrow> nat \<Rightarrow> py_error + real list"
where
  "siegert_exc roots_legendre y_th y_r tau_m t_ref gl_order =
     (if \<not> (\<forall>t \<in> set y_th. t < 0) then Inl AssertionError
      else bind_err (erfcx_integral roots_legendre (map abs y_th) (map abs y_r) gl_order) (\<lambda>G.
           bind_err (common_len [length t_ref, length tau_m, length G]) (\<lambda>n.
             Inr (map (\<lambda>i. exc_rate (bcast n tau_m ! i) (bcast n t_ref ! i) (bcast n G ! i))
                    [0..<n]))))"

definition siegert_inh ::
  "gl_table \<Rightarrow> real list \<Rightarrow> real list \<Rightarrow> real list \<Rightarrow> real list \<Rightarrow> nat \<Rightarrow> py_error + real list"
where
  "siegert_inh roots_legendre y_th y_r tau_m t_ref gl_order =
     (if \<not> (\<forall>r \<in> set y_r. 0 < r) then Inl AssertionError
      else bind_err (erfcx_integral roots_legendre y_r y_th gl_order) (\<lambda>G.
           bind_err (common_len [length y_th, length y_r, length t_ref, length tau_m, length G]) (\<lambda>n.
             Inr (map (\<lambda>i. inh_rate (bcast n y_th ! i) (bcast n y_r ! i) (bcast n tau_m ! i)
                              (bcast n t_ref ! i) (bcast n G ! i))
                    [0..<n]))))"

definition siegert_interm ::
  "gl_table \<Rightarrow> real list \<Rightarrow> real list \<Rightarrow> real list \<Rightarrow> real list \<Rightarrow> nat \<Rightarrow> py_error + real list"
where
  "siegert_interm roots_legendre y_th y_r tau_m t_ref gl_order =
     (if \<not> (list_all2 (\<lambda>r t. r \<le> 0 \<and> 0 \<le> t) y_r y_th) then Inl AssertionError
      else bind_err (erfcx_integral roots_legendre y_th (map abs y_r) gl_order) (\<lambda>G.
           bind_err (common_len [length y_th, length t_ref, length tau_m, length G]) (\<lambda>n.
             Inr (map (\<lambda>i. interm_rate (bcast n y_th ! i) (bcast n tau_m ! i)
                              (bcast n t_ref ! i) (bcast n G ! i))
                    [0..<n]))))"

text \<open>
  \<^verbatim>\<open>nu_0(tau_m, tau_r, V_th_rel, V_0_rel, mu, sigma)\<close>: the delta-synapse rate. The time
  constants and the two potentials are floats, \<open>mu\<close> and \<open>sigma\<close> floats or arrays.
  The result is a float when one value was computed.
\<close>

definition nu_0 ::
  "gl_table \<Rightarrow> quad_fn \<Rightarrow> real \<Rightarrow> real \<Rightarrow> real \<Rightarrow> real \<Rightarrow> real list \<Rightarrow> real list
   \<Rightarrow> py_error + real ndarray"
where
  "nu_0 roots_legendre quad tau_m tau_r V_th_rel V_0_rel mu sigma =
     bind_err (common_len [length mu, length sigma]) (\<lambda>n.
       let y_th = map2 (\<lambda>m s. (V_th_rel - m) / s) (bcast n mu) (bcast n sigma);
           y_r = map2 (\<lambda>m s. (V_0_rel - m) / s) (bcast n mu) (bcast n sigma)
       in bind_err (get_erfcx_integral_gl_order roots_legendre quad y_th y_r 10 (1 / 10 ^ 12) 10)
            (\<lambda>gl_order.
       let mask_exc = map (\<lambda>t. t < 0) y_th;
           mask_inh = map (\<lambda>r. 0 < r) y_r;
           mask_interm = map2 (\<lambda>r t. r \<le> 0 \<and> 0 \<le> t) y_r y_th;
           nu = replicate (length y_th) 0
       in bind_err (siegert_exc roots_legendre (select mask_exc y_th) (select mask_exc y_r)
                      [tau_m] [tau_r] gl_order) (\<lambda>v.
          bind_err (assign_masked nu mask_exc v) (\<lambda>nu.
          bind_err (siegert_inh roots_legendre (select mask_inh y_th) (select mask_inh y_r)
                      [tau_m] [tau_r] gl_order) (\<lambda>v.
          bind_err (assign_masked nu mask_inh v) (\<lambda>nu.
          bind_err (siegert_interm roots_legendre (select mask_interm y_th) (select mask_interm y_r)
                      [tau_m] [tau_r] gl_order) (\<lambda>v.
          bind_err (assign_masked nu mask_interm v) (\<lambda>nu.
            Inr (if length nu = 1 then Scalar (nu ! 0) else Array nu)))))))))"

text \<open>
  \<^verbatim>\<open>Phi(s)\<close>, the helper of the filtered-synapse rate; \<^verbatim>\<open>lif/exp.py\<close> holds the same
  function as \<^verbatim>\<open>_Phi\<close>.
\<close>

definition Phi :: "real \<Rightarrow> real" where
  "Phi s = sqrt (pi / 2) * (exp (s\<^sup>2 / 2) * (1 + erf (s / sqrt 2)))"

fun map_ndarray :: "('a \<Rightarrow> 'b) \<Rightarrow> 'a ndarray \<Rightarrow> 'b ndarray" where
  "map_ndarray f (Scalar v) = Scalar (f v)"
| "map_ndarray f (Array vs) = Array (map f vs)"

text \<open>
  \<^verbatim>\<open>nu0_fb433(tau_m, tau_s, tau_r, V_th_rel, V_0_rel, mu, sigma)\<close>, all arguments floats.
  \<^verbatim>\<open>zetac\<close> is \<^verbatim>\<open>scipy.special.zetac\<close> (the Riemann zeta function minus one), a
  parameter of the model. The final \<^verbatim>\<open>math.isnan\<close> test only prints.
\<close>

definition nu0_fb433 ::
  "gl_table \<Rightarrow> quad_fn \<Rightarrow> (real \<Rightarrow> real) \<Rightarrow> real \<Rightarrow> real \<Rightarrow> real \<Rightarrow> real \<Rightarrow> real \<Rightarrow> real \<Rightarrow> real
   \<Rightarrow> py_error + real ndarray"
where
  "nu0_fb433 roots_legendre quad zetac tau_m tau_s tau_r V_th_rel V_0_rel mu sigma =
     (let alpha = sqrt 2 * \<bar>zetac (1 / 2) + 1\<bar>;
          x_th = sqrt 2 * (V_th_rel - mu) / sigma;
          x_r = sqrt 2 * (V_0_rel - mu) / sigma
      in if x_th > 20 / sqrt 2 then
           nu_0 roots_legendre quad tau_m tau_r V_th_rel V_0_rel [mu] [sigma]
         else
           bind_err (nu_0 roots_legendre quad tau_m tau_r V_th_rel V_0_rel [mu] [sigma]) (\<lambda>r.
             let dPhi = Phi x_th - Phi x_r
             in Inr (map_ndarray
                      (\<lambda>r. r - sqrt (tau_s / tau_m) * alpha / (tau_m * sqrt 2) * dPhi * (r * tau_m)\<^sup>2)
                      r)))"

section \<open>Exponential synapses (\<^verbatim>\<open>lif/exp.py\<close>)\<close>

text \<open>
  \<^verbatim>\<open>lif/exp.py\<close> imports from \<^verbatim>\<open>lif/delta.py\<close> the delta-synapse rate, its derivative,
  the order search \<^verbatim>\<open>_get_erfcx_integral_gl_order\<close> and the three branch functions
  \<^verbatim>\<open>_siegert_exc\<close>, \<^verbatim>\<open>_siegert_inh\<close> and \<^verbatim>\<open>_siegert_interm\<close>, and its decorators from
  \<^verbatim>\<open>utils.py\<close>; neither file is among the sources. The functions of \<^verbatim>\<open>lif/delta.py\<close> are
  parameters of the model: \<open>delta_firing_rate\<close> and \<open>d_delta\<close> (each from the six argument
  arrays to an error or an array), \<open>delta_order\<close> (called like the order search of
  \<^verbatim>\<open>aux_calcs.py\<close>) and \<open>delta_exc\<close>, \<open>delta_inh\<close>, \<open>delta_interm\<close> (from the arrays
  \<open>y_th\<close>, \<open>y_r\<close>, \<open>tau_m\<close>, \<open>t_ref\<close> and the order to an error or an array); nothing is
  assumed of what they compute. The decorators \<^verbatim>\<open>_check_positive_params\<close> and
  \<^verbatim>\<open>_check_k_in_fast_synaptic_regime\<close> validate the arguments before a body runs; the
  definitions below are the bodies.
\<close>

type_synonym delta_fn =
  "real list \<Rightarrow> real list \<Rightarrow> real list \<Rightarrow> real list \<Rightarrow> real list \<Rightarrow> real list \<Rightarrow> py_error + real list"

type_synonym order_fn = "real list \<Rightarrow> real list \<Rightarrow> nat \<Rightarrow> real \<Rightarrow> nat \<Rightarrow> py_error + nat"

type_synonym siegert_fn =
  "real list \<Rightarrow> real list \<Rightarrow> real list \<Rightarrow> real list \<Rightarrow> nat \<Rightarrow> py_error + real list"

subsection \<open>Shapes\<close>

definition similar_array :: "real list \<Rightarrow> real list \<Rightarrow> py_error + real list" where
  "similar_array x array =
     (if length x = length array then Inr x
      else if length x = 1 then Inr (map (\<lambda>one. one * (x ! 0)) (replicate (length array) 1))
      else Inl ShapeError)"

fun sequence_err :: "('e + 'a) list \<Rightarrow> 'e + 'a list" where
  "sequence_err [] = Inr []"
| "sequence_err (m # ms) = bind_err m (\<lambda>v. bind_err (sequence_err ms) (\<lambda>vs. Inr (v # vs)))"

definition equalize_shape :: "real list list \<Rightarrow> py_error + real list list" where
  "equalize_shape args =
     (let max_arg = fold (\<lambda>arg m. if length arg > length m then arg else m) (tl args) (hd args)
      in sequence_err (map (\<lambda>arg. similar_array arg max_arg) args))"

subsection \<open>The Taylor rate\<close>

text \<open>
  \<^verbatim>\<open>_Phi_neg\<close> and \<^verbatim>\<open>_Phi_pos\<close>: the \<^verbatim>\<open>assert\<close> on the whole array, then the
  formula element by element.
\<close>

definition Phi_neg_elem :: "real \<Rightarrow> real" where
  "Phi_neg_elem s = sqrt (pi / 2) * erfcx (\<bar>s\<bar> / sqrt 2)"

definition Phi_pos_elem :: "real \<Rightarrow> real" where
  "Phi_pos_elem s = sqrt (pi / 2) * (2 - exp (- (s\<^sup>2) / 2) * erfcx (s / sqrt 2))"

definition Phi_neg :: "real list \<Rightarrow> py_error + real list" where
  "Phi_neg s = (if \<forall>v \<in> set s. v \<le> 0 then Inr (map Phi_neg_elem s) else Inl AssertionError)"

definition Phi_pos :: "real list \<Rightarrow> py_error + real list" where
  "Phi_pos s = (if \<forall>v \<in> set s. v \<ge> 0 then Inr (map Phi_pos_elem s) else Inl AssertionError)"

text \<open>
  \<^verbatim>\<open>_nu0_dPhi\<close>: what the branch function of \<^verbatim>\<open>lif/delta.py\<close> returns for an element,
  times the difference of the helper at threshold and reset, each in the scaling of its
  branch.
\<close>

definition nu0_dPhi ::
  "order_fn \<Rightarrow> siegert_fn \<Rightarrow> siegert_fn \<Rightarrow> siegert_fn
   \<Rightarrow> real list \<Rightarrow> real list \<Rightarrow> real list \<Rightarrow> real list \<Rightarrow> real list \<Rightarrow> real list
   \<Rightarrow> py_error + real ndarray"
where
  "nu0_dPhi delta_order delta_exc delta_inh delta_interm V_0_rel V_th_rel mu sigma tau_m tau_r =
     bind_err (equalize_shape [V_0_rel, V_th_rel, mu, sigma, tau_m, tau_r]) (\<lambda>args.
       let V_0_rel = args ! 0; V_th_rel = args ! 1; mu = args ! 2; sigma = args ! 3;
           tau_m = args ! 4; tau_r = args ! 5;
           n = length mu;
           y_th = map (\<lambda>i. (V_th_rel ! i - mu ! i) / sigma ! i) [0..<n];
           y_r = map (\<lambda>i. (V_0_rel ! i - mu ! i) / sigma ! i) [0..<n]
       in bind_err (delta_order y_th y_r 10 (1 / 10 ^ 12) 10)
            (\<lambda>gl_order.
       let mask_exc = map (\<lambda>t. t < 0) y_th;
           mask_inh = map (\<lambda>r. 0 < r) y_r;
           mask_interm = map2 (\<lambda>r t. r \<le> 0 \<and> 0 \<le> t) y_r y_th;
           nu = replicate (length y_th) 0
       in bind_err (delta_exc (select mask_exc y_th) (select mask_exc y_r)
                      (select mask_exc tau_m) (select mask_exc tau_r) gl_order) (\<lambda>v.
          bind_err (assign_masked nu mask_exc v) (\<lambda>nu.
          bind_err (delta_inh (select mask_inh y_th) (select mask_inh y_r)
                      (select mask_inh tau_m) (select mask_inh tau_r) gl_order) (\<lambda>v.
          bind_err (assign_masked nu mask_inh v) (\<lambda>nu.
          bind_err (delta_interm (select mask_interm y_th) (select mask_interm y_r)
                      (select mask_interm tau_m) (select mask_interm tau_r) gl_order) (\<lambda>v.
          bind_err (assign_masked nu mask_interm v) (\<lambda>nu.
       let Phi_th = replicate (length y_th) 0;
           Phi_r = replicate (length y_r) 0
       in bind_err (Phi_neg (map (\<lambda>t. sqrt 2 * t) (select mask_exc y_th))) (\<lambda>v.
          bind_err (assign_masked Phi_th mask_exc v) (\<lambda>Phi_th.
          bind_err (Phi_neg (map (\<lambda>r. sqrt 2 * r) (select mask_exc y_r))) (\<lambda>v.
          bind_err (assign_masked Phi_r mask_exc v) (\<lambda>Phi_r.
          bind_err (Phi_pos (map (\<lambda>t. sqrt 2 * t) (select mask_inh y_th))) (\<lambda>v.
          bind_err (assign_masked Phi_th mask_inh v) (\<lambda>Phi_th.
          bind_err (Phi_pos (map (\<lambda>r. sqrt 2 * r) (select mask_inh y_r))) (\<lambda>v.
          bind_err (assign_masked Phi_r mask_inh v) (\<lambda>Phi_r.
          bind_err (Phi_pos (map (\<lambda>t. sqrt 2 * t) (select mask_interm y_th))) (\<lambda>v.
          bind_err (assign_masked Phi_th mask_interm v) (\<lambda>Phi_th.
          bind_err (Phi_neg (map (\<lambda>r. sqrt 2 * r) (select mask_interm y_r))) (\<lambda>v.
          bind_err (assign_masked Phi_r mask_interm v) (\<lambda>Phi_r.
          bind_err (assign_masked Phi_r mask_inh
                      (map2 (\<lambda>p (t, r). p * exp (- (t\<^sup>2) + r\<^sup>2)) (select mask_inh Phi_r)
                         (zip (select mask_inh y_th) (select mask_inh y_r)))) (\<lambda>Phi_r.
          bind_err (assign_masked Phi_r mask_interm
                      (map2 (\<lambda>p t. p * exp (- (t\<^sup>2))) (select mask_interm Phi_r)
                         (select mask_interm y_th))) (\<lambda>Phi_r.
       let nu_dPhi = map (\<lambda>i. nu ! i * (Phi_th ! i - Phi_r ! i)) [0..<length nu]
       in Inr (if length nu_dPhi = 1 then Scalar (nu_dPhi ! 0) else Array nu_dPhi)
       ))))))))))))))))))))))"

text \<open>
  A Python warning is an effect: the functions that can warn return the list of the
  warnings they emitted beside their value.
\<close>

datatype py_warning = NegativeRateWarning

fun to_list :: "'a ndarray \<Rightarrow> 'a list" where
  "to_list (Scalar v) = [v]"
| "to_list (Array vs) = vs"

definition firing_rate_taylor ::
  "order_fn \<Rightarrow> siegert_fn \<Rightarrow> siegert_fn \<Rightarrow> siegert_fn \<Rightarrow> (real \<Rightarrow> real) \<Rightarrow> delta_fn
   \<Rightarrow> real list \<Rightarrow> real list \<Rightarrow> real list \<Rightarrow> real list \<Rightarrow> real list \<Rightarrow> real list \<Rightarrow> real list
   \<Rightarrow> py_error + (real ndarray \<times> py_warning list)"
where
  "firing_rate_taylor delta_order delta_exc delta_inh delta_interm zetac delta_firing_rate
       V_0_rel V_th_rel mu sigma tau_m tau_r tau_s =
     (let alpha = sqrt 2 * \<bar>zetac (1 / 2) + 1\<bar>
      in bind_err (delta_firing_rate V_0_rel V_th_rel mu sigma tau_m tau_r) (\<lambda>nu0.
         bind_err (nu0_dPhi delta_order delta_exc delta_inh delta_interm
                     V_0_rel V_th_rel mu sigma tau_m tau_r) (\<lambda>d.
         let d = to_list d
         in bind_err (common_len [length nu0, length tau_s, length tau_m, length d]) (\<lambda>n.
         let res = map (\<lambda>i. bcast n nu0 ! i *
                              (1 - sqrt (bcast n tau_s ! i * bcast n tau_m ! i / 2) * alpha
                                   * bcast n d ! i)) [0..<n];
             warnings = (if \<exists>v \<in> set res. v < 0 then [NegativeRateWarning] else [])
         in Inr (if length res = 1 then Scalar (res ! 0) else Array res, warnings)))))"

subsection \<open>Derivative of the rate and transfer functions\<close>

definition Phi_prime_mu :: "real \<Rightarrow> real \<Rightarrow> real" where
  "Phi_prime_mu s sigma =
     - sqrt pi / sigma * (s * exp (s\<^sup>2 / 2) * (1 + erf (s / sqrt 2)) + sqrt 2 / sqrt pi)"

text \<open>
  \<^verbatim>\<open>_derivative_of_firing_rates_wrt_mean_input\<close>, the zero-frequency limit of the Taylor
  transfer function. \<^verbatim>\<open>_Phi_prime_mu\<close> raises on a negative or zero \<open>sigma\<close> before it
  computes.
\<close>

definition derivative_of_firing_rates_wrt_mean_input ::
  "(real \<Rightarrow> real) \<Rightarrow> delta_fn \<Rightarrow> delta_fn
   \<Rightarrow> real list \<Rightarrow> real list \<Rightarrow> real list \<Rightarrow> real list \<Rightarrow> real list \<Rightarrow> real list \<Rightarrow> real list
   \<Rightarrow> py_error + real list"
where
  "derivative_of_firing_rates_wrt_mean_input zetac delta_firing_rate d_delta
       V_0_rel V_th_rel mu sigma tau_m tau_r tau_s =
     (if \<exists>s \<in> set sigma. s = 0 then Inl ZeroDivisionError
      else
        let alpha = sqrt 2 * \<bar>zetac (1 / 2) + 1\<bar>
        in bind_err (delta_firing_rate V_0_rel V_th_rel mu sigma tau_m tau_r) (\<lambda>nu0.
           bind_err (d_delta V_0_rel V_th_rel mu sigma tau_m tau_r) (\<lambda>dnudmu.
           if \<exists>s \<in> set sigma. s < 0 then Inl ValueError
           else
           bind_err (common_len [length V_0_rel, length V_th_rel, length mu, length sigma,
                       length tau_m, length tau_s, length nu0, length dnudmu]) (\<lambda>n.
             Inr (map (\<lambda>i.
               let V_0 = bcast n V_0_rel ! i; V_th = bcast n V_th_rel ! i; m = bcast n mu ! i;
                   s = bcast n sigma ! i; t_m = bcast n tau_m ! i; t_s = bcast n tau_s ! i;
                   x_th = sqrt 2 * (V_th - m) / s;
                   x_r = sqrt 2 * (V_0 - m) / s;
                   integral = 1 / t_m / (bcast n nu0 ! i);
                   prefactor = sqrt (t_s / t_m) * alpha / (t_m * sqrt 2);
                   dPhi_prime = Phi_prime_mu x_th s - Phi_prime_mu x_r s;
                   dPhi = Phi x_th - Phi x_r;
                   phi = dPhi_prime * integral + (2 * sqrt 2 / s) * dPhi\<^sup>2
               in bcast n dnudmu ! i - prefactor * phi / integral ^ 3) [0..<n])))))"

text \<open>
  \<^verbatim>\<open>mpmath.pcfu\<close>, the parabolic cylinder function \<open>U\<close>, is the parameter \<open>pcfu\<close>.
\<close>

type_synonym pcfu_fn = "complex \<Rightarrow> real \<Rightarrow> complex"

definition Psi :: "pcfu_fn \<Rightarrow> complex \<Rightarrow> real \<Rightarrow> complex" where
  "Psi pcfu z x = complex_of_real (exp (0.25 * x\<^sup>2)) * pcfu z (- x)"

definition d_Psi :: "pcfu_fn \<Rightarrow> complex \<Rightarrow> real \<Rightarrow> complex" where
  "d_Psi pcfu z x = (1 / 2 + z) * Psi pcfu (z + 1) x"

definition d_2_Psi :: "pcfu_fn \<Rightarrow> complex \<Rightarrow> real \<Rightarrow> complex" where
  "d_2_Psi pcfu z x = (1 / 2 + z) * (3 / 2 + z) * Psi pcfu (z + 2) x"

definition synaptic_filter :: "real list \<Rightarrow> real list \<Rightarrow> complex list list" where
  "synaptic_filter omegas tau_s =
     map (\<lambda>w. map (\<lambda>t. 1 / (1 + \<i> * complex_of_real (w * t))) tau_s) omegas"

text \<open>
  \<^verbatim>\<open>result[mask] = row\<close>: a one-dimensional right-hand side is broadcast to every
  selected row of the two-dimensional result.
\<close>

definition assign_rows :: "'a list list \<Rightarrow> bool list \<Rightarrow> 'a list \<Rightarrow> py_error + 'a list list" where
  "assign_rows result msk row =
     assign_masked result msk (replicate (length (filter id msk)) row)"

definition shift_row ::
  "pcfu_fn \<Rightarrow> real list \<Rightarrow> real list \<Rightarrow> real list \<Rightarrow> real list \<Rightarrow> real list \<Rightarrow> real
   \<Rightarrow> complex list"
where
  "shift_row pcfu nu sigma tau_m x_t x_r w =
     map (\<lambda>j.
       let z = - 0.5 + \<i> * complex_of_real (w * tau_m ! j);
           frac = (d_Psi pcfu z (x_t ! j) - d_Psi pcfu z (x_r ! j))
                  / (Psi pcfu z (x_t ! j) - Psi pcfu z (x_r ! j))
       in complex_of_real (sqrt 2 / sigma ! j * nu ! j)
          / (1 + \<i> * complex_of_real (w * tau_m ! j)) * frac) [0..<length sigma]"

definition transfer_function_shift ::
  "(real \<Rightarrow> real) \<Rightarrow> pcfu_fn \<Rightarrow> delta_fn \<Rightarrow> delta_fn
   \<Rightarrow> real list \<Rightarrow> real list \<Rightarrow> real list \<Rightarrow> real list \<Rightarrow> real list \<Rightarrow> real list \<Rightarrow> real list
   \<Rightarrow> real list \<Rightarrow> bool \<Rightarrow> py_error + complex list list"
where
  "transfer_function_shift zetac pcfu delta_firing_rate d_delta
       mu sigma tau_m tau_s tau_r V_th_rel V_0_rel omegas synaptic_filter_on =
     bind_err (equalize_shape [mu, sigma, tau_m, tau_r, tau_s, V_th_rel, V_0_rel]) (\<lambda>args.
       let mu = args ! 0; sigma = args ! 1; tau_m = args ! 2; tau_r = args ! 3;
           tau_s = args ! 4; V_th_rel = args ! 5; V_0_rel = args ! 6;
           n = length mu;
           alpha = sqrt 2 * \<bar>zetac (1 / 2) + 1\<bar>;
           V_th_shifted = map (\<lambda>j. V_th_rel ! j + sigma ! j * alpha / 2 * sqrt (tau_s ! j / tau_m ! j)) [0..<n];
           V_0_shifted = map (\<lambda>j. V_0_rel ! j + sigma ! j * alpha / 2 * sqrt (tau_s ! j / tau_m ! j)) [0..<n];
           zero_omega_mask = map (\<lambda>w. \<bar>w\<bar> < 1 / 10 ^ 15) omegas;
           regular_mask = map Not zero_omega_mask;
           result = replicate (length omegas) (replicate n 0)
       in bind_err
            (if \<exists>b \<in> set zero_omega_mask. b then
               bind_err (d_delta V_0_shifted V_th_shifted mu sigma tau_m tau_r) (\<lambda>d.
                 assign_rows result zero_omega_mask (map complex_of_real (bcast n d)))
             else Inr result) (\<lambda>result.
          bind_err
            (if \<exists>b \<in> set regular_mask. b then
               bind_err (delta_firing_rate V_0_shifted V_th_shifted mu sigma tau_m tau_r) (\<lambda>nu.
                 let x_t = map (\<lambda>j. sqrt 2 * (V_th_shifted ! j - mu ! j) / sigma ! j) [0..<n];
                     x_r = map (\<lambda>j. sqrt 2 * (V_0_shifted ! j - mu ! j) / sigma ! j) [0..<n]
                 in assign_masked result regular_mask
                      (map (shift_row pcfu (bcast n nu) sigma tau_m x_t x_r)
                         (select regular_mask omegas)))
             else Inr result) (\<lambda>result.
          Inr (if synaptic_filter_on
               then map2 (map2 (*)) result (synaptic_filter omegas tau_s)
               else result))))"

definition taylor_row ::
  "pcfu_fn \<Rightarrow> real \<Rightarrow> real list \<Rightarrow> real list \<Rightarrow> real list \<Rightarrow> real list \<Rightarrow> real list \<Rightarrow> real list
   \<Rightarrow> real list \<Rightarrow> real \<Rightarrow> complex list"
where
  "taylor_row pcfu alpha delta_rates exp_rates sigma tau_m tau_s x_t x_r w =
     map (\<lambda>j.
       let z = - 0.5 + \<i> * complex_of_real (w * tau_m ! j);
           k = sqrt (tau_s ! j / tau_m ! j);
           A = alpha * tau_m ! j * delta_rates ! j * k / sqrt 2;
           a0 = Psi pcfu z (x_t ! j) - Psi pcfu z (x_r ! j);
           a1 = (d_Psi pcfu z (x_t ! j) - d_Psi pcfu z (x_r ! j)) / a0;
           a3 = complex_of_real (A / tau_m ! j / exp_rates ! j)
                * (- (a1\<^sup>2) + (d_2_Psi pcfu z (x_t ! j) - d_2_Psi pcfu z (x_r ! j)) / a0)
       in complex_of_real (sqrt 2 / sigma ! j * exp_rates ! j)
          / (1 + \<i> * complex_of_real (w * tau_m ! j)) * (a1 + a3)) [0..<length sigma]"

definition transfer_function_taylor ::
  "order_fn \<Rightarrow> siegert_fn \<Rightarrow> siegert_fn \<Rightarrow> siegert_fn
   \<Rightarrow> (real \<Rightarrow> real) \<Rightarrow> pcfu_fn \<Rightarrow> delta_fn \<Rightarrow> delta_fn
   \<Rightarrow> real list \<Rightarrow> real list \<Rightarrow> real list \<Rightarrow> real list \<Rightarrow> real list \<Rightarrow> real list \<Rightarrow> real list
   \<Rightarrow> real list \<Rightarrow> bool \<Rightarrow> py_error + (complex list list \<times> py_warning list)"
where
  "transfer_function_taylor delta_order delta_exc delta_inh delta_interm
       zetac pcfu delta_firing_rate d_delta
       mu sigma tau_m tau_s tau_r V_th_rel V_0_rel omegas synaptic_filter_on =
     bind_err (equalize_shape [mu, sigma, tau_m, tau_r, tau_s, V_th_rel, V_0_rel]) (\<lambda>args.
       let mu = args ! 0; sigma = args ! 1; tau_m = args ! 2; tau_r = args ! 3;
           tau_s = args ! 4; V_th_rel = args ! 5; V_0_rel = args ! 6;
           n = length mu;
           zero_omega_mask = map (\<lambda>w. w < 1 / 10 ^ 15) omegas;
           regular_mask = map Not zero_omega_mask;
           result = replicate (length omegas) (replicate n 0)
       in bind_err
            (if \<exists>b \<in> set zero_omega_mask. b then
               bind_err (derivative_of_firing_rates_wrt_mean_input zetac delta_firing_rate d_delta
                           V_0_rel V_th_rel mu sigma tau_m tau_r tau_s) (\<lambda>d.
                 assign_rows result zero_omega_mask (map complex_of_real (bcast n d)))
             else Inr result) (\<lambda>result.
          bind_err
            (if \<exists>b \<in> set regular_mask. b then
               bind_err (delta_firing_rate V_0_rel V_th_rel mu sigma tau_m tau_r) (\<lambda>delta_rates.
               bind_err (firing_rate_taylor delta_order delta_exc delta_inh delta_interm
                           zetac delta_firing_rate
                           V_0_rel V_th_rel mu sigma tau_m tau_r tau_s) (\<lambda>(exp_rates, warnings).
                 let x_t = map (\<lambda>j. sqrt 2 * (V_th_rel ! j - mu ! j) / sigma ! j) [0..<n];
                     x_r = map (\<lambda>j. sqrt 2 * (V_0_rel ! j - mu ! j) / sigma ! j) [0..<n];
                     alpha = sqrt 2 * \<bar>zetac (1 / 2) + 1\<bar>
                 in bind_err (assign_masked result regular_mask
                      (map (taylor_row pcfu alpha (bcast n delta_rates) (bcast n (to_list exp_rates))
                              sigma tau_m tau_s x_t x_r)
                         (select regular_mask omegas))) (\<lambda>result. Inr (result, warnings))))
             else Inr (result, [])) (\<lambda>(result, warnings).
          Inr (if synaptic_filter_on
               then map2 (map2 (*)) result (synaptic_filter omegas tau_s)
               else result, warnings))))"

section \<open>Network-response layer (\<^verbatim>\<open>lif/exp.py\<close>)\<close>

text \<open>
  A two-dimensional array is the list of its rows; the effective connectivity is a
  stack of square matrices, one per frequency. \<^verbatim>\<open>np.dot\<close> of two matrices is the
  matrix product. \<^verbatim>\<open>np.linalg.inv\<close> and \<^verbatim>\<open>scipy.linalg.eig\<close> are library routines
  and parameters of the model: \<open>linalg_inv\<close> gives \<open>None\<close> where the library raises
  \<^verbatim>\<open>LinAlgError\<close> (a singular matrix), \<open>linalg_eig\<close> gives the eigenvalues and the
  matrices of left and right eigenvectors (one eigenvector per column).
\<close>

type_synonym cmat = "complex list list"
type_synonym eig_fn = "cmat \<Rightarrow> complex list \<times> cmat \<times> cmat"








definition column :: "cmat \<Rightarrow> nat \<Rightarrow> complex list" where
  "column A j = map (\<lambda>row. row ! j) A"

definition np_outer :: "complex list \<Rightarrow> complex list \<Rightarrow> cmat" where
  "np_outer u v = map (\<lambda>a. map (\<lambda>b. a * b) v) u"

definition vdot :: "complex list \<Rightarrow> complex list \<Rightarrow> complex" where
  "vdot u v = sum_list (map2 (*) u v)"




text \<open>\<^verbatim>\<open>np.argmin\<close>: the first index of a least element.\<close>

fun argmin :: "real list \<Rightarrow> nat" where
  "argmin [] = 0"
| "argmin [x] = 0"
| "argmin (x # y # ys) = (let i = argmin (y # ys) in if x \<le> (y # ys) ! i then 0 else Suc i)"

text \<open>
  \<^verbatim>\<open>_sensitivity_measure\<close>. The local \<^verbatim>\<open>index\<close> is set to \<^verbatim>\<open>None\<close> just before it is
  tested, so the eigenvalue is always chosen by \<^verbatim>\<open>np.argmin(np.abs(e - 1))\<close>, which
  raises \<^verbatim>\<open>ValueError\<close> for no eigenvalues.
\<close>

definition sensitivity_mode :: "complex list \<Rightarrow> nat" where
  "sensitivity_mode e = argmin (map (\<lambda>z. cmod (z - 1)) e)"

definition sensitivity_of_omega :: "eig_fn \<Rightarrow> cmat \<Rightarrow> py_error + cmat" where
  "sensitivity_of_omega linalg_eig eff_conn_of_omega =
     (let (e, U_l, U_r) = linalg_eig eff_conn_of_omega
      in if e = [] then Inl ValueError
         else
           let index = sensitivity_mode e;
               T = np_outer (map cnj (column U_l index)) (column U_r index);
               T = map (map (\<lambda>t. t / vdot (map cnj (column U_l index)) (column U_r index))) T;
               T = map2 (map2 (*)) T eff_conn_of_omega
           in Inr T)"

definition sensitivity_measure :: "eig_fn \<Rightarrow> cmat list \<Rightarrow> py_error + cmat list" where
  "sensitivity_measure linalg_eig effective_connectivity =
     sequence_err (map (sensitivity_of_omega linalg_eig) effective_connectivity)"



section \<open>The branch of an element\<close>

text \<open>
  The specification reads the masks of \<^verbatim>\<open>nu_0\<close> and \<^verbatim>\<open>_nu0_dPhi\<close> as a tag per
  element. \<open>branch_tags\<close> lists, in the order of the three masks, the branches whose
  condition an element satisfies; \<open>branch_rate\<close> and \<open>branch_dPhi\<close> are what the code
  of one branch computes for one element. These definitions follow the specification;
  the theorems compare the vectorised code with them.
\<close>

datatype branch = Exc | Inh | Interm

definition branch_tags :: "real \<Rightarrow> real \<Rightarrow> branch list" where
  "branch_tags y_th y_r =
     (if y_th < 0 then [Exc] else []) @ (if 0 < y_r then [Inh] else [])
     @ (if y_r \<le> 0 \<and> 0 \<le> y_th then [Interm] else [])"

definition branch_rate :: "gl_table \<Rightarrow> nat \<Rightarrow> real \<Rightarrow> real \<Rightarrow> real \<Rightarrow> real \<Rightarrow> branch \<Rightarrow> real" where
  "branch_rate roots_legendre gl_order tau_m t_ref y_th y_r tag =
     (case tag of
        Exc \<Rightarrow> exc_rate tau_m t_ref (erfcx_integral1 roots_legendre \<bar>y_th\<bar> \<bar>y_r\<bar> gl_order)
      | Inh \<Rightarrow> inh_rate y_th y_r tau_m t_ref (erfcx_integral1 roots_legendre y_r y_th gl_order)
      | Interm \<Rightarrow> interm_rate y_th tau_m t_ref (erfcx_integral1 roots_legendre y_th \<bar>y_r\<bar> gl_order))"

definition branch_dPhi :: "real \<Rightarrow> real \<Rightarrow> branch \<Rightarrow> real" where
  "branch_dPhi y_th y_r tag =
     (case tag of
        Exc \<Rightarrow> Phi_neg_elem (sqrt 2 * y_th) - Phi_neg_elem (sqrt 2 * y_r)
      | Inh \<Rightarrow> Phi_pos_elem (sqrt 2 * y_th) - Phi_pos_elem (sqrt 2 * y_r) * exp (- (y_th\<^sup>2) + y_r\<^sup>2)
      | Interm \<Rightarrow> Phi_pos_elem (sqrt 2 * y_th) - Phi_neg_elem (sqrt 2 * y_r) * exp (- (y_th\<^sup>2)))"

text \<open>
  The three masks of \<^verbatim>\<open>nu_0\<close> and \<^verbatim>\<open>_nu0_dPhi\<close>. A branch function is called with the
  elements that its mask selects and returns an array of values; \<open>masked_index msk i\<close> is
  the place of element \<open>i\<close> among the elements that \<open>msk\<close> selects, and \<open>branch_value\<close>
  the value, in the arrays \<open>v_exc\<close>, \<open>v_inh\<close> and \<open>v_interm\<close> that the three branch
  functions returned, that belongs to element \<open>i\<close> in the branch \<open>tag\<close> (an array of
  length one stands for all selected elements).
\<close>

definition mask_exc :: "real list \<Rightarrow> bool list" where
  "mask_exc y_th = map (\<lambda>t. t < 0) y_th"

definition mask_inh :: "real list \<Rightarrow> bool list" where
  "mask_inh y_r = map (\<lambda>r. 0 < r) y_r"

definition mask_interm :: "real list \<Rightarrow> real list \<Rightarrow> bool list" where
  "mask_interm y_th y_r = map2 (\<lambda>r t. r \<le> 0 \<and> 0 \<le> t) y_r y_th"

definition masked_index :: "bool list \<Rightarrow> nat \<Rightarrow> nat" where
  "masked_index msk i = length (filter id (take i msk))"

definition masked_value :: "bool list \<Rightarrow> real list \<Rightarrow> nat \<Rightarrow> real" where
  "masked_value msk v i = bcast (length (filter id msk)) v ! masked_index msk i"

definition branch_value ::
  "real list \<Rightarrow> real list \<Rightarrow> real list \<Rightarrow> real list \<Rightarrow> real list \<Rightarrow> nat \<Rightarrow> branch \<Rightarrow> real"
where
  "branch_value y_th y_r v_exc v_inh v_interm i tag =
     (case tag of
        Exc \<Rightarrow> masked_value (mask_exc y_th) v_exc i
      | Inh \<Rightarrow> masked_value (mask_inh y_r) v_inh i
      | Interm \<Rightarrow> masked_value (mask_interm y_th y_r) v_interm i)"

text \<open>The value \<^verbatim>\<open>nu.item(0)\<close> or \<^verbatim>\<open>nu\<close> that the rate functions return.\<close>

definition item_or_array :: "'a list \<Rightarrow> 'a ndarray" where
  "item_or_array xs = (if length xs = 1 then Scalar (xs ! 0) else Array xs)"

text \<open>
  The shifted coordinate \<open>(V - mu) / sigma\<close> of every element, for operands broadcast to
  the length \<open>n\<close>.
\<close>

definition coords :: "real list \<Rightarrow> real list \<Rightarrow> real list \<Rightarrow> nat \<Rightarrow> real list" where
  "coords V mu sigma n = map (\<lambda>i. (bcast n V ! i - bcast n mu ! i) / bcast n sigma ! i) [0..<n]"

section \<open>Shapes and inverses of matrices\<close>




section \<open>Auxiliary functions of the analysis\<close>

text \<open>
  The bounds on the Siegert rate rest on the values of \<open>erfcx\<close> on the non-negative
  half line. \<open>gauss_series\<close> is the power series \<open>\<Sum> u\<^sup>n / (n! (2n + 1))\<close>, of which
  \<open>gauss_int x = x * gauss_series (- x\<^sup>2)\<close> and \<open>exp_sq_int x = x * gauss_series (x\<^sup>2)\<close>;
  \<open>cos_power_int m\<close> is the antiderivative of \<open>cos\<^sup>m\<close> that vanishes at \<open>0\<close>.
\<close>

definition gauss_coeff :: "nat \<Rightarrow> real" where
  "gauss_coeff n = 1 / (fact n * (2 * real n + 1))"

definition gauss_series :: "real \<Rightarrow> real" where
  "gauss_series u = (\<Sum>n. gauss_coeff n * u ^ n)"

fun cos_power_int :: "nat \<Rightarrow> real \<Rightarrow> real" where
  "cos_power_int 0 t = t"
| "cos_power_int (Suc 0) t = sin t"
| "cos_power_int (Suc (Suc m)) t =
     (cos t ^ Suc m * sin t + real (Suc m) * cos_power_int m t) / real (Suc (Suc m))"

text \<open>
  What the bounds need of the table of \<^verbatim>\<open>roots_legendre\<close>: as many nodes as weights,
  nodes in \<open>[-1, 1]\<close>, weights that are not negative and sum to \<open>2\<close> (a Gauss--Legendre
  rule integrates the constant \<open>1\<close> over \<open>[-1, 1]\<close> exactly).
\<close>

definition gauss_rule :: "real list \<times> real list \<Rightarrow> bool" where
  "gauss_rule r =
     (case r of (x, w) \<Rightarrow>
        length x = length w \<and> list_all (\<lambda>xi. - 1 \<le> xi \<and> xi \<le> 1) x
        \<and> list_all (\<lambda>wi. 0 \<le> wi) w \<and> sum_list w = 2)"

section \<open>Basic facts\<close>

lemma bind_err_simps:
  "bind_err (Inl e) f = Inl e" "bind_err (Inr v) f = f v"
  by (simp_all add: bind_err_def)

lemma gauss_int_0: "gauss_int 0 = 0"
  by (simp add: gauss_int_def)

lemma erfcx_0: "erfcx 0 = 1"
  by (simp add: erfcx_def erfc_def erf_def gauss_int_0)

section \<open>Masks, broadcasting and the vectorised branch functions\<close>

lemma select_Nil [simp]: "select [] xs = []" "select ms [] = []"
  by (simp_all add: select_def)

lemma select_Cons [simp]:
  "select (m # ms) (x # xs) = (if m then x # select ms xs else select ms xs)"
  by (simp add: select_def)

lemma select_map: "select ms (map f xs) = map f (select ms xs)"
  by (induction ms xs rule: list_induct2') simp_all

lemma select_zip: "select ms (zip xs ys) = zip (select ms xs) (select ms ys)"
proof (induction ms arbitrary: xs ys)
  case Nil
  then show ?case by simp
next
  case (Cons m ms)
  then show ?case by (cases xs; cases ys) simp_all
qed

lemma length_select_eq:
  "length xs = length ms \<Longrightarrow> length ys = length ms \<Longrightarrow> length (select ms xs) = length (select ms ys)"
proof (induction ms arbitrary: xs ys)
  case Nil
  then show ?case by simp
next
  case (Cons m ms)
  then show ?case by (cases xs; cases ys) simp_all
qed

lemma length_select: "length xs = length ms \<Longrightarrow> length (select ms xs) = length (filter id ms)"
proof (induction ms arbitrary: xs)
  case Nil
  then show ?case by simp
next
  case (Cons m ms)
  then show ?case by (cases xs) simp_all
qed

lemma set_select_subset: "set (select ms xs) \<subseteq> set xs"
  by (induction ms xs rule: list_induct2') auto

lemma select_pred: "x \<in> set (select (map P xs) xs) \<Longrightarrow> P x"
  by (induction xs) (auto split: if_splits)

text \<open>Masked assignment of values computed from the selected elements.\<close>

lemma assign_items_select:
  "length nu = length ms \<Longrightarrow> length ms = length xs \<Longrightarrow>
   assign_items nu ms (select ms xs) = Inr (map (\<lambda>i. if ms ! i then xs ! i else nu ! i) [0..<length ms])"
proof (induction nu ms xs rule: list_induct3)
  case Nil
  then show ?case by simp
next
  case (Cons n nu m ms x xs)
  have shift: "map (\<lambda>i. if (m # ms) ! i then (x # xs) ! i else (n # nu) ! i) [0..<length (m # ms)]
       = (if m then x else n) # map (\<lambda>i. if ms ! i then xs ! i else nu ! i) [0..<length ms]"
    by (simp add: upt_conv_Cons map_Suc_upt[symmetric] del: upt_Suc)
  show ?case
    unfolding shift using Cons.IH by (cases m) (simp_all add: bind_err_simps)
qed

lemma assign_masked_exact:
  assumes "length vals = length (filter id msk)"
  shows "assign_masked x msk vals = assign_items x msk vals"
proof (cases "length vals = 1")
  case True
  then obtain v where v: "vals = [v]" by (cases vals) auto
  then have "replicate (length (filter id msk)) (vals ! 0) = vals"
    using assms by (metis True nth_Cons_0 replicate_Suc replicate_0 One_nat_def)
  then show ?thesis by (simp add: assign_masked_def True)
next
  case False
  then show ?thesis by (simp add: assign_masked_def)
qed

lemma assign_select:
  assumes "length nu = length ms" "length ms = length xs"
  shows "assign_masked nu ms (select ms xs)
         = Inr (map (\<lambda>i. if ms ! i then xs ! i else nu ! i) [0..<length ms])"
proof -
  have "length (select ms xs) = length (filter id ms)"
    by (rule length_select) (simp add: assms)
  then show ?thesis by (simp only: assign_masked_exact assign_items_select[OF assms])
qed


lemma common_len_all:
  "(\<forall>l \<in> set ls. l = k \<or> l = 1) \<Longrightarrow> common_len ls = Inr (if k \<in> set ls then k else 1)"
  by (induction ls) (auto simp: bind_err_simps)

lemma bcast_same: "length xs = n \<Longrightarrow> bcast n xs = xs"
  by (simp add: bcast_def)

lemma bcast_single: "i < n \<Longrightarrow> bcast n [x] ! i = x"
  by (auto simp: bcast_def)

lemma length_bcast: "length xs = n \<or> length xs = 1 \<Longrightarrow> length (bcast n xs) = n"
  by (auto simp: bcast_def)

lemma erfcx_integral_eq:
  assumes "length a = length b" "\<forall>v \<in> set a. 0 \<le> v" "\<forall>v \<in> set b. 0 \<le> v"
  shows "erfcx_integral rl a b g = Inr (map2 (\<lambda>ai bi. erfcx_integral1 rl ai bi g) a b)"
proof -
  have "common_len [length a, length b] = Inr (length b)"
    using assms(1) by (simp add: bind_err_simps)
  then show ?thesis
    using assms by (simp add: erfcx_integral_def bind_err_simps bcast_same)
qed

lemma siegert_exc_nth:
  assumes len: "length y_th = k" "length y_r = k"
      "length tau_m = k \<or> length tau_m = 1" "length t_ref = k \<or> length t_ref = 1"
    and neg: "\<forall>t \<in> set y_th. t < 0"
  shows "siegert_exc rl y_th y_r tau_m t_ref g =
     Inr (map (\<lambda>i. exc_rate (bcast k tau_m ! i) (bcast k t_ref ! i)
                     (erfcx_integral1 rl \<bar>y_th ! i\<bar> \<bar>y_r ! i\<bar> g)) [0..<k])"
proof -
  let ?G = "map2 (\<lambda>ai bi. erfcx_integral1 rl ai bi g) (map abs y_th) (map abs y_r)"
  have G: "erfcx_integral rl (map abs y_th) (map abs y_r) g = Inr ?G"
    by (rule erfcx_integral_eq) (simp_all add: len)
  have lG: "length ?G = k" by (simp add: len)
  have cl: "common_len [length t_ref, length tau_m, length ?G] = Inr k"
    using common_len_all[of "[length t_ref, length tau_m, length ?G]" k] len(3,4) lG by auto
  have Gi: "\<And>i. i < k \<Longrightarrow> bcast k ?G ! i = erfcx_integral1 rl \<bar>y_th ! i\<bar> \<bar>y_r ! i\<bar> g"
    using lG by (simp add: bcast_same len)
  show ?thesis
    unfolding siegert_exc_def
    using neg by (simp only: G cl bind_err_simps if_False not_not if_True Gi cong: map_cong)
      (simp add: Gi cong: map_cong)
qed


lemma siegert_inh_nth:
  assumes len: "length y_th = k" "length y_r = k"
      "length tau_m = k \<or> length tau_m = 1" "length t_ref = k \<or> length t_ref = 1"
    and pos: "\<forall>r \<in> set y_r. 0 < r" and nn: "\<forall>t \<in> set y_th. 0 \<le> t"
  shows "siegert_inh rl y_th y_r tau_m t_ref g =
     Inr (map (\<lambda>i. inh_rate (y_th ! i) (y_r ! i) (bcast k tau_m ! i) (bcast k t_ref ! i)
                     (erfcx_integral1 rl (y_r ! i) (y_th ! i) g)) [0..<k])"
proof -
  let ?G = "map2 (\<lambda>ai bi. erfcx_integral1 rl ai bi g) y_r y_th"
  have "\<forall>r \<in> set y_r. 0 \<le> r" using pos by fastforce
  then have G: "erfcx_integral rl y_r y_th g = Inr ?G"
    using nn by (intro erfcx_integral_eq) (simp_all add: len)
  have lG: "length ?G = k" by (simp add: len)
  have cl: "common_len [length y_th, length y_r, length t_ref, length tau_m, length ?G] = Inr k"
    using common_len_all[of "[length y_th, length y_r, length t_ref, length tau_m, length ?G]" k]
      len lG by auto
  have Gi: "\<And>i. i < k \<Longrightarrow> bcast k ?G ! i = erfcx_integral1 rl (y_r ! i) (y_th ! i) g"
    using lG by (simp add: bcast_same len)
  have b: "bcast k y_th = y_th" "bcast k y_r = y_r" by (simp_all add: bcast_same len)
  show ?thesis
    unfolding siegert_inh_def
    using pos by (simp only: G cl bind_err_simps if_False not_not if_True b)
      (simp add: Gi cong: map_cong)
qed

lemma siegert_interm_nth:
  assumes len: "length y_th = k" "length y_r = k"
      "length tau_m = k \<or> length tau_m = 1" "length t_ref = k \<or> length t_ref = 1"
    and dom: "list_all2 (\<lambda>r t. r \<le> 0 \<and> 0 \<le> t) y_r y_th"
  shows "siegert_interm rl y_th y_r tau_m t_ref g =
     Inr (map (\<lambda>i. interm_rate (y_th ! i) (bcast k tau_m ! i) (bcast k t_ref ! i)
                     (erfcx_integral1 rl (y_th ! i) \<bar>y_r ! i\<bar> g)) [0..<k])"
proof -
  let ?G = "map2 (\<lambda>ai bi. erfcx_integral1 rl ai bi g) y_th (map abs y_r)"
  have "\<forall>t \<in> set y_th. 0 \<le> t"
    using dom by (auto simp: list_all2_conv_all_nth in_set_conv_nth)
  then have G: "erfcx_integral rl y_th (map abs y_r) g = Inr ?G"
    by (intro erfcx_integral_eq) (simp_all add: len)
  have lG: "length ?G = k" by (simp add: len)
  have cl: "common_len [length y_th, length t_ref, length tau_m, length ?G] = Inr k"
    using common_len_all[of "[length y_th, length t_ref, length tau_m, length ?G]" k]
      len lG by auto
  have Gi: "\<And>i. i < k \<Longrightarrow> bcast k ?G ! i = erfcx_integral1 rl (y_th ! i) \<bar>y_r ! i\<bar> g"
    using lG by (simp add: bcast_same len)
  have b: "bcast k y_th = y_th" by (simp add: bcast_same len)
  show ?thesis
    unfolding siegert_interm_def
    using dom by (simp only: G cl bind_err_simps if_False not_not if_True b)
      (simp add: Gi cong: map_cong)
qed

lemma map2_nth:
  "length xs = length ys \<Longrightarrow> map2 f xs ys = map (\<lambda>i. f (xs ! i) (ys ! i)) [0..<length xs]"
  by (rule nth_equalityI) simp_all

lemma select_nth:
  "x \<in> set (select ms xs) \<Longrightarrow> \<exists>i. i < length xs \<and> i < length ms \<and> ms ! i \<and> xs ! i = x"
proof (induction ms arbitrary: xs)
  case Nil
  then show ?case by simp
next
  case (Cons m ms)
  show ?case
  proof (cases xs)
    case Nil
    with Cons.prems show ?thesis by simp
  next
    case (Cons y ys)
    show ?thesis
    proof (cases "m \<and> x = y")
      case True
      then show ?thesis using Cons by (intro exI[of _ 0]) simp
    next
      case False
      then have "x \<in> set (select ms ys)" using Cons.prems Cons by (auto split: if_splits)
      from Cons.IH[OF this] obtain i where "i < length ys" "i < length ms" "ms ! i" "ys ! i = x"
        by blast
      then show ?thesis using Cons by (intro exI[of _ "Suc i"]) simp
    qed
  qed
qed

lemma select_all2:
  "length rs = length ts \<Longrightarrow> list_all2 P (select (map2 P rs ts) rs) (select (map2 P rs ts) ts)"
  by (induction rs ts rule: list_induct2) simp_all

lemma bind_err_cong_val:
  "(\<And>v. m = Inr v \<Longrightarrow> f v = g v) \<Longrightarrow> bind_err m f = bind_err m g"
  by (cases m) (simp_all add: bind_err_def)

lemma branch_tags_ordered:
  "\<not> (y_th < 0 \<and> 0 < y_r) \<Longrightarrow>
   branch_tags y_th y_r = [if y_th < 0 then Exc else if 0 < y_r then Inh else Interm]"
  by (auto simp: branch_tags_def)

text \<open>The three masked assignments of the rate, for time constants given as floats.\<close>

lemma siegert_masked_scalar:
  fixes y_th y_r :: "real list"
  assumes len: "length y_th = n" "length y_r = n"
    and ord: "\<forall>i<n. \<not> (y_th ! i < 0 \<and> 0 < y_r ! i)"
  defines "me \<equiv> map (\<lambda>t. t < 0) y_th" and "mi \<equiv> map (\<lambda>r. 0 < r) y_r"
    and "mm \<equiv> map2 (\<lambda>r t. r \<le> 0 \<and> 0 \<le> t) y_r y_th"
  shows
    "bind_err (siegert_exc rl (select me y_th) (select me y_r) [tau_m] [tau_r] g) (\<lambda>v.
     bind_err (assign_masked (replicate (length y_th) 0) me v) (\<lambda>nu.
     bind_err (siegert_inh rl (select mi y_th) (select mi y_r) [tau_m] [tau_r] g) (\<lambda>v.
     bind_err (assign_masked nu mi v) (\<lambda>nu.
     bind_err (siegert_interm rl (select mm y_th) (select mm y_r) [tau_m] [tau_r] g) (\<lambda>v.
     bind_err (assign_masked nu mm v) (\<lambda>nu. k nu))))))
     = k (map2 (\<lambda>t r. branch_rate rl g tau_m tau_r t r (hd (branch_tags t r))) y_th y_r)"
proof -
  let ?Fe = "\<lambda>t r. exc_rate tau_m tau_r (erfcx_integral1 rl \<bar>t\<bar> \<bar>r\<bar> g)"
  let ?Fi = "\<lambda>t r. inh_rate t r tau_m tau_r (erfcx_integral1 rl r t g)"
  let ?Fm = "\<lambda>t r. interm_rate t tau_m tau_r (erfcx_integral1 rl t \<bar>r\<bar> g)"
  have lm: "length me = n" "length mi = n" "length mm = n"
    by (simp_all add: me_def mi_def mm_def len)
  have lsel: "\<And>ms. length ms = n \<Longrightarrow> length (select ms y_th) = length (select ms y_r)"
    by (rule length_select_eq) (simp_all add: len)
  \<comment> \<open>excitatory branch\<close>
  have neg: "\<forall>t \<in> set (select me y_th). t < 0"
    unfolding me_def using select_pred[of _ "\<lambda>t. t < 0" y_th] by blast
  have s1: "siegert_exc rl (select me y_th) (select me y_r) [tau_m] [tau_r] g
      = Inr (select me (map2 ?Fe y_th y_r))"
  proof -
    have "siegert_exc rl (select me y_th) (select me y_r) [tau_m] [tau_r] g
        = Inr (map (\<lambda>i. ?Fe (select me y_th ! i) (select me y_r ! i)) [0..<length (select me y_th)])"
      using siegert_exc_nth[OF refl lsel[OF lm(1), symmetric] _ _ neg, of "[tau_m]" "[tau_r]" rl g]
      by (simp add: bcast_single cong: map_cong)
    also have "map (\<lambda>i. ?Fe (select me y_th ! i) (select me y_r ! i)) [0..<length (select me y_th)]
        = map2 ?Fe (select me y_th) (select me y_r)"
      using map2_nth[OF lsel[OF lm(1)], of ?Fe] by simp
    finally show ?thesis by (simp add: select_map select_zip)
  qed
  \<comment> \<open>inhibitory branch\<close>
  have pos: "\<forall>r \<in> set (select mi y_r). 0 < r"
    unfolding mi_def using select_pred[of _ "\<lambda>r. 0 < r" y_r] by blast
  have nn: "\<forall>t \<in> set (select mi y_th). 0 \<le> t"
  proof
    fix t assume "t \<in> set (select mi y_th)"
    from select_nth[OF this] obtain i where i: "i < length y_th" "i < length mi" "mi ! i" "y_th ! i = t"
      by blast
    then have "0 < y_r ! i" by (simp add: mi_def len)
    moreover have "\<not> (y_th ! i < 0 \<and> 0 < y_r ! i)" using ord i(1) len by simp
    ultimately show "0 \<le> t" using i by simp
  qed
  have s2: "siegert_inh rl (select mi y_th) (select mi y_r) [tau_m] [tau_r] g
      = Inr (select mi (map2 ?Fi y_th y_r))"
  proof -
    have "siegert_inh rl (select mi y_th) (select mi y_r) [tau_m] [tau_r] g
        = Inr (map (\<lambda>i. ?Fi (select mi y_th ! i) (select mi y_r ! i)) [0..<length (select mi y_th)])"
      using siegert_inh_nth[OF refl lsel[OF lm(2), symmetric] _ _ pos nn, of "[tau_m]" "[tau_r]" rl g]
      by (simp add: bcast_single cong: map_cong)
    also have "map (\<lambda>i. ?Fi (select mi y_th ! i) (select mi y_r ! i)) [0..<length (select mi y_th)]
        = map2 ?Fi (select mi y_th) (select mi y_r)"
      using map2_nth[OF lsel[OF lm(2)], of ?Fi] by simp
    finally show ?thesis by (simp add: select_map select_zip)
  qed
  \<comment> \<open>intermediate branch\<close>
  have dom: "list_all2 (\<lambda>r t. r \<le> 0 \<and> 0 \<le> t) (select mm y_r) (select mm y_th)"
    unfolding mm_def by (rule select_all2) (simp add: len)
  have s3: "siegert_interm rl (select mm y_th) (select mm y_r) [tau_m] [tau_r] g
      = Inr (select mm (map2 ?Fm y_th y_r))"
  proof -
    have "siegert_interm rl (select mm y_th) (select mm y_r) [tau_m] [tau_r] g
        = Inr (map (\<lambda>i. ?Fm (select mm y_th ! i) (select mm y_r ! i)) [0..<length (select mm y_th)])"
      using siegert_interm_nth[OF refl lsel[OF lm(3), symmetric] _ _ dom, of "[tau_m]" "[tau_r]" rl g]
      by (simp add: bcast_single cong: map_cong)
    also have "map (\<lambda>i. ?Fm (select mm y_th ! i) (select mm y_r ! i)) [0..<length (select mm y_th)]
        = map2 ?Fm (select mm y_th) (select mm y_r)"
      using map2_nth[OF lsel[OF lm(3)], of ?Fm] by simp
    finally show ?thesis by (simp add: select_map select_zip)
  qed
  \<comment> \<open>the assignments\<close>
  define nu1 where "nu1 = map (\<lambda>i. if me ! i then map2 ?Fe y_th y_r ! i else replicate (length y_th) 0 ! i) [0..<length me]"
  define nu2 where "nu2 = map (\<lambda>i. if mi ! i then map2 ?Fi y_th y_r ! i else nu1 ! i) [0..<length mi]"
  define nu3 where "nu3 = map (\<lambda>i. if mm ! i then map2 ?Fm y_th y_r ! i else nu2 ! i) [0..<length mm]"
  have a1: "assign_masked (replicate (length y_th) 0) me (select me (map2 ?Fe y_th y_r)) = Inr nu1"
    unfolding nu1_def by (rule assign_select) (simp_all add: lm len)
  have l1: "length nu1 = n" by (simp add: nu1_def lm)
  have a2: "assign_masked nu1 mi (select mi (map2 ?Fi y_th y_r)) = Inr nu2"
    unfolding nu2_def by (rule assign_select) (simp_all add: lm len l1)
  have l2: "length nu2 = n" by (simp add: nu2_def lm)
  have a3: "assign_masked nu2 mm (select mm (map2 ?Fm y_th y_r)) = Inr nu3"
    unfolding nu3_def by (rule assign_select) (simp_all add: lm len l2)
  have final: "nu3 = map2 (\<lambda>t r. branch_rate rl g tau_m tau_r t r (hd (branch_tags t r))) y_th y_r"
  proof (rule nth_equalityI)
    show "length nu3 = length (map2 (\<lambda>t r. branch_rate rl g tau_m tau_r t r (hd (branch_tags t r))) y_th y_r)"
      by (simp add: nu3_def lm len)
  next
    fix i assume "i < length nu3"
    then have i: "i < n" by (simp add: nu3_def lm)
    have o: "\<not> (y_th ! i < 0 \<and> 0 < y_r ! i)" using ord i by simp
    show "nu3 ! i = map2 (\<lambda>t r. branch_rate rl g tau_m tau_r t r (hd (branch_tags t r))) y_th y_r ! i"
      using i o
      by (simp add: nu3_def nu2_def nu1_def lm len me_def mi_def mm_def branch_tags_ordered
          branch_rate_def)
  qed
  show ?thesis
    by (simp only: s1 a1 s2 a2 s3 a3 bind_err_simps final)
qed

lemma nu_0_by_branch:
  fixes mu sigma :: "real list" and V_th_rel V_0_rel :: real
  assumes cl: "common_len [length mu, length sigma] = Inr n"
  defines "y_th \<equiv> map2 (\<lambda>m s. (V_th_rel - m) / s) (bcast n mu) (bcast n sigma)"
    and "y_r \<equiv> map2 (\<lambda>m s. (V_0_rel - m) / s) (bcast n mu) (bcast n sigma)"
  assumes ord: "\<forall>i<length y_th. \<not> (y_th ! i < 0 \<and> 0 < y_r ! i)"
  shows "nu_0 rl quad tau_m tau_r V_th_rel V_0_rel mu sigma =
     bind_err (get_erfcx_integral_gl_order rl quad y_th y_r 10 (1 / 10 ^ 12) 10) (\<lambda>g.
       Inr (item_or_array
              (map2 (\<lambda>t r. branch_rate rl g tau_m tau_r t r (hd (branch_tags t r))) y_th y_r)))"
proof -
  have len: "length y_r = length y_th" by (simp add: y_th_def y_r_def)
  have m: "\<And>g. bind_err (siegert_exc rl (select (map (\<lambda>t. t < 0) y_th) y_th) (select (map (\<lambda>t. t < 0) y_th) y_r) [tau_m] [tau_r] g) (\<lambda>v.
     bind_err (assign_masked (replicate (length y_th) 0) (map (\<lambda>t. t < 0) y_th) v) (\<lambda>nu.
     bind_err (siegert_inh rl (select (map (\<lambda>r. 0 < r) y_r) y_th) (select (map (\<lambda>r. 0 < r) y_r) y_r) [tau_m] [tau_r] g) (\<lambda>v.
     bind_err (assign_masked nu (map (\<lambda>r. 0 < r) y_r) v) (\<lambda>nu.
     bind_err (siegert_interm rl (select (map2 (\<lambda>r t. r \<le> 0 \<and> 0 \<le> t) y_r y_th) y_th) (select (map2 (\<lambda>r t. r \<le> 0 \<and> 0 \<le> t) y_r y_th) y_r) [tau_m] [tau_r] g) (\<lambda>v.
     bind_err (assign_masked nu (map2 (\<lambda>r t. r \<le> 0 \<and> 0 \<le> t) y_r y_th) v) (\<lambda>nu.
       Inr (if length nu = 1 then Scalar (nu ! 0) else Array nu)))))))
     = Inr (item_or_array (map2 (\<lambda>t r. branch_rate rl g tau_m tau_r t r (hd (branch_tags t r))) y_th y_r))"
    unfolding item_or_array_def
    by (rule siegert_masked_scalar[where k = "\<lambda>nu. Inr (if length nu = 1 then Scalar (nu ! 0) else Array nu)", OF refl len])
       (use ord in simp)
  show ?thesis
    unfolding nu_0_def
    by (simp only: cl bind_err_simps Let_def y_th_def[symmetric] y_r_def[symmetric] m)
qed

lemma similar_array_bcast:
  "length x = n \<or> length x = 1 \<Longrightarrow> length array = n \<Longrightarrow> similar_array x array = Inr (bcast n x)"
  by (cases x) (auto simp: similar_array_def bcast_def)

lemma sequence_err_Inr: "sequence_err (map Inr xs) = Inr xs"
  by (induction xs) (simp_all add: bind_err_simps)

lemma fold_longest:
  "(\<forall>a \<in> set args. length a \<le> length m0) \<Longrightarrow>
   fold (\<lambda>arg m. if length arg > length m then arg else m) args m0 = m0"
  by (induction args arbitrary: m0) simp_all

lemma length_fold_longest:
  "(\<forall>a \<in> set args. length a = n \<or> length a = 1) \<Longrightarrow> length m0 = n \<or> length m0 = 1 \<Longrightarrow>
   1 \<le> n \<Longrightarrow> (\<exists>a \<in> set (m0 # args). length a = n) \<Longrightarrow>
   length (fold (\<lambda>arg m. if length arg > length m then arg else m) args m0) = n"
proof (induction args arbitrary: m0)
  case Nil
  then show ?case by simp
next
  case (Cons a args)
  show ?case
  proof (cases "length a > length m0")
    case True
    then have la: "length a = n" using Cons.prems by auto
    have "length (fold (\<lambda>arg m. if length arg > length m then arg else m) args a) = n"
      using Cons.prems la by (intro Cons.IH) auto
    then show ?thesis using True by simp
  next
    case False
    have "\<exists>x \<in> set (m0 # args). length x = n"
    proof (cases "length a = n")
      case True
      then have "length m0 = n" using False Cons.prems(2,3) by auto
      then show ?thesis by simp
    next
      case False
      then show ?thesis using Cons.prems(4) by auto
    qed
    then have "length (fold (\<lambda>arg m. if length arg > length m then arg else m) args m0) = n"
      using Cons.prems by (intro Cons.IH) auto
    then show ?thesis using False by simp
  qed
qed

lemma equalize_shape_bcast:
  assumes "\<forall>a \<in> set args. length a = n \<or> length a = 1" "\<exists>a \<in> set args. length a = n" "1 \<le> n"
  shows "equalize_shape args = Inr (map (bcast n) args)"
proof -
  from assms(2) obtain a0 rest where args: "args = a0 # rest" by (cases args) auto
  let ?mx = "fold (\<lambda>arg m. if length arg > length m then arg else m) (tl args) (hd args)"
  have lm: "length ?mx = n"
    unfolding args using assms unfolding args
    by (simp only: list.sel) (rule length_fold_longest, auto)
  have "map (\<lambda>arg. similar_array arg ?mx) args = map Inr (map (bcast n) args)"
    using assms(1) lm by (simp add: similar_array_bcast)
  then show ?thesis
    unfolding equalize_shape_def Let_def by (simp only: sequence_err_Inr)
qed

lemma select_nth_all:
  "length xs = length ms \<Longrightarrow> length ys = length ms \<Longrightarrow>
   select ms (map (\<lambda>i. f (xs ! i) (ys ! i)) [0..<length ms]) = map2 f (select ms xs) (select ms ys)"
proof -
  assume l: "length xs = length ms" "length ys = length ms"
  have "map (\<lambda>i. f (xs ! i) (ys ! i)) [0..<length ms] = map2 f xs ys"
    using map2_nth[of xs ys f] l by simp
  then show ?thesis by (simp add: select_map select_zip)
qed

text \<open>The masked assignments of the rescaled helper values.\<close>

lemma Phi_neg_select:
  "\<forall>v \<in> set (select ms ys). v \<le> 0 \<Longrightarrow>
   Phi_neg (map (\<lambda>t. sqrt 2 * t) (select ms ys))
     = Inr (select ms (map (\<lambda>t. Phi_neg_elem (sqrt 2 * t)) ys))"
proof -
  assume a: "\<forall>v \<in> set (select ms ys). v \<le> 0"
  have b: "\<forall>v \<in> set (map (\<lambda>t. sqrt 2 * t) (select ms ys)). v \<le> 0"
    using a by (auto simp: mult_le_0_iff)
  show ?thesis
    using b by (simp add: Phi_neg_def select_map)
qed

lemma Phi_pos_select:
  "\<forall>v \<in> set (select ms ys). 0 \<le> v \<Longrightarrow>
   Phi_pos (map (\<lambda>t. sqrt 2 * t) (select ms ys))
     = Inr (select ms (map (\<lambda>t. Phi_pos_elem (sqrt 2 * t)) ys))"
proof -
  assume a: "\<forall>v \<in> set (select ms ys). 0 \<le> v"
  have b: "\<forall>v \<in> set (map (\<lambda>t. sqrt 2 * t) (select ms ys)). v \<ge> 0"
    using a by auto
  show ?thesis
    using b by (simp add: Phi_pos_def select_map)
qed

lemma phi_masked:
  fixes y_th y_r :: "real list"
  assumes len: "length y_th = n" "length y_r = n"
    and ord: "\<forall>i<n. \<not> (y_th ! i < 0 \<and> 0 < y_r ! i)"
  defines "me \<equiv> map (\<lambda>t. t < 0) y_th" and "mi \<equiv> map (\<lambda>r. 0 < r) y_r"
    and "mm \<equiv> map2 (\<lambda>r t. r \<le> 0 \<and> 0 \<le> t) y_r y_th"
  shows
   "bind_err (Phi_neg (map (\<lambda>t. sqrt 2 * t) (select me y_th))) (\<lambda>v.
    bind_err (assign_masked (replicate (length y_th) 0) me v) (\<lambda>Phi_th.
    bind_err (Phi_neg (map (\<lambda>r. sqrt 2 * r) (select me y_r))) (\<lambda>v.
    bind_err (assign_masked (replicate (length y_r) 0) me v) (\<lambda>Phi_r.
    bind_err (Phi_pos (map (\<lambda>t. sqrt 2 * t) (select mi y_th))) (\<lambda>v.
    bind_err (assign_masked Phi_th mi v) (\<lambda>Phi_th.
    bind_err (Phi_pos (map (\<lambda>r. sqrt 2 * r) (select mi y_r))) (\<lambda>v.
    bind_err (assign_masked Phi_r mi v) (\<lambda>Phi_r.
    bind_err (Phi_pos (map (\<lambda>t. sqrt 2 * t) (select mm y_th))) (\<lambda>v.
    bind_err (assign_masked Phi_th mm v) (\<lambda>Phi_th.
    bind_err (Phi_neg (map (\<lambda>r. sqrt 2 * r) (select mm y_r))) (\<lambda>v.
    bind_err (assign_masked Phi_r mm v) (\<lambda>Phi_r.
    bind_err (assign_masked Phi_r mi
                (map2 (\<lambda>p (t, r). p * exp (- (t\<^sup>2) + r\<^sup>2)) (select mi Phi_r)
                   (zip (select mi y_th) (select mi y_r)))) (\<lambda>Phi_r.
    bind_err (assign_masked Phi_r mm
                (map2 (\<lambda>p t. p * exp (- (t\<^sup>2))) (select mm Phi_r)
                   (select mm y_th))) (\<lambda>Phi_r.
      k Phi_th Phi_r))))))))))))))
    = k (map (\<lambda>i. case hd (branch_tags (y_th ! i) (y_r ! i)) of
                     Exc \<Rightarrow> Phi_neg_elem (sqrt 2 * y_th ! i)
                   | Inh \<Rightarrow> Phi_pos_elem (sqrt 2 * y_th ! i)
                   | Interm \<Rightarrow> Phi_pos_elem (sqrt 2 * y_th ! i)) [0..<n])
        (map (\<lambda>i. case hd (branch_tags (y_th ! i) (y_r ! i)) of
                     Exc \<Rightarrow> Phi_neg_elem (sqrt 2 * y_r ! i)
                   | Inh \<Rightarrow> Phi_pos_elem (sqrt 2 * y_r ! i) * exp (- ((y_th ! i)\<^sup>2) + (y_r ! i)\<^sup>2)
                   | Interm \<Rightarrow> Phi_neg_elem (sqrt 2 * y_r ! i) * exp (- ((y_th ! i)\<^sup>2))) [0..<n])"
proof -
  have lm: "length me = n" "length mi = n" "length mm = n"
    by (simp_all add: me_def mi_def mm_def len)
  \<comment> \<open>the signs of the selected coordinates\<close>
  have e_th: "\<forall>t \<in> set (select me y_th). t \<le> 0"
  proof
    fix t assume "t \<in> set (select me y_th)"
    then have "t < 0" unfolding me_def by (rule select_pred)
    then show "t \<le> 0" by simp
  qed
  have e_r: "\<forall>r \<in> set (select me y_r). r \<le> 0"
  proof
    fix r assume "r \<in> set (select me y_r)"
    from select_nth[OF this] obtain i where i: "i < length y_r" "i < length me" "me ! i" "y_r ! i = r"
      by blast
    then have "y_th ! i < 0" by (simp add: me_def len)
    moreover have "\<not> (y_th ! i < 0 \<and> 0 < y_r ! i)" using ord i(1) len by simp
    ultimately show "r \<le> 0" using i by simp
  qed
  have i_r: "\<forall>r \<in> set (select mi y_r). 0 \<le> r"
  proof
    fix r assume "r \<in> set (select mi y_r)"
    then have "0 < r" unfolding mi_def by (rule select_pred)
    then show "0 \<le> r" by simp
  qed
  have i_th: "\<forall>t \<in> set (select mi y_th). 0 \<le> t"
  proof
    fix t assume "t \<in> set (select mi y_th)"
    from select_nth[OF this] obtain i where i: "i < length y_th" "i < length mi" "mi ! i" "y_th ! i = t"
      by blast
    then have "0 < y_r ! i" by (simp add: mi_def len)
    moreover have "\<not> (y_th ! i < 0 \<and> 0 < y_r ! i)" using ord i(1) len by simp
    ultimately show "0 \<le> t" using i by simp
  qed
  have dom: "list_all2 (\<lambda>r t. r \<le> 0 \<and> 0 \<le> t) (select mm y_r) (select mm y_th)"
    unfolding mm_def by (rule select_all2) (simp add: len)
  have m_th: "\<forall>t \<in> set (select mm y_th). 0 \<le> t"
    using dom by (auto simp: list_all2_conv_all_nth in_set_conv_nth)
  have m_r: "\<forall>r \<in> set (select mm y_r). r \<le> 0"
    using dom by (auto simp: list_all2_conv_all_nth in_set_conv_nth)
  note p1 = Phi_neg_select[OF e_th] and p2 = Phi_neg_select[OF e_r]
    and p3 = Phi_pos_select[OF i_th] and p4 = Phi_pos_select[OF i_r]
    and p5 = Phi_pos_select[OF m_th] and p6 = Phi_neg_select[OF m_r]
  let ?N = "\<lambda>ys. map (\<lambda>t. Phi_neg_elem (sqrt 2 * t)) ys"
  let ?P = "\<lambda>ys. map (\<lambda>t. Phi_pos_elem (sqrt 2 * t)) ys"
  define T1 where "T1 = map (\<lambda>i. if me ! i then ?N y_th ! i else replicate (length y_th) 0 ! i) [0..<length me]"
  define R1 where "R1 = map (\<lambda>i. if me ! i then ?N y_r ! i else replicate (length y_r) 0 ! i) [0..<length me]"
  define T2 where "T2 = map (\<lambda>i. if mi ! i then ?P y_th ! i else T1 ! i) [0..<length mi]"
  define R2 where "R2 = map (\<lambda>i. if mi ! i then ?P y_r ! i else R1 ! i) [0..<length mi]"
  define T3 where "T3 = map (\<lambda>i. if mm ! i then ?P y_th ! i else T2 ! i) [0..<length mm]"
  define R3 where "R3 = map (\<lambda>i. if mm ! i then ?N y_r ! i else R2 ! i) [0..<length mm]"
  let ?Q4 = "map2 (\<lambda>p (t, r). p * exp (- (t\<^sup>2) + r\<^sup>2)) R3 (zip y_th y_r)"
  define R4 where "R4 = map (\<lambda>i. if mi ! i then ?Q4 ! i else R3 ! i) [0..<length mi]"
  let ?Q5 = "map2 (\<lambda>p t. p * exp (- (t\<^sup>2))) R4 y_th"
  define R5 where "R5 = map (\<lambda>i. if mm ! i then ?Q5 ! i else R4 ! i) [0..<length mm]"
  have lT: "length T1 = n" "length R1 = n" "length T2 = n" "length R2 = n" "length T3 = n"
    "length R3 = n" "length R4 = n" "length R5 = n"
    by (simp_all add: T1_def R1_def T2_def R2_def T3_def R3_def R4_def R5_def lm)
  have a1: "assign_masked (replicate (length y_th) 0) me (select me (?N y_th)) = Inr T1"
    unfolding T1_def by (rule assign_select) (simp_all add: lm len)
  have a2: "assign_masked (replicate (length y_r) 0) me (select me (?N y_r)) = Inr R1"
    unfolding R1_def by (rule assign_select) (simp_all add: lm len)
  have a3: "assign_masked T1 mi (select mi (?P y_th)) = Inr T2"
    unfolding T2_def by (rule assign_select) (simp_all add: lm len lT)
  have a4: "assign_masked R1 mi (select mi (?P y_r)) = Inr R2"
    unfolding R2_def by (rule assign_select) (simp_all add: lm len lT)
  have a5: "assign_masked T2 mm (select mm (?P y_th)) = Inr T3"
    unfolding T3_def by (rule assign_select) (simp_all add: lm len lT)
  have a6: "assign_masked R2 mm (select mm (?N y_r)) = Inr R3"
    unfolding R3_def by (rule assign_select) (simp_all add: lm len lT)
  have q4: "map2 (\<lambda>p (t, r). p * exp (- (t\<^sup>2) + r\<^sup>2)) (select mi R3)
                   (zip (select mi y_th) (select mi y_r)) = select mi ?Q4"
    by (simp add: select_map select_zip)
  have a7: "assign_masked R3 mi (select mi ?Q4) = Inr R4"
    unfolding R4_def by (rule assign_select) (simp_all add: lm len lT)
  have q5: "map2 (\<lambda>p t. p * exp (- (t\<^sup>2))) (select mm R4) (select mm y_th) = select mm ?Q5"
    by (simp add: select_map select_zip)
  have a8: "assign_masked R4 mm (select mm ?Q5) = Inr R5"
    unfolding R5_def by (rule assign_select) (simp_all add: lm len lT)
  have fT: "T3 = map (\<lambda>i. case hd (branch_tags (y_th ! i) (y_r ! i)) of
                     Exc \<Rightarrow> Phi_neg_elem (sqrt 2 * y_th ! i)
                   | Inh \<Rightarrow> Phi_pos_elem (sqrt 2 * y_th ! i)
                   | Interm \<Rightarrow> Phi_pos_elem (sqrt 2 * y_th ! i)) [0..<n]"
  proof (rule nth_equalityI)
    fix i assume "i < length T3"
    then have i: "i < n" by (simp add: lT)
    have o: "\<not> (y_th ! i < 0 \<and> 0 < y_r ! i)" using ord i by simp
    show "T3 ! i = map (\<lambda>i. case hd (branch_tags (y_th ! i) (y_r ! i)) of
                     Exc \<Rightarrow> Phi_neg_elem (sqrt 2 * y_th ! i)
                   | Inh \<Rightarrow> Phi_pos_elem (sqrt 2 * y_th ! i)
                   | Interm \<Rightarrow> Phi_pos_elem (sqrt 2 * y_th ! i)) [0..<n] ! i"
      using i o
      by (simp add: T3_def T2_def T1_def lm len me_def mi_def mm_def branch_tags_ordered)
  qed (simp add: lT)
  have fR: "R5 = map (\<lambda>i. case hd (branch_tags (y_th ! i) (y_r ! i)) of
                     Exc \<Rightarrow> Phi_neg_elem (sqrt 2 * y_r ! i)
                   | Inh \<Rightarrow> Phi_pos_elem (sqrt 2 * y_r ! i) * exp (- ((y_th ! i)\<^sup>2) + (y_r ! i)\<^sup>2)
                   | Interm \<Rightarrow> Phi_neg_elem (sqrt 2 * y_r ! i) * exp (- ((y_th ! i)\<^sup>2))) [0..<n]"
  proof (rule nth_equalityI)
    fix i assume "i < length R5"
    then have i: "i < n" by (simp add: lT)
    have o: "\<not> (y_th ! i < 0 \<and> 0 < y_r ! i)" using ord i by simp
    have r3: "R3 ! i = (if y_r ! i \<le> 0 \<and> 0 \<le> y_th ! i then Phi_neg_elem (sqrt 2 * y_r ! i)
                      else if 0 < y_r ! i then Phi_pos_elem (sqrt 2 * y_r ! i)
                      else Phi_neg_elem (sqrt 2 * y_r ! i))"
      using i o by (simp add: R3_def R2_def R1_def lm len me_def mi_def mm_def)
    have r4: "R4 ! i = (if 0 < y_r ! i then R3 ! i * exp (- ((y_th ! i)\<^sup>2) + (y_r ! i)\<^sup>2) else R3 ! i)"
      using i by (simp add: R4_def lm len lT mi_def)
    have r5: "R5 ! i = (if y_r ! i \<le> 0 \<and> 0 \<le> y_th ! i then R4 ! i * exp (- ((y_th ! i)\<^sup>2)) else R4 ! i)"
      using i by (simp add: R5_def lm len lT mm_def)
    show "R5 ! i = map (\<lambda>i. case hd (branch_tags (y_th ! i) (y_r ! i)) of
                     Exc \<Rightarrow> Phi_neg_elem (sqrt 2 * y_r ! i)
                   | Inh \<Rightarrow> Phi_pos_elem (sqrt 2 * y_r ! i) * exp (- ((y_th ! i)\<^sup>2) + (y_r ! i)\<^sup>2)
                   | Interm \<Rightarrow> Phi_neg_elem (sqrt 2 * y_r ! i) * exp (- ((y_th ! i)\<^sup>2))) [0..<n] ! i"
      using i o by (simp add: r5 r4 r3 branch_tags_ordered)
  qed (simp add: lT)
  show ?thesis
    by (simp only: p1 a1 p2 a2 p3 a3 p4 a4 p5 a5 p6 a6 q4 a7 q5 a8 bind_err_simps fT fR)
qed

text \<open>
  Masked assignment of an arbitrary array of values: element \<open>i\<close> of a mask gets the value at
  its place among the selected elements.
\<close>

lemma masked_index_Cons:
  "masked_index (m # ms) 0 = 0"
  "masked_index (m # ms) (Suc i) = (if m then Suc (masked_index ms i) else masked_index ms i)"
  by (simp_all add: masked_index_def)

lemma assign_items_nth:
  "length nu = length ms \<Longrightarrow> length vs = length (filter id ms) \<Longrightarrow>
   assign_items nu ms vs
     = Inr (map (\<lambda>i. if ms ! i then vs ! masked_index ms i else nu ! i) [0..<length ms])"
proof (induction nu ms arbitrary: vs rule: list_induct2)
  case Nil
  then show ?case by simp
next
  case (Cons n nu m ms)
  show ?case
  proof (cases m)
    case True
    then obtain v vs' where vs: "vs = v # vs'" using Cons.prems by (cases vs) auto
    have l: "length vs' = length (filter id ms)" using Cons.prems True vs by (simp add: id_def)
    have shift: "map (\<lambda>i. if (m # ms) ! i then vs ! masked_index (m # ms) i else (n # nu) ! i)
                   [0..<length (m # ms)]
       = v # map (\<lambda>i. if ms ! i then vs' ! masked_index ms i else nu ! i) [0..<length ms]"
      using True vs
      by (simp add: upt_conv_Cons map_Suc_upt[symmetric] masked_index_Cons del: upt_Suc)
    show ?thesis
      unfolding shift using Cons.IH[OF l] True vs by (simp add: bind_err_simps)
  next
    case False
    have l: "length vs = length (filter id ms)" using Cons.prems False by (simp add: id_def)
    have shift: "map (\<lambda>i. if (m # ms) ! i then vs ! masked_index (m # ms) i else (n # nu) ! i)
                   [0..<length (m # ms)]
       = n # map (\<lambda>i. if ms ! i then vs ! masked_index ms i else nu ! i) [0..<length ms]"
      using False
      by (simp add: upt_conv_Cons map_Suc_upt[symmetric] masked_index_Cons del: upt_Suc)
    show ?thesis
      unfolding shift using Cons.IH[OF l] False by (simp add: bind_err_simps)
  qed
qed

lemma broadcast_value:
  assumes "length vs = k \<or> length vs = 1"
  shows "(if length vs = 1 then replicate k (vs ! 0) else vs) = bcast k vs"
    and "length (bcast k vs) = k"
proof -
  show "(if length vs = 1 then replicate k (vs ! 0) else vs) = bcast k vs"
  proof (cases "length vs = 1")
    case True
    then obtain v where v: "vs = [v]" by (cases vs) auto
    show ?thesis unfolding v by (auto simp: bcast_def)
  next
    case False
    then show ?thesis using assms by (simp add: bcast_def)
  qed
  show "length (bcast k vs) = k" using assms by (auto simp: bcast_def)
qed

lemma assign_masked_nth:
  assumes "length nu = length ms" and "length vs = length (filter id ms) \<or> length vs = 1"
  shows "assign_masked nu ms vs
     = Inr (map (\<lambda>i. if ms ! i then masked_value ms vs i else nu ! i) [0..<length ms])"
  unfolding assign_masked_def broadcast_value(1)[OF assms(2)] masked_value_def
  by (rule assign_items_nth[OF assms(1) broadcast_value(2)[OF assms(2)]])

lemma branch_values_masked:
  fixes y_th y_r ve vi vm :: "real list"
  assumes len: "length y_th = n" "length y_r = n"
    and ord: "\<forall>i<n. \<not> (y_th ! i < 0 \<and> 0 < y_r ! i)"
    and lv: "length ve = length (filter id (mask_exc y_th)) \<or> length ve = 1"
      "length vi = length (filter id (mask_inh y_r)) \<or> length vi = 1"
      "length vm = length (filter id (mask_interm y_th y_r)) \<or> length vm = 1"
  shows
    "bind_err (assign_masked (replicate (length y_th) 0) (map (\<lambda>t. t < 0) y_th) ve) (\<lambda>nu.
     bind_err (assign_masked nu (map (\<lambda>r. 0 < r) y_r) vi) (\<lambda>nu.
     bind_err (assign_masked nu (map2 (\<lambda>r t. r \<le> 0 \<and> 0 \<le> t) y_r y_th) vm) (\<lambda>nu. k nu)))
     = k (map (\<lambda>i. branch_value y_th y_r ve vi vm i (hd (branch_tags (y_th ! i) (y_r ! i)))) [0..<n])"
proof -
  let ?me = "mask_exc y_th" and ?mi = "mask_inh y_r" and ?mm = "mask_interm y_th y_r"
  have lm: "length ?me = n" "length ?mi = n" "length ?mm = n"
    by (simp_all add: mask_exc_def mask_inh_def mask_interm_def len)
  define nu1 where "nu1 = map (\<lambda>i. if ?me ! i then masked_value ?me ve i
                                   else replicate (length y_th) (0::real) ! i) [0..<length ?me]"
  define nu2 where "nu2 = map (\<lambda>i. if ?mi ! i then masked_value ?mi vi i else nu1 ! i) [0..<length ?mi]"
  define nu3 where "nu3 = map (\<lambda>i. if ?mm ! i then masked_value ?mm vm i else nu2 ! i) [0..<length ?mm]"
  have a1: "assign_masked (replicate (length y_th) 0) ?me ve = Inr nu1"
    unfolding nu1_def by (rule assign_masked_nth[OF _ lv(1)]) (simp add: lm len)
  have l1: "length nu1 = n" by (simp add: nu1_def lm)
  have a2: "assign_masked nu1 ?mi vi = Inr nu2"
    unfolding nu2_def by (rule assign_masked_nth[OF _ lv(2)]) (simp add: lm l1)
  have l2: "length nu2 = n" by (simp add: nu2_def lm)
  have a3: "assign_masked nu2 ?mm vm = Inr nu3"
    unfolding nu3_def by (rule assign_masked_nth[OF _ lv(3)]) (simp add: lm l2)
  have final: "nu3 = map (\<lambda>i. branch_value y_th y_r ve vi vm i (hd (branch_tags (y_th ! i) (y_r ! i)))) [0..<n]"
  proof (rule nth_equalityI)
    show "length nu3 = length (map (\<lambda>i. branch_value y_th y_r ve vi vm i
                                  (hd (branch_tags (y_th ! i) (y_r ! i)))) [0..<n])"
      by (simp add: nu3_def lm)
  next
    fix i assume "i < length nu3"
    then have i: "i < n" by (simp add: nu3_def lm)
    have o: "\<not> (y_th ! i < 0 \<and> 0 < y_r ! i)" using ord i by simp
    have me: "?me ! i = (y_th ! i < 0)" using i len by (simp add: mask_exc_def)
    have mi: "?mi ! i = (0 < y_r ! i)" using i len by (simp add: mask_inh_def)
    have mm: "?mm ! i = (y_r ! i \<le> 0 \<and> 0 \<le> y_th ! i)" using i len by (simp add: mask_interm_def)
    have "nu3 ! i = (if ?mm ! i then masked_value ?mm vm i
                     else if ?mi ! i then masked_value ?mi vi i
                     else if ?me ! i then masked_value ?me ve i else 0)"
      using i by (simp add: nu3_def nu2_def nu1_def lm len)
    also have "\<dots> = branch_value y_th y_r ve vi vm i (hd (branch_tags (y_th ! i) (y_r ! i)))"
      unfolding me mi mm branch_tags_ordered[OF o] using o
      by (simp add: branch_value_def)
    finally show "nu3 ! i = map (\<lambda>i. branch_value y_th y_r ve vi vm i
                                  (hd (branch_tags (y_th ! i) (y_r ! i)))) [0..<n] ! i"
      using i by simp
  qed
  show ?thesis
    unfolding mask_exc_def[symmetric] mask_inh_def[symmetric] mask_interm_def[symmetric]
    by (simp only: a1 a2 a3 bind_err_simps final)
qed

text \<open>\<^verbatim>\<open>_nu0_dPhi\<close>, element by element, for the arrays that the branch functions return.\<close>

lemma nu0_dPhi_by_helpers:
  fixes V_0_rel V_th_rel mu sigma tau_m tau_r ve vi vm :: "real list"
  assumes lens: "\<forall>a \<in> set [V_0_rel, V_th_rel, mu, sigma, tau_m, tau_r]. length a = n \<or> length a = 1"
    "\<exists>a \<in> set [V_0_rel, V_th_rel, mu, sigma, tau_m, tau_r]. length a = n" "1 \<le> n"
  defines "y_th \<equiv> map (\<lambda>i. (bcast n V_th_rel ! i - bcast n mu ! i) / bcast n sigma ! i) [0..<n]"
    and "y_r \<equiv> map (\<lambda>i. (bcast n V_0_rel ! i - bcast n mu ! i) / bcast n sigma ! i) [0..<n]"
  assumes ord: "\<forall>i<n. \<not> (y_th ! i < 0 \<and> 0 < y_r ! i)"
    and go: "delta_order y_th y_r 10 (1 / 10 ^ 12) 10 = Inr g"
    and he: "delta_exc (select (mask_exc y_th) y_th) (select (mask_exc y_th) y_r)
               (select (mask_exc y_th) (bcast n tau_m)) (select (mask_exc y_th) (bcast n tau_r)) g = Inr ve"
    and hi: "delta_inh (select (mask_inh y_r) y_th) (select (mask_inh y_r) y_r)
               (select (mask_inh y_r) (bcast n tau_m)) (select (mask_inh y_r) (bcast n tau_r)) g = Inr vi"
    and hm: "delta_interm (select (mask_interm y_th y_r) y_th) (select (mask_interm y_th y_r) y_r)
               (select (mask_interm y_th y_r) (bcast n tau_m))
               (select (mask_interm y_th y_r) (bcast n tau_r)) g = Inr vm"
    and lv: "length ve = length (filter id (mask_exc y_th)) \<or> length ve = 1"
      "length vi = length (filter id (mask_inh y_r)) \<or> length vi = 1"
      "length vm = length (filter id (mask_interm y_th y_r)) \<or> length vm = 1"
  shows "nu0_dPhi delta_order delta_exc delta_inh delta_interm V_0_rel V_th_rel mu sigma tau_m tau_r =
       Inr (item_or_array
              (map (\<lambda>i. branch_value y_th y_r ve vi vm i (hd (branch_tags (y_th ! i) (y_r ! i)))
                        * branch_dPhi (y_th ! i) (y_r ! i) (hd (branch_tags (y_th ! i) (y_r ! i))))
                 [0..<n]))"
proof -
  let ?args = "[V_0_rel, V_th_rel, mu, sigma, tau_m, tau_r]"
  let ?val = "\<lambda>i. branch_value y_th y_r ve vi vm i (hd (branch_tags (y_th ! i) (y_r ! i)))"
  have eq: "equalize_shape ?args = Inr (map (bcast n) ?args)"
    by (rule equalize_shape_bcast[OF lens])
  have nth: "map (bcast n) ?args ! 0 = bcast n V_0_rel" "map (bcast n) ?args ! 1 = bcast n V_th_rel"
    "map (bcast n) ?args ! 2 = bcast n mu" "map (bcast n) ?args ! 3 = bcast n sigma"
    "map (bcast n) ?args ! 4 = bcast n tau_m" "map (bcast n) ?args ! 5 = bcast n tau_r"
    by simp_all
  have lb: "length (bcast n mu) = n" "length (bcast n tau_m) = n" "length (bcast n tau_r) = n"
    using lens(1) by (simp_all add: length_bcast)
  have len: "length y_th = n" "length y_r = n" by (simp_all add: y_th_def y_r_def)
  have he': "delta_exc (select (map (\<lambda>t. t < 0) y_th) y_th) (select (map (\<lambda>t. t < 0) y_th) y_r)
               (select (map (\<lambda>t. t < 0) y_th) (bcast n tau_m))
               (select (map (\<lambda>t. t < 0) y_th) (bcast n tau_r)) g = Inr ve"
    using he by (simp only: mask_exc_def)
  have hi': "delta_inh (select (map (\<lambda>r. 0 < r) y_r) y_th) (select (map (\<lambda>r. 0 < r) y_r) y_r)
               (select (map (\<lambda>r. 0 < r) y_r) (bcast n tau_m))
               (select (map (\<lambda>r. 0 < r) y_r) (bcast n tau_r)) g = Inr vi"
    using hi by (simp only: mask_inh_def)
  have hm': "delta_interm (select (map2 (\<lambda>r t. r \<le> 0 \<and> 0 \<le> t) y_r y_th) y_th)
               (select (map2 (\<lambda>r t. r \<le> 0 \<and> 0 \<le> t) y_r y_th) y_r)
               (select (map2 (\<lambda>r t. r \<le> 0 \<and> 0 \<le> t) y_r y_th) (bcast n tau_m))
               (select (map2 (\<lambda>r t. r \<le> 0 \<and> 0 \<le> t) y_r y_th) (bcast n tau_r)) g = Inr vm"
    using hm by (simp only: mask_interm_def)
  have fin: "(let nu_dPhi = map (\<lambda>i.
        map ?val [0..<n] ! i
        * (map (\<lambda>i. case hd (branch_tags (y_th ! i) (y_r ! i)) of
                     Exc \<Rightarrow> Phi_neg_elem (sqrt 2 * y_th ! i)
                   | Inh \<Rightarrow> Phi_pos_elem (sqrt 2 * y_th ! i)
                   | Interm \<Rightarrow> Phi_pos_elem (sqrt 2 * y_th ! i)) [0..<n] ! i
          - map (\<lambda>i. case hd (branch_tags (y_th ! i) (y_r ! i)) of
                     Exc \<Rightarrow> Phi_neg_elem (sqrt 2 * y_r ! i)
                   | Inh \<Rightarrow> Phi_pos_elem (sqrt 2 * y_r ! i) * exp (- ((y_th ! i)\<^sup>2) + (y_r ! i)\<^sup>2)
                   | Interm \<Rightarrow> Phi_neg_elem (sqrt 2 * y_r ! i) * exp (- ((y_th ! i)\<^sup>2))) [0..<n] ! i))
        [0..<length (map ?val [0..<n])]
      in Inr (if length nu_dPhi = 1 then Scalar (nu_dPhi ! 0) else Array nu_dPhi))
    = Inr (item_or_array
              (map (\<lambda>i. ?val i * branch_dPhi (y_th ! i) (y_r ! i) (hd (branch_tags (y_th ! i) (y_r ! i))))
                 [0..<n]))"
  proof -
    have "map (\<lambda>i.
        map ?val [0..<n] ! i
        * (map (\<lambda>i. case hd (branch_tags (y_th ! i) (y_r ! i)) of
                     Exc \<Rightarrow> Phi_neg_elem (sqrt 2 * y_th ! i)
                   | Inh \<Rightarrow> Phi_pos_elem (sqrt 2 * y_th ! i)
                   | Interm \<Rightarrow> Phi_pos_elem (sqrt 2 * y_th ! i)) [0..<n] ! i
          - map (\<lambda>i. case hd (branch_tags (y_th ! i) (y_r ! i)) of
                     Exc \<Rightarrow> Phi_neg_elem (sqrt 2 * y_r ! i)
                   | Inh \<Rightarrow> Phi_pos_elem (sqrt 2 * y_r ! i) * exp (- ((y_th ! i)\<^sup>2) + (y_r ! i)\<^sup>2)
                   | Interm \<Rightarrow> Phi_neg_elem (sqrt 2 * y_r ! i) * exp (- ((y_th ! i)\<^sup>2))) [0..<n] ! i))
        [0..<length (map ?val [0..<n])]
      = map (\<lambda>i. ?val i * branch_dPhi (y_th ! i) (y_r ! i) (hd (branch_tags (y_th ! i) (y_r ! i))))
                 [0..<n]"
      by (rule nth_equalityI) (simp_all add: branch_dPhi_def split: branch.splits)
    then show ?thesis by (simp only: Let_def item_or_array_def)
  qed
  show ?thesis
    unfolding nu0_dPhi_def
    apply (simp only: eq bind_err_simps Let_def nth lb y_th_def[symmetric] y_r_def[symmetric]
        go he' hi' hm')
    apply (subst branch_values_masked[OF len ord lv])
    apply (subst phi_masked[OF len ord])
    apply (rule fin[unfolded Let_def])
    done
qed

section \<open>The error function\<close>

lemma gauss_term_summable:
  "summable (\<lambda>n. c ^ n * x ^ (2 * n + 1) / (fact n * (2 * real n + 1)))" if "\<bar>c\<bar> = 1" for c x :: real
proof (rule summable_comparison_test')
  show "summable (\<lambda>n. \<bar>x\<bar> * ((x\<^sup>2) ^ n /\<^sub>R fact n))"
    by (intro summable_mult summable_exp_generic)
  fix n :: nat
  have "norm (c ^ n * x ^ (2 * n + 1) / (fact n * (2 * real n + 1)))
      = \<bar>x\<bar> ^ (2 * n + 1) / (fact n * (2 * real n + 1))"
    using that by (simp add: abs_mult power_abs)
  also have "\<dots> \<le> \<bar>x\<bar> ^ (2 * n + 1) / (fact n * 1)"
    by (intro divide_left_mono mult_left_mono) simp_all
  also have "\<dots> = \<bar>x\<bar> * ((x\<^sup>2) ^ n /\<^sub>R fact n)"
  proof -
    have "\<bar>x\<bar> ^ (2 * n) = (x\<^sup>2) ^ n" by (simp add: power_mult)
    then have "\<bar>x\<bar> ^ (2 * n + 1) = \<bar>x\<bar> * (x\<^sup>2) ^ n" by simp
    then show ?thesis by (simp add: divide_inverse)
  qed
  finally show "norm (c ^ n * x ^ (2 * n + 1) / (fact n * (2 * real n + 1)))
      \<le> \<bar>x\<bar> * ((x\<^sup>2) ^ n /\<^sub>R fact n)" .
qed

lemma gauss_int_minus: "gauss_int (- x) = - gauss_int x"
proof -
  have "(\<Sum>n. (- 1) ^ n * (- x) ^ (2 * n + 1) / (fact n * (2 * real n + 1)))
      = (\<Sum>n. - ((- 1) ^ n * x ^ (2 * n + 1) / (fact n * (2 * real n + 1))))"
    by (rule arg_cong[where f = suminf]) (simp add: fun_eq_iff)
  also have "\<dots> = - (\<Sum>n. (- 1) ^ n * x ^ (2 * n + 1) / (fact n * (2 * real n + 1)))"
    by (rule suminf_minus) (rule gauss_term_summable, simp)
  finally show ?thesis by (simp add: gauss_int_def)
qed

lemma erf_minus: "erf (- x) = - erf x"
  by (simp add: erf_def gauss_int_minus)

section \<open>The quadrature-order search\<close>

lemma gl_order_loop_found:
  "k < n \<Longrightarrow> below (rel_error (g (order * 2 ^ k)) Iq) eps \<Longrightarrow>
   (\<forall>j<k. \<not> below (rel_error (g (order * 2 ^ j)) Iq) eps) \<Longrightarrow>
   gl_order_loop (\<lambda>d. Inr (g d)) Iq eps m n order prev = Inr (order * 2 ^ k)"
proof (induction n arbitrary: order k prev)
  case 0
  then show ?case by simp
next
  case (Suc n)
  show ?case
  proof (cases k)
    case 0
    with Suc.prems show ?thesis by (simp add: bind_err_simps)
  next
    case (Suc k')
    have first: "\<not> below (rel_error (g order) Iq) eps"
      using Suc.prems(3) Suc by (metis mult.right_neutral power_0 zero_less_Suc)
    have later: "\<forall>j<k'. \<not> below (rel_error (g (order * 2 * 2 ^ j)) Iq) eps"
    proof (intro allI impI)
      fix j assume "j < k'"
      then have "Suc j < k" using Suc by simp
      from Suc.prems(3)[rule_format, OF this] show "\<not> below (rel_error (g (order * 2 * 2 ^ j)) Iq) eps"
        by (simp add: mult.assoc)
    qed
    have "gl_order_loop (\<lambda>d. Inr (g d)) Iq eps m n (order * 2) (Some (rel_error (g order) Iq))
          = Inr (order * 2 * 2 ^ k')"
      using Suc.IH[of k' "order * 2"] Suc.prems Suc later by (simp add: mult.assoc)
    then show ?thesis using first Suc by (simp add: bind_err_simps mult.assoc)
  qed
qed

lemma gl_order_loop_exhausted:
  "(\<forall>j<n. \<not> below (rel_error (g (order * 2 ^ j)) Iq) eps) \<Longrightarrow> 0 < n \<Longrightarrow>
   gl_order_loop (\<lambda>d. Inr (g d)) Iq eps m n order prev
     = Inl (ConvergenceError m (rel_error (g (order * 2 ^ (n - 1))) Iq))"
proof (induction n arbitrary: order prev)
  case 0
  then show ?case by simp
next
  case (Suc n)
  have first: "\<not> below (rel_error (g order) Iq) eps"
    using Suc.prems(1) by (metis mult.right_neutral power_0 zero_less_Suc)
  show ?case
  proof (cases n)
    case 0
    then show ?thesis using first by (simp add: bind_err_simps)
  next
    case (Suc n')
    have later: "\<forall>j<n. \<not> below (rel_error (g (order * 2 * 2 ^ j)) Iq) eps"
    proof (intro allI impI)
      fix j assume "j < n"
      then have "Suc j < Suc n" by simp
      from Suc.prems(1)[rule_format, OF this] show "\<not> below (rel_error (g (order * 2 * 2 ^ j)) Iq) eps"
        by (simp add: mult.assoc)
    qed
    have "gl_order_loop (\<lambda>d. Inr (g d)) Iq eps m n (order * 2) (Some (rel_error (g order) Iq))
          = Inl (ConvergenceError m (rel_error (g (order * 2 * 2 ^ (n - 1))) Iq))"
      using Suc.IH[OF later] Suc by simp
    then show ?thesis using first Suc by (simp add: bind_err_simps mult.assoc)
  qed
qed

lemma fold_min_Min: "fold min xs (x::real) = Min (insert x (set xs))"
  by (metis Min.set_eq_fold list.simps(15))

lemma fold_max_Max: "fold max xs (x::real) = Max (insert x (set xs))"
  by (metis Max.set_eq_fold list.simps(15))

lemma amin_nonempty: "xs \<noteq> [] \<Longrightarrow> amin xs = Inr (Min (set xs))"
  by (cases xs) (simp_all add: amin_def fold_min_Min)

lemma amax_nonempty: "xs \<noteq> [] \<Longrightarrow> amax xs = Inr (Max (set xs))"
  by (cases xs) (simp_all add: amax_def fold_max_Max)

lemma erfcx_integral_scalar:
  "0 \<le> a \<Longrightarrow> 0 \<le> b \<Longrightarrow> erfcx_integral rl [a] [b] order = Inr [erfcx_integral1 rl a b order]"
  by (simp add: erfcx_integral_def bind_err_simps bcast_def)

lemma range_bounds:
  assumes "y_th \<noteq> []" "y_r \<noteq> []"
  shows "min (Min (set (map abs y_th))) (Min (set (map abs y_r))) = Min (abs ` (set y_th \<union> set y_r))"
    and "max (Max (set (map abs y_th))) (Max (set (map abs y_r))) = Max (abs ` (set y_th \<union> set y_r))"
    and "0 \<le> Min (abs ` (set y_th \<union> set y_r :: real set))"
    and "0 \<le> Max (abs ` (set y_th \<union> set y_r :: real set))"
proof -
  have fin: "finite (abs ` set y_th)" "finite (abs ` set y_r)" by simp_all
  have ne: "abs ` set y_th \<noteq> {}" "abs ` set y_r \<noteq> {}" using assms by simp_all
  show "min (Min (set (map abs y_th))) (Min (set (map abs y_r))) = Min (abs ` (set y_th \<union> set y_r))"
    using Min_Un[OF fin(1) ne(1) fin(2) ne(2)] by (simp add: image_Un)
  show "max (Max (set (map abs y_th))) (Max (set (map abs y_r))) = Max (abs ` (set y_th \<union> set y_r))"
    using Max_Un[OF fin(1) ne(1) fin(2) ne(2)] by (simp add: image_Un)
  have ne': "abs ` (set y_th \<union> set y_r) \<noteq> {}" using assms by simp
  show "0 \<le> Min (abs ` (set y_th \<union> set y_r :: real set))"
    using ne' by (subst Min_ge_iff) auto
  have "Min (abs ` (set y_th \<union> set y_r)) \<le> Max (abs ` (set y_th \<union> set y_r))"
    using ne' by (intro Min_in Max_ge) auto
  with \<open>0 \<le> Min _\<close> show "0 \<le> Max (abs ` (set y_th \<union> set y_r :: real set))" by linarith
qed

lemma get_order_unfold:
  assumes "y_th \<noteq> []" "y_r \<noteq> []"
  shows "get_erfcx_integral_gl_order rl quad y_th y_r start eps maxiter =
     gl_order_loop (\<lambda>d. Inr (erfcx_integral1 rl (Min (abs ` (set y_th \<union> set y_r))) (Max (abs ` (set y_th \<union> set y_r))) d))
       (quad erfcx (Min (abs ` (set y_th \<union> set y_r))) (Max (abs ` (set y_th \<union> set y_r))) eps)
       eps maxiter maxiter start None"
proof -
  have m: "map abs y_th \<noteq> []" "map abs y_r \<noteq> []" using assms by simp_all
  show ?thesis
    unfolding get_erfcx_integral_gl_order_def
    by (simp only: amin_nonempty[OF m(1)] amin_nonempty[OF m(2)] amax_nonempty[OF m(1)]
        amax_nonempty[OF m(2)] bind_err_simps Let_def range_bounds(1,2)[OF assms]
        erfcx_integral_scalar[OF range_bounds(3,4)[OF assms]] nth_Cons_0)
qed

lemma order_search_example:
  "get_erfcx_integral_gl_order (\<lambda>n. ([- 1], [2])) (\<lambda>f a b e. 1) [1] [0] 10 (1 / 10 ^ 12) 10 = Inr 10"
proof -
  have r: "Min (abs ` (set [1::real] \<union> set [0])) = 0" "Max (abs ` (set [1::real] \<union> set [0])) = 1"
    by simp_all
  have ten: "(10::nat) = Suc 9" by simp
  show ?thesis
    unfolding get_order_unfold[of "[1]" "[0]", simplified] r
    by (subst ten, subst gl_order_loop.simps)
       (simp add: bind_err_simps erfcx_integral1_def erfcx_0 rel_error_def below_def)
qed

text \<open>
  Claim C3. With the parameters of \<^verbatim>\<open>nu_0\<close> (start order 10, tolerance \<open>10\<^sup>-\<^sup>1\<^sup>2\<close>, 10
  iterations) the search tries the orders \<open>10 * 2 ^ k\<close> for \<open>k < 10\<close> on the range
  \<open>[a, b]\<close> of the absolute coordinates. It returns the first tried order whose
  Gauss--Legendre estimate is within the relative tolerance of the reference estimate of
  \<^verbatim>\<open>quad\<close>; if none of the ten orders is, it raises the convergence error that carries
  the relative error of the last tried order, \<open>10 * 2 ^ 9\<close>.
\<close>

theorem gl_order_search:
  fixes roots_legendre :: gl_table and quad :: quad_fn
  assumes "y_th \<noteq> []" "y_r \<noteq> []"
  defines "a \<equiv> Min (abs ` (set y_th \<union> set y_r))"
    and "b \<equiv> Max (abs ` (set y_th \<union> set y_r))"
  defines "e \<equiv> \<lambda>k. rel_error (erfcx_integral1 roots_legendre a b (10 * 2 ^ k)) (quad erfcx a b (1 / 10 ^ 12))"
  defines "res \<equiv> get_erfcx_integral_gl_order roots_legendre quad y_th y_r 10 (1 / 10 ^ 12) 10"
  shows "(\<forall>k<10. below (e k) (1 / 10 ^ 12) \<and> (\<forall>j<k. \<not> below (e j) (1 / 10 ^ 12)) \<longrightarrow> res = Inr (10 * 2 ^ k))
       \<and> ((\<forall>k<10. \<not> below (e k) (1 / 10 ^ 12)) \<longrightarrow> res = Inl (ConvergenceError 10 (e 9)))"
proof (intro conjI allI impI)
  fix k :: nat assume k: "k < 10" and ok: "below (e k) (1 / 10 ^ 12) \<and> (\<forall>j<k. \<not> below (e j) (1 / 10 ^ 12))"
  show "res = Inr (10 * 2 ^ k)"
    unfolding res_def get_order_unfold[OF assms(1,2)]
    using gl_order_loop_found[of k 10 "erfcx_integral1 roots_legendre a b" 10 _ "1 / 10 ^ 12"] k ok
    unfolding e_def a_def b_def by blast
next
  assume no: "\<forall>k<10. \<not> below (e k) (1 / 10 ^ 12)"
  show "res = Inl (ConvergenceError 10 (e 9))"
    unfolding res_def get_order_unfold[OF assms(1,2)]
    using gl_order_loop_exhausted[of 10 "erfcx_integral1 roots_legendre a b" 10 _ "1 / 10 ^ 12"] no
    unfolding e_def a_def b_def by simp
qed

theorem gl_order_search_witness:
  "get_erfcx_integral_gl_order (\<lambda>n. ([- 1], [2])) (\<lambda>f a b e. 1) [1] [0] 10 (1 / 10 ^ 12) 10 = Inr 10
   \<and> get_erfcx_integral_gl_order (\<lambda>n. ([], [])) (\<lambda>f a b e. 1) [1] [0] 10 (1 / 10 ^ 12) 10
       = Inl (ConvergenceError 10 (Some 1))"
proof
  have r: "Min (abs ` (set [1::real] \<union> set [0])) = 0" "Max (abs ` (set [1::real] \<union> set [0])) = 1"
    by simp_all
  have "below (rel_error (erfcx_integral1 (\<lambda>n. ([- 1], [2])) 0 1 (10 * 2 ^ 0)) 1) (1 / 10 ^ 12)"
    by (simp add: erfcx_integral1_def erfcx_0 rel_error_def below_def)
  then show "get_erfcx_integral_gl_order (\<lambda>n. ([- 1], [2])) (\<lambda>f a b e. 1) [1] [0] 10 (1 / 10 ^ 12) 10 = Inr 10"
    using gl_order_search[of "[1]" "[0]" "\<lambda>n. ([- 1], [2])" "\<lambda>f a b e. 1", THEN conjunct1, rule_format, of 0]
    unfolding r by simp
  have "\<forall>k<10. \<not> below (rel_error (erfcx_integral1 (\<lambda>n. ([], [])) 0 1 (10 * 2 ^ k)) 1) (1 / 10 ^ 12)"
    by (simp add: erfcx_integral1_def rel_error_def below_def)
  moreover have "rel_error (erfcx_integral1 (\<lambda>n. ([], [])) 0 1 (10 * 2 ^ 9)) 1 = Some 1"
    by (simp add: erfcx_integral1_def rel_error_def)
  ultimately show "get_erfcx_integral_gl_order (\<lambda>n. ([], [])) (\<lambda>f a b e. 1) [1] [0] 10 (1 / 10 ^ 12) 10
       = Inl (ConvergenceError 10 (Some 1))"
    using gl_order_search[of "[1]" "[0]" "\<lambda>n. ([], [])" "\<lambda>f a b e. 1", THEN conjunct2]
    unfolding r by simp
qed

section \<open>Each element is computed by one branch\<close>

lemma common_len_pair:
  "common_len [length (mu :: real list), length (sigma :: real list)] = Inr n \<Longrightarrow>
   length (bcast n mu) = n \<and> length (bcast n sigma) = n"
  by (auto simp: bind_err_simps bcast_def split: if_splits)

lemma coords_scalar:
  assumes "common_len [length mu, length sigma] = Inr n"
  shows "map2 (\<lambda>m s. (V - m) / s) (bcast n mu) (bcast n sigma) = coords [V] mu sigma n"
  unfolding coords_def
  using common_len_pair[OF assms]
  by (intro nth_equalityI) (simp_all add: bcast_single)

lemma nu_0_by_coords:
  assumes cl: "common_len [length mu, length sigma] = Inr n"
    and one: "\<forall>i<n. \<not> (coords [V_th_rel] mu sigma n ! i < 0 \<and> 0 < coords [V_0_rel] mu sigma n ! i)"
  shows "nu_0 rl quad tau_m tau_r V_th_rel V_0_rel mu sigma =
     bind_err (get_erfcx_integral_gl_order rl quad (coords [V_th_rel] mu sigma n)
                 (coords [V_0_rel] mu sigma n) 10 (1 / 10 ^ 12) 10) (\<lambda>g.
       Inr (item_or_array
              (map (\<lambda>i. branch_rate rl g tau_m tau_r (coords [V_th_rel] mu sigma n ! i)
                             (coords [V_0_rel] mu sigma n ! i)
                             (hd (branch_tags (coords [V_th_rel] mu sigma n ! i)
                                    (coords [V_0_rel] mu sigma n ! i)))) [0..<n])))"
proof -
  have l: "length (coords [V_th_rel] mu sigma n) = n" "length (coords [V_0_rel] mu sigma n) = n"
    by (simp_all add: coords_def)
  have m: "map2 (\<lambda>t r. branch_rate rl g tau_m tau_r t r (hd (branch_tags t r)))
             (coords [V_th_rel] mu sigma n) (coords [V_0_rel] mu sigma n)
         = map (\<lambda>i. branch_rate rl g tau_m tau_r (coords [V_th_rel] mu sigma n ! i)
                             (coords [V_0_rel] mu sigma n ! i)
                             (hd (branch_tags (coords [V_th_rel] mu sigma n ! i)
                                    (coords [V_0_rel] mu sigma n ! i)))) [0..<n]" for g
    using map2_nth[of "coords [V_th_rel] mu sigma n" "coords [V_0_rel] mu sigma n"] l by simp
  show ?thesis
    using nu_0_by_branch[OF cl, where V_th_rel = V_th_rel and V_0_rel = V_0_rel and rl = rl
        and quad = quad and tau_m = tau_m and tau_r = tau_r] one
    unfolding coords_scalar[OF cl] l m by simp
qed

text \<open>
  Claim C2. An element with \<open>y_r < y_th\<close> satisfies exactly one of the three mask
  conditions (\<open>branch_tags\<close> lists the conditions that hold). For an input all of whose
  elements have \<open>y_r < y_th\<close>, \<^verbatim>\<open>nu_0\<close> gives, once the order search has returned, the
  array whose every element is the value that the element's one branch computes. For
  such an input \<^verbatim>\<open>_nu0_dPhi\<close> gives, once the order search and the three branch functions
  of \<^verbatim>\<open>lif/delta.py\<close> have returned (each branch function one value per element it was
  given, or a single value), the array whose every element is the value that the
  element's one branch function returned for it, times the difference of the rescaled
  helper of that branch. No element keeps the initial zero and none is overwritten by a
  second branch.
\<close>

theorem one_branch_per_element:
  "(\<forall>y_th y_r :: real. y_r < y_th \<longrightarrow> (\<exists>tag. branch_tags y_th y_r = [tag]))
   \<and> (\<forall>n. common_len [length mu, length sigma] = Inr n \<longrightarrow>
          (\<forall>i<n. coords [V_0_rel] mu sigma n ! i < coords [V_th_rel] mu sigma n ! i) \<longrightarrow>
          nu_0 rl quad tau_m tau_r V_th_rel V_0_rel mu sigma =
            bind_err (get_erfcx_integral_gl_order rl quad (coords [V_th_rel] mu sigma n)
                        (coords [V_0_rel] mu sigma n) 10 (1 / 10 ^ 12) 10) (\<lambda>g.
              Inr (item_or_array
                (map (\<lambda>i. branch_rate rl g tau_m tau_r (coords [V_th_rel] mu sigma n ! i)
                               (coords [V_0_rel] mu sigma n ! i)
                               (hd (branch_tags (coords [V_th_rel] mu sigma n ! i)
                                      (coords [V_0_rel] mu sigma n ! i)))) [0..<n]))))
   \<and> (\<forall>n g v_exc v_inh v_interm.
          (\<forall>a \<in> set [V_resets, V_thresholds, mus, sigmas, tau_ms, tau_rs]. length a = n \<or> length a = 1) \<longrightarrow>
          (\<exists>a \<in> set [V_resets, V_thresholds, mus, sigmas, tau_ms, tau_rs]. length a = n) \<longrightarrow> 1 \<le> n \<longrightarrow>
          (\<forall>i<n. coords V_resets mus sigmas n ! i < coords V_thresholds mus sigmas n ! i) \<longrightarrow>
          delta_order (coords V_thresholds mus sigmas n) (coords V_resets mus sigmas n)
            10 (1 / 10 ^ 12) 10 = Inr g \<longrightarrow>
          delta_exc (select (mask_exc (coords V_thresholds mus sigmas n)) (coords V_thresholds mus sigmas n))
            (select (mask_exc (coords V_thresholds mus sigmas n)) (coords V_resets mus sigmas n))
            (select (mask_exc (coords V_thresholds mus sigmas n)) (bcast n tau_ms))
            (select (mask_exc (coords V_thresholds mus sigmas n)) (bcast n tau_rs)) g = Inr v_exc \<longrightarrow>
          delta_inh (select (mask_inh (coords V_resets mus sigmas n)) (coords V_thresholds mus sigmas n))
            (select (mask_inh (coords V_resets mus sigmas n)) (coords V_resets mus sigmas n))
            (select (mask_inh (coords V_resets mus sigmas n)) (bcast n tau_ms))
            (select (mask_inh (coords V_resets mus sigmas n)) (bcast n tau_rs)) g = Inr v_inh \<longrightarrow>
          delta_interm
            (select (mask_interm (coords V_thresholds mus sigmas n) (coords V_resets mus sigmas n))
               (coords V_thresholds mus sigmas n))
            (select (mask_interm (coords V_thresholds mus sigmas n) (coords V_resets mus sigmas n))
               (coords V_resets mus sigmas n))
            (select (mask_interm (coords V_thresholds mus sigmas n) (coords V_resets mus sigmas n))
               (bcast n tau_ms))
            (select (mask_interm (coords V_thresholds mus sigmas n) (coords V_resets mus sigmas n))
               (bcast n tau_rs)) g = Inr v_interm \<longrightarrow>
          (length v_exc = length (filter id (mask_exc (coords V_thresholds mus sigmas n)))
             \<or> length v_exc = 1) \<longrightarrow>
          (length v_inh = length (filter id (mask_inh (coords V_resets mus sigmas n)))
             \<or> length v_inh = 1) \<longrightarrow>
          (length v_interm
             = length (filter id (mask_interm (coords V_thresholds mus sigmas n)
                                    (coords V_resets mus sigmas n)))
             \<or> length v_interm = 1) \<longrightarrow>
          nu0_dPhi delta_order delta_exc delta_inh delta_interm
              V_resets V_thresholds mus sigmas tau_ms tau_rs =
            Inr (item_or_array
                (map (\<lambda>i. branch_value (coords V_thresholds mus sigmas n) (coords V_resets mus sigmas n)
                               v_exc v_inh v_interm i
                               (hd (branch_tags (coords V_thresholds mus sigmas n ! i)
                                      (coords V_resets mus sigmas n ! i)))
                           * branch_dPhi (coords V_thresholds mus sigmas n ! i) (coords V_resets mus sigmas n ! i)
                               (hd (branch_tags (coords V_thresholds mus sigmas n ! i)
                                      (coords V_resets mus sigmas n ! i)))) [0..<n])))"
proof (intro conjI allI impI)
  fix y_th y_r :: real assume "y_r < y_th"
  then show "\<exists>tag. branch_tags y_th y_r = [tag]"
    by (simp add: branch_tags_ordered)
next
  fix n
  assume cl: "common_len [length mu, length sigma] = Inr n"
    and o: "\<forall>i<n. coords [V_0_rel] mu sigma n ! i < coords [V_th_rel] mu sigma n ! i"
  have one: "\<forall>i<n. \<not> (coords [V_th_rel] mu sigma n ! i < 0 \<and> 0 < coords [V_0_rel] mu sigma n ! i)"
    using o by fastforce
  show "nu_0 rl quad tau_m tau_r V_th_rel V_0_rel mu sigma =
            bind_err (get_erfcx_integral_gl_order rl quad (coords [V_th_rel] mu sigma n)
                        (coords [V_0_rel] mu sigma n) 10 (1 / 10 ^ 12) 10) (\<lambda>g.
              Inr (item_or_array
                (map (\<lambda>i. branch_rate rl g tau_m tau_r (coords [V_th_rel] mu sigma n ! i)
                               (coords [V_0_rel] mu sigma n ! i)
                               (hd (branch_tags (coords [V_th_rel] mu sigma n ! i)
                                      (coords [V_0_rel] mu sigma n ! i)))) [0..<n])))"
    by (rule nu_0_by_coords[OF cl one])
next
  fix n g and v_exc v_inh v_interm :: "real list"
  let ?yt = "coords V_thresholds mus sigmas n" and ?yr = "coords V_resets mus sigmas n"
  assume lens: "\<forall>a \<in> set [V_resets, V_thresholds, mus, sigmas, tau_ms, tau_rs]. length a = n \<or> length a = 1"
    "\<exists>a \<in> set [V_resets, V_thresholds, mus, sigmas, tau_ms, tau_rs]. length a = n" "1 \<le> n"
    and o: "\<forall>i<n. ?yr ! i < ?yt ! i"
    and go: "delta_order ?yt ?yr 10 (1 / 10 ^ 12) 10 = Inr g"
    and he: "delta_exc (select (mask_exc ?yt) ?yt) (select (mask_exc ?yt) ?yr)
               (select (mask_exc ?yt) (bcast n tau_ms)) (select (mask_exc ?yt) (bcast n tau_rs)) g
             = Inr v_exc"
    and hi: "delta_inh (select (mask_inh ?yr) ?yt) (select (mask_inh ?yr) ?yr)
               (select (mask_inh ?yr) (bcast n tau_ms)) (select (mask_inh ?yr) (bcast n tau_rs)) g
             = Inr v_inh"
    and hm: "delta_interm (select (mask_interm ?yt ?yr) ?yt) (select (mask_interm ?yt ?yr) ?yr)
               (select (mask_interm ?yt ?yr) (bcast n tau_ms))
               (select (mask_interm ?yt ?yr) (bcast n tau_rs)) g = Inr v_interm"
    and lv: "length v_exc = length (filter id (mask_exc ?yt)) \<or> length v_exc = 1"
      "length v_inh = length (filter id (mask_inh ?yr)) \<or> length v_inh = 1"
      "length v_interm = length (filter id (mask_interm ?yt ?yr)) \<or> length v_interm = 1"
  have one: "\<forall>i<n. \<not> (?yt ! i < 0 \<and> 0 < ?yr ! i)"
    using o by fastforce
  show "nu0_dPhi delta_order delta_exc delta_inh delta_interm
              V_resets V_thresholds mus sigmas tau_ms tau_rs =
            Inr (item_or_array
                (map (\<lambda>i. branch_value ?yt ?yr v_exc v_inh v_interm i
                               (hd (branch_tags (?yt ! i) (?yr ! i)))
                           * branch_dPhi (?yt ! i) (?yr ! i)
                               (hd (branch_tags (?yt ! i) (?yr ! i)))) [0..<n]))"
    using nu0_dPhi_by_helpers[OF lens, where delta_order = delta_order and delta_exc = delta_exc
        and delta_inh = delta_inh and delta_interm = delta_interm and g = g
        and ve = v_exc and vi = v_inh and vm = v_interm]
      one go he hi hm lv
    unfolding coords_def by simp
qed

theorem one_branch_per_element_witness:
  "(\<exists>tag. branch_tags 1 0 = [tag])
   \<and> nu_0 (\<lambda>n. ([- 1], [2])) (\<lambda>f a b e. 1) 1 1 1 0 [0] [1]
       = Inr (Scalar (branch_rate (\<lambda>n. ([- 1], [2])) 10 1 1 1 0 Interm))
   \<and> nu0_dPhi (\<lambda>y_th y_r start epsrel maxiter. Inr 10)
        (\<lambda>y_th y_r tau_m t_ref g. Inr (map (\<lambda>t. 2) y_th))
        (\<lambda>y_th y_r tau_m t_ref g. Inr (map (\<lambda>t. 3) y_th))
        (\<lambda>y_th y_r tau_m t_ref g. Inr (map (\<lambda>t. 5) y_th))
        [0] [1] [0] [1] [1] [1]
       = Inr (Scalar (5 * branch_dPhi 1 0 Interm))"
proof -
  note inst = one_branch_per_element[where mu = "[0]" and sigma = "[1]" and V_0_rel = 0
      and V_th_rel = 1 and rl = "\<lambda>n. ([- 1], [2])" and quad = "\<lambda>f a b e. 1" and tau_m = 1
      and tau_r = 1 and V_resets = "[0]" and V_thresholds = "[1]" and mus = "[0]" and sigmas = "[1]"
      and tau_ms = "[1]" and tau_rs = "[1]"
      and delta_order = "\<lambda>y_th y_r start epsrel maxiter. Inr 10"
      and delta_exc = "\<lambda>y_th y_r tau_m t_ref g. Inr (map (\<lambda>t. 2) y_th)"
      and delta_inh = "\<lambda>y_th y_r tau_m t_ref g. Inr (map (\<lambda>t. 3) y_th)"
      and delta_interm = "\<lambda>y_th y_r tau_m t_ref g. Inr (map (\<lambda>t. 5) y_th)"]
  have c: "coords [1] [0] [1] (Suc 0) = [1]" "coords [0] [0] [1] (Suc 0) = [0]"
    by (simp_all add: coords_def bcast_def)
  have t: "branch_tags 1 0 = [Interm]" by (simp add: branch_tags_def)
  have "\<exists>tag. branch_tags (1::real) 0 = [tag]"
    using inst[THEN conjunct1, rule_format, of 0 1] by simp
  moreover have "nu_0 (\<lambda>n. ([- 1], [2])) (\<lambda>f a b e. 1) 1 1 1 0 [0] [1]
       = Inr (Scalar (branch_rate (\<lambda>n. ([- 1], [2])) 10 1 1 1 0 Interm))"
    using inst[THEN conjunct2, THEN conjunct1, rule_format, of 1]
    by (simp add: c t bind_err_simps order_search_example[simplified] item_or_array_def)
  moreover have "nu0_dPhi (\<lambda>y_th y_r start epsrel maxiter. Inr 10)
        (\<lambda>y_th y_r tau_m t_ref g. Inr (map (\<lambda>t. 2) y_th))
        (\<lambda>y_th y_r tau_m t_ref g. Inr (map (\<lambda>t. 3) y_th))
        (\<lambda>y_th y_r tau_m t_ref g. Inr (map (\<lambda>t. 5) y_th))
        [0] [1] [0] [1] [1] [1]
       = Inr (Scalar (5 * branch_dPhi 1 0 Interm))"
    using inst[THEN conjunct2, THEN conjunct2, THEN spec[where x = 1], THEN spec[where x = 10],
        THEN spec[where x = "[]"], THEN spec[where x = "[]"], THEN spec[where x = "[5]"]]
    by (simp add: c t mask_exc_def mask_inh_def mask_interm_def item_or_array_def bcast_def
        branch_value_def masked_value_def masked_index_def)
  ultimately show ?thesis by blast
qed

section \<open>The Taylor-corrected rate \<^verbatim>\<open>nu0_fb433\<close>\<close>

lemma assign_items_length:
  "assign_items nu ms vs = Inr r \<Longrightarrow> length r = length nu"
proof (induction nu ms vs arbitrary: r rule: assign_items.induct)
  case (2 n ns ms v vs)
  then show ?case by (auto simp: bind_err_def split: sum.splits)
next
  case (3 n ns ms vs)
  then show ?case by (auto simp: bind_err_def split: sum.splits)
qed simp_all

lemma assign_masked_length:
  "assign_masked nu ms vs = Inr r \<Longrightarrow> length r = length nu"
  unfolding assign_masked_def by (rule assign_items_length)

lemma bind_err_Inr:
  "bind_err m f = Inr r \<Longrightarrow> \<exists>v. m = Inr v \<and> f v = Inr r"
  by (cases m) (simp_all add: bind_err_def)

text \<open>For floats \<open>mu\<close> and \<open>sigma\<close> the delta-synapse rate is a float, never an array.\<close>

lemma nu_0_float:
  assumes "nu_0 rl quad tau_m tau_r V_th_rel V_0_rel [mu] [sigma] = Inr out"
  shows "\<exists>r. out = Scalar r"
proof -
  from assms obtain g nu1 nu2 nu3 v1 v2 v3 where
    a1: "assign_masked (replicate (Suc 0) 0) [(V_th_rel - mu) / sigma < 0] v1 = Inr nu1"
    and a2: "assign_masked nu1 [0 < (V_0_rel - mu) / sigma] v2 = Inr nu2"
    and a3: "assign_masked nu2 [(V_0_rel - mu) / sigma \<le> 0 \<and> 0 \<le> (V_th_rel - mu) / sigma] v3 = Inr (nu3 :: real list)"
    and out: "out = (if length nu3 = 1 then Scalar (nu3 ! 0) else Array nu3)"
    unfolding nu_0_def
    by (simp add: bind_err_simps bcast_def Let_def) (blast dest!: bind_err_Inr)
  have "length nu3 = 1"
    using assign_masked_length[OF a1] assign_masked_length[OF a2] assign_masked_length[OF a3]
    by simp
  then show ?thesis using out by simp
qed


lemma nu_0_example:
  "nu_0 (\<lambda>n. ([- 1], [2])) (\<lambda>f a b e. 1) 1 1 1 0 [0] [1]
     = Inr (Scalar (branch_rate (\<lambda>n. ([- 1], [2])) 10 1 1 1 0 Interm))"
proof -
  have c: "coords [1] [0] [1] (Suc 0) = [1]" "coords [0] [0] [1] (Suc 0) = [0]"
    by (simp_all add: coords_def bcast_def)
  have t: "branch_tags 1 0 = [Interm]" by (simp add: branch_tags_def)
  have cl: "common_len [length [0::real], length [1::real]] = Inr (Suc 0)"
    by (simp add: bind_err_simps)
  show ?thesis
    using nu_0_by_coords[OF cl, of 1 0 "\<lambda>n. ([- 1], [2])" "\<lambda>f a b e. 1" 1 1]
    by (simp add: c t bind_err_simps order_search_example[simplified] item_or_array_def)
qed

text \<open>
  Claim C5. \<^verbatim>\<open>nu0_fb433\<close> for a nonzero \<open>sigma\<close> (a float division by zero is outside
  the model): when the rescaled threshold \<open>x_th = \<surd>2 (V_th_rel - mu) / sigma\<close> exceeds
  \<open>20 / \<surd>2\<close> the result is that of \<^verbatim>\<open>nu_0\<close> at the same parameters, value or error,
  and the correction term is not evaluated; otherwise the correction term is subtracted
  from the rate \<open>r\<close> that \<^verbatim>\<open>nu_0\<close> returns, and an error of \<^verbatim>\<open>nu_0\<close> is passed on.
  \<^verbatim>\<open>nu_0\<close> returns a float for these arguments.
\<close>

theorem nu0_fb433_overflow_guard:
  fixes sigma mu V_th_rel V_0_rel x_th x_r alpha :: real and zetac :: "real \<Rightarrow> real"
  assumes "sigma \<noteq> 0"
  defines "x_th \<equiv> sqrt 2 * (V_th_rel - mu) / sigma"
    and "x_r \<equiv> sqrt 2 * (V_0_rel - mu) / sigma"
    and "alpha \<equiv> sqrt 2 * \<bar>zetac (1 / 2) + 1\<bar>"
  shows "(x_th > 20 / sqrt 2 \<longrightarrow>
           nu0_fb433 rl quad zetac tau_m tau_s tau_r V_th_rel V_0_rel mu sigma
             = nu_0 rl quad tau_m tau_r V_th_rel V_0_rel [mu] [sigma])
       \<and> (\<not> x_th > 20 / sqrt 2 \<longrightarrow>
           (\<forall>r. nu_0 rl quad tau_m tau_r V_th_rel V_0_rel [mu] [sigma] = Inr (Scalar r) \<longrightarrow>
                nu0_fb433 rl quad zetac tau_m tau_s tau_r V_th_rel V_0_rel mu sigma
                  = Inr (Scalar (r - sqrt (tau_s / tau_m) * alpha / (tau_m * sqrt 2)
                                       * (Phi x_th - Phi x_r) * (r * tau_m)\<^sup>2)))
         \<and> (\<forall>e. nu_0 rl quad tau_m tau_r V_th_rel V_0_rel [mu] [sigma] = Inl e \<longrightarrow>
                nu0_fb433 rl quad zetac tau_m tau_s tau_r V_th_rel V_0_rel mu sigma = Inl e))
       \<and> (\<forall>vs. nu_0 rl quad tau_m tau_r V_th_rel V_0_rel [mu] [sigma] \<noteq> Inr (Array vs))"
proof (intro conjI allI impI)
  assume "x_th > 20 / sqrt 2"
  then show "nu0_fb433 rl quad zetac tau_m tau_s tau_r V_th_rel V_0_rel mu sigma
             = nu_0 rl quad tau_m tau_r V_th_rel V_0_rel [mu] [sigma]"
    by (simp add: nu0_fb433_def x_th_def Let_def)
next
  fix r
  assume "\<not> x_th > 20 / sqrt 2"
    and "nu_0 rl quad tau_m tau_r V_th_rel V_0_rel [mu] [sigma] = Inr (Scalar r)"
  then show "nu0_fb433 rl quad zetac tau_m tau_s tau_r V_th_rel V_0_rel mu sigma
                  = Inr (Scalar (r - sqrt (tau_s / tau_m) * alpha / (tau_m * sqrt 2)
                                       * (Phi x_th - Phi x_r) * (r * tau_m)\<^sup>2))"
    by (simp add: nu0_fb433_def x_th_def x_r_def alpha_def Let_def bind_err_simps)
next
  fix e
  assume "\<not> x_th > 20 / sqrt 2"
    and "nu_0 rl quad tau_m tau_r V_th_rel V_0_rel [mu] [sigma] = Inl e"
  then show "nu0_fb433 rl quad zetac tau_m tau_s tau_r V_th_rel V_0_rel mu sigma = Inl e"
    by (simp add: nu0_fb433_def x_th_def Let_def bind_err_simps)
next
  fix vs
  show "nu_0 rl quad tau_m tau_r V_th_rel V_0_rel [mu] [sigma] \<noteq> Inr (Array vs)"
    using nu_0_float[of rl quad tau_m tau_r V_th_rel V_0_rel mu sigma "Array vs"] by auto
qed

theorem nu0_fb433_overflow_guard_witness:
  "nu0_fb433 (\<lambda>n. ([- 1], [2])) (\<lambda>f a b e. 1) (\<lambda>s. 0) 1 1 1 20 0 0 1
     = nu_0 (\<lambda>n. ([- 1], [2])) (\<lambda>f a b e. 1) 1 1 20 0 [0] [1]
   \<and> nu0_fb433 (\<lambda>n. ([- 1], [2])) (\<lambda>f a b e. 1) (\<lambda>s. 0) 1 1 1 1 0 0 1
     = Inr (Scalar (branch_rate (\<lambda>n. ([- 1], [2])) 10 1 1 1 0 Interm
                    - sqrt (1 / 1) * (sqrt 2 * \<bar>0 + 1\<bar>) / (1 * sqrt 2)
                      * (Phi (sqrt 2 * (1 - 0) / 1) - Phi (sqrt 2 * (0 - 0) / 1))
                      * (branch_rate (\<lambda>n. ([- 1], [2])) 10 1 1 1 0 Interm * 1)\<^sup>2))"
proof
  have nz: "(1::real) \<noteq> 0" by simp
  have big: "sqrt 2 * (20 - 0) / 1 > 20 / sqrt 2"
  proof -
    have "20 / sqrt 2 = 10 * sqrt 2" by (simp add: real_div_sqrt field_simps)
    then show ?thesis by simp
  qed
  show "nu0_fb433 (\<lambda>n. ([- 1], [2])) (\<lambda>f a b e. 1) (\<lambda>s. 0) 1 1 1 20 0 0 1
     = nu_0 (\<lambda>n. ([- 1], [2])) (\<lambda>f a b e. 1) 1 1 20 0 [0] [1]"
    using nu0_fb433_overflow_guard[OF nz, THEN conjunct1, THEN mp, OF big] .
  have small: "\<not> sqrt 2 * (1 - 0) / 1 > 20 / sqrt 2"
  proof -
    have "20 / sqrt 2 = 10 * sqrt 2" by (simp add: real_div_sqrt field_simps)
    then show ?thesis by simp
  qed
  show "nu0_fb433 (\<lambda>n. ([- 1], [2])) (\<lambda>f a b e. 1) (\<lambda>s. 0) 1 1 1 1 0 0 1
     = Inr (Scalar (branch_rate (\<lambda>n. ([- 1], [2])) 10 1 1 1 0 Interm
                    - sqrt (1 / 1) * (sqrt 2 * \<bar>0 + 1\<bar>) / (1 * sqrt 2)
                      * (Phi (sqrt 2 * (1 - 0) / 1) - Phi (sqrt 2 * (0 - 0) / 1))
                      * (branch_rate (\<lambda>n. ([- 1], [2])) 10 1 1 1 0 Interm * 1)\<^sup>2))"
    using nu0_fb433_overflow_guard[OF nz, THEN conjunct2, THEN conjunct1, THEN mp, OF small,
        THEN conjunct1, THEN spec, THEN mp, OF nu_0_example] .
qed

section \<open>The zero-frequency branch of the transfer functions\<close>

lemma equalize_shape_singletons:
  "equalize_shape [[a], [b], [c], [d], [e], [f], [g]] = Inr [[a], [b], [c], [d], [e], [f], [g]]"
  by (simp add: equalize_shape_def similar_array_def bind_err_simps)

text \<open>
  Claim C4 at the frequency \<open>- 1\<close>, for one population. \<open>\<bar>- 1\<bar> \<ge> 10\<^sup>-\<^sup>1\<^sup>5\<close>, and the shift
  method computes the row of the general formula there. The Taylor method tests
  \<^verbatim>\<open>omegas < 1e-15\<close> without the absolute value: it classifies \<open>- 1\<close> as zero and returns the
  zero-frequency limit, the derivative of the rate with respect to the mean input.
\<close>

theorem taylor_takes_negative_omega_for_zero:
  "transfer_function_taylor delta_order delta_exc delta_inh delta_interm
       zetac pcfu delta_firing_rate d_delta
       [m] [s] [t_m] [t_s] [t_r] [v_th] [v_0] [- 1] False
     = bind_err (derivative_of_firing_rates_wrt_mean_input zetac delta_firing_rate d_delta
                   [v_0] [v_th] [m] [s] [t_m] [t_r] [t_s])
         (\<lambda>d. Inr ([map complex_of_real (bcast 1 d)], []))
   \<and> transfer_function_shift zetac pcfu delta_firing_rate d_delta
       [m] [s] [t_m] [t_s] [t_r] [v_th] [v_0] [- 1] False
     = bind_err (delta_firing_rate
                   [v_0 + s * (sqrt 2 * \<bar>zetac (1 / 2) + 1\<bar>) / 2 * sqrt (t_s / t_m)]
                   [v_th + s * (sqrt 2 * \<bar>zetac (1 / 2) + 1\<bar>) / 2 * sqrt (t_s / t_m)]
                   [m] [s] [t_m] [t_r])
         (\<lambda>nu. Inr [shift_row pcfu (bcast 1 nu) [s] [t_m]
                        [sqrt 2 * (v_th + s * (sqrt 2 * \<bar>zetac (1 / 2) + 1\<bar>) / 2 * sqrt (t_s / t_m) - m) / s]
                        [sqrt 2 * (v_0 + s * (sqrt 2 * \<bar>zetac (1 / 2) + 1\<bar>) / 2 * sqrt (t_s / t_m) - m) / s]
                        (- 1)])"
proof
  show "transfer_function_taylor delta_order delta_exc delta_inh delta_interm
       zetac pcfu delta_firing_rate d_delta
       [m] [s] [t_m] [t_s] [t_r] [v_th] [v_0] [- 1] False
     = bind_err (derivative_of_firing_rates_wrt_mean_input zetac delta_firing_rate d_delta
                   [v_0] [v_th] [m] [s] [t_m] [t_r] [t_s])
         (\<lambda>d. Inr ([map complex_of_real (bcast 1 d)], []))"
    unfolding transfer_function_taylor_def equalize_shape_singletons
    by (simp add: bind_err_simps Let_def assign_rows_def assign_masked_def)
       (simp add: bind_err_def split: sum.splits)
  show "transfer_function_shift zetac pcfu delta_firing_rate d_delta
       [m] [s] [t_m] [t_s] [t_r] [v_th] [v_0] [- 1] False
     = bind_err (delta_firing_rate
                   [v_0 + s * (sqrt 2 * \<bar>zetac (1 / 2) + 1\<bar>) / 2 * sqrt (t_s / t_m)]
                   [v_th + s * (sqrt 2 * \<bar>zetac (1 / 2) + 1\<bar>) / 2 * sqrt (t_s / t_m)]
                   [m] [s] [t_m] [t_r])
         (\<lambda>nu. Inr [shift_row pcfu (bcast 1 nu) [s] [t_m]
                        [sqrt 2 * (v_th + s * (sqrt 2 * \<bar>zetac (1 / 2) + 1\<bar>) / 2 * sqrt (t_s / t_m) - m) / s]
                        [sqrt 2 * (v_0 + s * (sqrt 2 * \<bar>zetac (1 / 2) + 1\<bar>) / 2 * sqrt (t_s / t_m) - m) / s]
                        (- 1)])"
    unfolding transfer_function_shift_def equalize_shape_singletons
    by (simp add: bind_err_simps Let_def assign_rows_def assign_masked_def)
       (auto simp: bind_err_def split: sum.splits)
qed

section \<open>The Taylor rate and its warning\<close>

lemma nu0_dPhi_example:
  "nu0_dPhi (\<lambda>y_th y_r start epsrel maxiter. Inr 10)
     (\<lambda>y_th y_r tau_m t_ref g. Inr (map (\<lambda>t. 2) y_th))
     (\<lambda>y_th y_r tau_m t_ref g. Inr (map (\<lambda>t. 3) y_th))
     (\<lambda>y_th y_r tau_m t_ref g. Inr (map (\<lambda>t. 5) y_th))
     [0] [1] [0] [1] [1] [1]
     = Inr (Scalar (5 * branch_dPhi 1 0 Interm))"
proof -
  have h: "\<forall>a \<in> set [[0], [1], [0], [1], [1], [1::real]]. length a = Suc 0 \<or> length a = 1"
    "\<exists>a \<in> set [[0], [1], [0], [1], [1], [1::real]]. length a = Suc 0" "1 \<le> Suc 0"
    by simp_all
  have t: "branch_tags 1 0 = [Interm]" by (simp add: branch_tags_def)
  show ?thesis
    using nu0_dPhi_by_helpers[OF h, where delta_order = "\<lambda>y_th y_r start epsrel maxiter. Inr 10"
        and delta_exc = "\<lambda>y_th y_r tau_m t_ref g. Inr (map (\<lambda>t. 2) y_th)"
        and delta_inh = "\<lambda>y_th y_r tau_m t_ref g. Inr (map (\<lambda>t. 3) y_th)"
        and delta_interm = "\<lambda>y_th y_r tau_m t_ref g. Inr (map (\<lambda>t. 5) y_th)"
        and g = 10 and ve = "[]" and vi = "[]" and vm = "[5]"]
    by (simp add: t bcast_def mask_exc_def mask_inh_def mask_interm_def item_or_array_def
        branch_value_def masked_value_def masked_index_def)
qed

lemma to_list_item_or_array: "to_list (item_or_array xs) = xs"
  by (cases xs) (auto simp: item_or_array_def)

text \<open>
  Claim C7. Whenever the delta-synapse rate \<open>nu0\<close> and the rescaled helper \<open>d\<close> have been
  computed and broadcast, \<^verbatim>\<open>_firing_rate_taylor\<close> returns the computed values
  \<open>nu0 * (1 - \<surd>(tau_s tau_m / 2) * alpha * d)\<close> as they are, negative or not: it raises
  nothing and alters no value. It emits its one warning if some computed value is
  negative, and no warning otherwise.
\<close>

theorem firing_rate_taylor_warns_and_returns:
  fixes zetac :: "real \<Rightarrow> real" and nu_delta tau_s tau_m :: "real list" and d :: "real ndarray"
  assumes "delta_firing_rate V_0_rel V_th_rel mu sigma tau_m tau_r = Inr nu_delta"
    and "nu0_dPhi delta_order delta_exc delta_inh delta_interm
           V_0_rel V_th_rel mu sigma tau_m tau_r = Inr d"
    and "common_len [length nu_delta, length tau_s, length tau_m, length (to_list d)] = Inr n"
  defines "computed \<equiv> map (\<lambda>i. bcast n nu_delta ! i *
             (1 - sqrt (bcast n tau_s ! i * bcast n tau_m ! i / 2) * (sqrt 2 * \<bar>zetac (1 / 2) + 1\<bar>)
                  * bcast n (to_list d) ! i)) [0..<n]"
  shows "\<exists>out warnings.
           firing_rate_taylor delta_order delta_exc delta_inh delta_interm zetac delta_firing_rate
               V_0_rel V_th_rel mu sigma tau_m tau_r tau_s
             = Inr (out, warnings)
         \<and> to_list out = computed
         \<and> ((\<exists>v \<in> set computed. v < 0) \<longrightarrow> warnings = [NegativeRateWarning])
         \<and> (\<not> (\<exists>v \<in> set computed. v < 0) \<longrightarrow> warnings = [])"
proof -
  have eq: "firing_rate_taylor delta_order delta_exc delta_inh delta_interm zetac delta_firing_rate
        V_0_rel V_th_rel mu sigma tau_m tau_r tau_s
      = Inr (item_or_array computed, if \<exists>v \<in> set computed. v < 0 then [NegativeRateWarning] else [])"
    unfolding firing_rate_taylor_def Let_def
    by (simp only: assms(1,2,3) bind_err_simps computed_def[symmetric] item_or_array_def)
  show ?thesis
    unfolding eq
    by (intro exI[of _ "item_or_array computed"]
          exI[of _ "if \<exists>v \<in> set computed. v < 0 then [NegativeRateWarning] else []"])
       (simp add: to_list_item_or_array)
qed

theorem firing_rate_taylor_warns_and_returns_witness:
  "firing_rate_taylor (\<lambda>y_th y_r start epsrel maxiter. Inr 10)
       (\<lambda>y_th y_r tau_m t_ref g. Inr (map (\<lambda>t. 2) y_th))
       (\<lambda>y_th y_r tau_m t_ref g. Inr (map (\<lambda>t. 3) y_th))
       (\<lambda>y_th y_r tau_m t_ref g. Inr (map (\<lambda>t. 5) y_th))
       (\<lambda>s. 0) (\<lambda>a b c d e f. Inr [- 1])
       [0] [1] [0] [1] [1] [1] [0] = Inr (Scalar (- 1), [NegativeRateWarning])
   \<and> firing_rate_taylor (\<lambda>y_th y_r start epsrel maxiter. Inr 10)
       (\<lambda>y_th y_r tau_m t_ref g. Inr (map (\<lambda>t. 2) y_th))
       (\<lambda>y_th y_r tau_m t_ref g. Inr (map (\<lambda>t. 3) y_th))
       (\<lambda>y_th y_r tau_m t_ref g. Inr (map (\<lambda>t. 5) y_th))
       (\<lambda>s. 0) (\<lambda>a b c d e f. Inr [1])
       [0] [1] [0] [1] [1] [1] [0] = Inr (Scalar 1, [])"
proof -
  let ?D = "Scalar (5 * branch_dPhi 1 0 Interm)"
  let ?go = "\<lambda>(y_th :: real list) (y_r :: real list) (start :: nat) (epsrel :: real) (maxiter :: nat).
               (Inr 10 :: py_error + nat)"
  let ?e = "\<lambda>(y_th :: real list) (y_r :: real list) (tau_m :: real list) (t_ref :: real list) (g :: nat).
               (Inr (map (\<lambda>t. 2) y_th) :: py_error + real list)"
  let ?i = "\<lambda>(y_th :: real list) (y_r :: real list) (tau_m :: real list) (t_ref :: real list) (g :: nat).
               (Inr (map (\<lambda>t. 3) y_th) :: py_error + real list)"
  let ?m = "\<lambda>(y_th :: real list) (y_r :: real list) (tau_m :: real list) (t_ref :: real list) (g :: nat).
               (Inr (map (\<lambda>t. 5) y_th) :: py_error + real list)"
  have cl: "common_len [length [x :: real], length [0 :: real], length [1 :: real], length (to_list ?D)]
      = Inr (Suc 0)" for x
    by (simp add: bind_err_simps)
  have sc: "to_list out = [v] \<Longrightarrow>
      firing_rate_taylor go e i m z dfr a b c d e' f g = Inr (out, w) \<Longrightarrow>
      (\<exists>o' w'. firing_rate_taylor go e i m z dfr a b c d e' f g = Inr (Scalar o', w')) \<Longrightarrow>
      firing_rate_taylor go e i m z dfr a b c d e' f g = Inr (Scalar v, w)"
    for out v go e i m z dfr a b c d e' f g w
    by auto
  have sh: "\<exists>o' w'. firing_rate_taylor ?go ?e ?i ?m (\<lambda>s. 0) (\<lambda>a b c d e f. Inr [x])
       [0] [1] [0] [1] [1] [1] [0] = Inr (Scalar o', w')" for x
    by (simp add: firing_rate_taylor_def nu0_dPhi_example bind_err_simps Let_def)
  from firing_rate_taylor_warns_and_returns[where delta_firing_rate = "\<lambda>a b c d e f. Inr [- 1]"
      and nu_delta = "[- 1]" and delta_order = ?go and delta_exc = ?e and delta_inh = ?i
      and delta_interm = ?m and zetac = "\<lambda>s. 0"
      and V_0_rel = "[0]" and V_th_rel = "[1]" and mu = "[0]" and sigma = "[1]" and tau_m = "[1]"
      and tau_r = "[1]" and tau_s = "[0]" and d = ?D and n = "Suc 0", OF refl nu0_dPhi_example cl]
  obtain out warnings where neg:
    "firing_rate_taylor ?go ?e ?i ?m (\<lambda>s. 0) (\<lambda>a b c d e f. Inr [- 1])
       [0] [1] [0] [1] [1] [1] [0] = Inr (out, warnings)"
    "to_list out = [- 1]" "warnings = [NegativeRateWarning]"
    by (auto simp: bcast_def)
  from firing_rate_taylor_warns_and_returns[where delta_firing_rate = "\<lambda>a b c d e f. Inr [1]"
      and nu_delta = "[1]" and delta_order = ?go and delta_exc = ?e and delta_inh = ?i
      and delta_interm = ?m and zetac = "\<lambda>s. 0"
      and V_0_rel = "[0]" and V_th_rel = "[1]" and mu = "[0]" and sigma = "[1]" and tau_m = "[1]"
      and tau_r = "[1]" and tau_s = "[0]" and d = ?D and n = "Suc 0", OF refl nu0_dPhi_example cl]
  obtain out' warnings' where pos:
    "firing_rate_taylor ?go ?e ?i ?m (\<lambda>s. 0) (\<lambda>a b c d e f. Inr [1])
       [0] [1] [0] [1] [1] [1] [0] = Inr (out', warnings')"
    "to_list out' = [1]" "warnings' = []"
    by (auto simp: bcast_def)
  show ?thesis
    using sc[OF neg(2) neg(1) sh] sc[OF pos(2) pos(1) sh] neg(3) pos(3) by simp
qed

section \<open>The eigenvalue of the sensitivity measure\<close>






section \<open>The overflow-safe forms of \<open>Phi\<close>\<close>

lemma half_square: "(s / sqrt 2)\<^sup>2 = s\<^sup>2 / 2" for s :: real
  by (simp add: power_divide)

lemma Phi_neg_elem_eq: "s \<le> 0 \<Longrightarrow> Phi_neg_elem s = Phi s"
proof -
  assume "s \<le> 0"
  then have a: "\<bar>s\<bar> / sqrt 2 = - (s / sqrt 2)" by simp
  show ?thesis
    unfolding Phi_neg_elem_def Phi_def erfcx_def erfc_def a erf_minus
    by (simp add: half_square)
qed

lemma Phi_pos_elem_eq: "Phi_pos_elem s = exp (- (s\<^sup>2) / 2) * Phi s"
proof -
  have "exp (- (s\<^sup>2) / 2) * exp (s\<^sup>2 / 2) = 1"
    by (simp add: exp_minus)
  then have e: "exp (- (s\<^sup>2) / 2) * (exp (s\<^sup>2 / 2) * c) = c" for c :: real
    by (metis mult.assoc mult.left_neutral)
  have one: "exp (s\<^sup>2 / 2) * exp (- (s\<^sup>2 / 2)) = 1"
    by (simp add: exp_minus)
  show ?thesis
    unfolding Phi_pos_elem_def Phi_def erfcx_def erfc_def half_square
    by (simp add: e one algebra_simps)
qed

text \<open>
  Claim C10. In real arithmetic the overflow-safe helpers agree with the reference
  \<open>Phi s = \<surd>(\<pi>/2) exp (s\<^sup>2/2) (1 + erf (s/\<surd>2))\<close>: on an array of non-positive arguments
  \<^verbatim>\<open>_Phi_neg\<close> passes its assertion and returns \<open>Phi\<close> of every element, and on an array of
  non-negative arguments \<^verbatim>\<open>_Phi_pos\<close> passes its assertion and returns
  \<open>exp (- s\<^sup>2/2) * Phi s\<close> of every element.
\<close>

theorem Phi_neg_pos_agree_with_Phi:
  "((\<forall>v \<in> set s. v \<le> 0) \<longrightarrow> Phi_neg s = Inr (map Phi s))
   \<and> ((\<forall>v \<in> set s. 0 \<le> v) \<longrightarrow> Phi_pos s = Inr (map (\<lambda>v. exp (- (v\<^sup>2) / 2) * Phi v) s))"
proof (intro conjI impI)
  assume "\<forall>v \<in> set s. v \<le> 0"
  then show "Phi_neg s = Inr (map Phi s)"
    by (simp add: Phi_neg_def Phi_neg_elem_eq)
next
  assume "\<forall>v \<in> set s. 0 \<le> v"
  then show "Phi_pos s = Inr (map (\<lambda>v. exp (- (v\<^sup>2) / 2) * Phi v) s)"
    by (simp add: Phi_pos_def Phi_pos_elem_eq)
qed

theorem Phi_neg_pos_agree_with_Phi_witness:
  "Phi_neg [- 1, 0] = Inr [Phi (- 1), Phi 0]
   \<and> Phi_pos [0, 2] = Inr [exp (- (0\<^sup>2) / 2) * Phi 0, exp (- (2\<^sup>2) / 2) * Phi 2]"
proof
  have n: "\<forall>v \<in> set [- 1, 0 :: real]. v \<le> 0" by simp
  show "Phi_neg [- 1, 0] = Inr [Phi (- 1), Phi 0]"
    using Phi_neg_pos_agree_with_Phi[of "[- 1, 0]", THEN conjunct1, THEN mp, OF n] by simp
  have p: "\<forall>v \<in> set [0, 2 :: real]. 0 \<le> v" by simp
  show "Phi_pos [0, 2] = Inr [exp (- (0\<^sup>2) / 2) * Phi 0, exp (- (2\<^sup>2) / 2) * Phi 2]"
    using Phi_neg_pos_agree_with_Phi[of "[0, 2]", THEN conjunct2, THEN mp, OF p] by simp
qed

section \<open>Matrix products\<close>













section \<open>The propagator\<close>











section \<open>The power spectrum\<close>

















section \<open>The Gaussian integral\<close>

text \<open>
  The derivative of \<open>gauss_int\<close> is \<open>exp (- x\<^sup>2)\<close> and that of \<open>exp_sq_int\<close> is
  \<open>exp (x\<^sup>2)\<close>: both are \<open>x\<close> times the power series \<open>gauss_series\<close>, which satisfies
  \<open>f u + 2 u f' u = exp u\<close>.
\<close>

lemma gauss_coeff_pos: "0 < gauss_coeff n"
  by (simp add: gauss_coeff_def add_pos_nonneg)

lemma gauss_coeff_le: "gauss_coeff n \<le> 1 / fact n"
  unfolding gauss_coeff_def
  by (intro divide_left_mono mult_pos_pos) (simp_all add: add_pos_nonneg)

lemma gauss_series_summable: "summable (\<lambda>n. gauss_coeff n * u ^ n)"
proof (rule summable_comparison_test')
  show "summable (\<lambda>n. \<bar>u\<bar> ^ n /\<^sub>R fact n)" by (rule summable_exp_generic)
  fix n :: nat
  have "norm (gauss_coeff n * u ^ n) = gauss_coeff n * \<bar>u\<bar> ^ n"
    using gauss_coeff_pos[of n] by (simp add: abs_mult power_abs)
  also have "\<dots> \<le> 1 / fact n * \<bar>u\<bar> ^ n"
    by (intro mult_right_mono gauss_coeff_le) simp
  also have "\<dots> = \<bar>u\<bar> ^ n /\<^sub>R fact n" by (simp add: divide_inverse)
  finally show "norm (gauss_coeff n * u ^ n) \<le> \<bar>u\<bar> ^ n /\<^sub>R fact n" .
qed

lemma gauss_series_deriv:
  "(gauss_series has_field_derivative (\<Sum>n. diffs gauss_coeff n * u ^ n)) (at u)"
  unfolding gauss_series_def
  by (rule termdiffs_strong_converges_everywhere) (rule gauss_series_summable)

lemma exp_coeff: "(2 * real n + 1) * gauss_coeff n = 1 / fact n"
  by (simp add: gauss_coeff_def add_pos_nonneg)

lemma gauss_series_ode:
  "gauss_series u + 2 * u * (\<Sum>n. diffs gauss_coeff n * u ^ n) = exp u"
proof -
  let ?a = gauss_coeff
  have s0: "(\<lambda>n. ?a n * u ^ n) sums gauss_series u"
    unfolding gauss_series_def using gauss_series_summable by (rule summable_sums)
  have e: "(\<lambda>n. (2 * real n + 1) * ?a n * u ^ n) sums exp u"
  proof -
    have "(2 * real n + 1) * ?a n * u ^ n = u ^ n /\<^sub>R fact n" for n
      unfolding exp_coeff by (simp add: divide_inverse)
    then have "(\<lambda>n. (2 * real n + 1) * ?a n * u ^ n) = (\<lambda>n. u ^ n /\<^sub>R fact n)"
      by (rule ext)
    then show ?thesis by (simp only: exp_converges)
  qed
  have "(\<lambda>n. (2 * real n + 1) * ?a n * u ^ n - ?a n * u ^ n) sums (exp u - gauss_series u)"
    by (rule sums_diff[OF e s0])
  then have s1: "(\<lambda>n. 2 * (real n * ?a n * u ^ n)) sums (exp u - gauss_series u)"
    by (simp add: algebra_simps)
  have "(\<lambda>n. 2 * (real (Suc n) * ?a (Suc n) * u ^ Suc n)) sums (exp u - gauss_series u)"
    using s1 by (subst sums_Suc_iff) simp
  moreover have "(\<lambda>n. 2 * (real (Suc n) * ?a (Suc n) * u ^ Suc n))
      = (\<lambda>n. (2 * u) * (diffs ?a n * u ^ n))"
    by (rule ext) (simp add: diffs_def algebra_simps)
  ultimately have s2: "(\<lambda>n. (2 * u) * (diffs ?a n * u ^ n)) sums (exp u - gauss_series u)"
    by (simp only:)
  have d: "summable (\<lambda>n. diffs ?a n * u ^ n)"
    by (rule termdiff_converges_all) (rule gauss_series_summable)
  have "(\<lambda>n. (2 * u) * (diffs ?a n * u ^ n)) sums (2 * u * (\<Sum>n. diffs ?a n * u ^ n))"
    by (rule sums_mult) (rule summable_sums[OF d])
  then have "2 * u * (\<Sum>n. diffs ?a n * u ^ n) = exp u - gauss_series u"
    using s2 by (rule sums_unique2)
  then show ?thesis by simp
qed

lemma gauss_int_series: "gauss_int x = x * gauss_series (- (x\<^sup>2))"
proof -
  have "(\<lambda>n. x * (gauss_coeff n * (- (x\<^sup>2)) ^ n)) sums (x * gauss_series (- (x\<^sup>2)))"
    unfolding gauss_series_def by (intro sums_mult summable_sums gauss_series_summable)
  moreover have "x * (gauss_coeff n * (- (x\<^sup>2)) ^ n)
      = (- 1) ^ n * x ^ (2 * n + 1) / (fact n * (2 * real n + 1))" for n
  proof -
    have "(- (x\<^sup>2)) ^ n = (- 1) ^ n * x ^ (2 * n)"
      by (simp add: power_mult power_minus[of "x\<^sup>2"])
    then show ?thesis by (simp add: gauss_coeff_def)
  qed
  ultimately have "(\<lambda>n. (- 1) ^ n * x ^ (2 * n + 1) / (fact n * (2 * real n + 1)))
      sums (x * gauss_series (- (x\<^sup>2)))" by simp
  then show ?thesis unfolding gauss_int_def by (rule sums_unique[symmetric])
qed

lemma exp_sq_int_series: "exp_sq_int x = x * gauss_series (x\<^sup>2)"
proof -
  have "(\<lambda>n. x * (gauss_coeff n * (x\<^sup>2) ^ n)) sums (x * gauss_series (x\<^sup>2))"
    unfolding gauss_series_def by (intro sums_mult summable_sums gauss_series_summable)
  moreover have "x * (gauss_coeff n * (x\<^sup>2) ^ n)
      = x ^ (2 * n + 1) / (fact n * (2 * real n + 1))" for n
    by (simp add: gauss_coeff_def power_mult)
  ultimately have "(\<lambda>n. x ^ (2 * n + 1) / (fact n * (2 * real n + 1)))
      sums (x * gauss_series (x\<^sup>2))" by simp
  then show ?thesis unfolding exp_sq_int_def by (rule sums_unique[symmetric])
qed

lemma gauss_int_deriv: "(gauss_int has_field_derivative exp (- (x\<^sup>2))) (at x)"
proof -
  let ?d = "\<Sum>n. diffs gauss_coeff n * (- (x\<^sup>2)) ^ n"
  have "((\<lambda>x. x * gauss_series (- (x\<^sup>2))) has_field_derivative
          (1 * gauss_series (- (x\<^sup>2)) + x * (?d * (- (2 * x)))) ) (at x)"
    by (rule DERIV_mult DERIV_ident DERIV_chain2[OF gauss_series_deriv] derivative_eq_intros refl
        | simp)+
  moreover have "1 * gauss_series (- (x\<^sup>2)) + x * (?d * (- (2 * x))) = exp (- (x\<^sup>2))"
    using gauss_series_ode[of "- (x\<^sup>2)"] by (simp add: power2_eq_square algebra_simps)
  moreover have "gauss_int = (\<lambda>x. x * gauss_series (- (x\<^sup>2)))"
    by (rule ext) (rule gauss_int_series)
  ultimately show ?thesis by simp
qed

lemma exp_sq_int_deriv: "(exp_sq_int has_field_derivative exp (x\<^sup>2)) (at x)"
proof -
  let ?d = "\<Sum>n. diffs gauss_coeff n * (x\<^sup>2) ^ n"
  have "((\<lambda>x. x * gauss_series (x\<^sup>2)) has_field_derivative
          (1 * gauss_series (x\<^sup>2) + x * (?d * (2 * x))) ) (at x)"
    by (rule DERIV_mult DERIV_ident DERIV_chain2[OF gauss_series_deriv] derivative_eq_intros refl
        | simp)+
  moreover have "1 * gauss_series (x\<^sup>2) + x * (?d * (2 * x)) = exp (x\<^sup>2)"
    using gauss_series_ode[of "x\<^sup>2"] by (simp add: power2_eq_square algebra_simps)
  moreover have "exp_sq_int = (\<lambda>x. x * gauss_series (x\<^sup>2))"
    by (rule ext) (rule exp_sq_int_series)
  ultimately show ?thesis by simp
qed

subsection \<open>Integrals of the powers of the cosine\<close>

lemma cos_power_int_deriv: "(cos_power_int m has_field_derivative cos t ^ m) (at t)"
proof (induction m t rule: cos_power_int.induct)
  case (1 t)
  have "cos_power_int 0 = (\<lambda>t. t)" by (rule ext) simp
  then show ?case by simp
next
  case (2 t)
  have "cos_power_int (Suc 0) = sin" by (rule ext) simp
  then show ?case by simp
next
  case (3 m t)
  let ?k = "real (Suc m)"
  have "((\<lambda>t. (cos t ^ Suc m * sin t + ?k * cos_power_int m t) / real (Suc (Suc m)))
          has_field_derivative
          ((?k * cos t ^ m * (- sin t)) * sin t + cos t ^ Suc m * cos t + ?k * cos t ^ m)
            / real (Suc (Suc m))) (at t)"
    by (rule derivative_eq_intros 3 refl | simp)+
  moreover have "((?k * cos t ^ m * (- sin t)) * sin t + cos t ^ Suc m * cos t + ?k * cos t ^ m)
            / real (Suc (Suc m)) = cos t ^ Suc (Suc m)"
  proof -
    have s: "sin t * sin t = 1 - cos t * cos t"
      using sin_cos_squared_add[of t] by (simp add: power2_eq_square)
    have "(?k * cos t ^ m * (- sin t)) * sin t + cos t ^ Suc m * cos t + ?k * cos t ^ m
        = - ?k * cos t ^ m * (sin t * sin t) + cos t ^ Suc m * cos t + ?k * cos t ^ m"
      by (simp add: algebra_simps)
    also have "\<dots> = real (Suc (Suc m)) * cos t ^ Suc (Suc m)"
      unfolding s by (simp add: algebra_simps)
    finally show ?thesis by simp
  qed
  moreover have "cos_power_int (Suc (Suc m))
      = (\<lambda>t. (cos t ^ Suc m * sin t + ?k * cos_power_int m t) / real (Suc (Suc m)))"
    by (rule ext) simp
  ultimately show ?case by simp
qed

lemma cos_power_int_0_aux: "t = 0 \<Longrightarrow> cos_power_int m t = 0"
  by (induction m t rule: cos_power_int.induct) simp_all

lemma cos_power_int_0: "cos_power_int m 0 = 0"
  by (rule cos_power_int_0_aux) (rule refl)

lemma cos_power_int_mono:
  assumes "0 \<le> a" "a \<le> b" "b \<le> pi / 2"
  shows "cos_power_int m a \<le> cos_power_int m b"
proof (rule DERIV_nonneg_imp_nondecreasing[OF assms(2)])
  fix t assume "a \<le> t" "t \<le> b"
  then have "0 \<le> cos t" using assms by (intro cos_ge_zero) simp_all
  then have "0 \<le> cos t ^ m" by simp
  then show "\<exists>y. (cos_power_int m has_real_derivative y) (at t) \<and> 0 \<le> y"
    using cos_power_int_deriv by blast
qed

lemma cos_power_int_nonneg:
  assumes "0 \<le> t" "t \<le> pi / 2"
  shows "0 \<le> cos_power_int m t"
  using cos_power_int_mono[of 0 t m] assms by (simp add: cos_power_int_0)

lemma cos_power_int_antimono:
  assumes "0 \<le> t" "t \<le> pi / 2"
  shows "cos_power_int (Suc m) t \<le> cos_power_int m t"
proof -
  have "cos_power_int m 0 - cos_power_int (Suc m) 0 \<le> cos_power_int m t - cos_power_int (Suc m) t"
  proof (rule DERIV_nonneg_imp_nondecreasing[OF assms(1)])
    fix s assume s: "0 \<le> s" "s \<le> t"
    then have c: "0 \<le> cos s" using assms by (intro cos_ge_zero) simp_all
    have "((\<lambda>t. cos_power_int m t - cos_power_int (Suc m) t) has_real_derivative
            cos s ^ m - cos s ^ Suc m) (at s)"
      by (intro DERIV_diff cos_power_int_deriv)
    moreover have "0 \<le> cos s ^ m - cos s ^ Suc m"
    proof -
      have "cos s ^ m * cos s \<le> cos s ^ m * 1"
        by (intro mult_left_mono) (use c in simp_all)
      then show ?thesis by (simp add: mult.commute)
    qed
    ultimately show "\<exists>y. ((\<lambda>t. cos_power_int m t - cos_power_int (Suc m) t)
                            has_real_derivative y) (at s) \<and> 0 \<le> y"
      by blast
  qed
  then show ?thesis by (simp add: cos_power_int_0)
qed

lemma wallis_step:
  "cos_power_int (Suc (Suc m)) (pi / 2) = real (Suc m) / real (Suc (Suc m)) * cos_power_int m (pi / 2)"
  by simp

lemma wallis_product:
  "real (Suc m) * cos_power_int m (pi / 2) * cos_power_int (Suc m) (pi / 2) = pi / 2"
proof (induction m)
  case 0
  show ?case by simp
next
  case (Suc m)
  have "real (Suc (Suc m)) * cos_power_int (Suc m) (pi / 2) * cos_power_int (Suc (Suc m)) (pi / 2)
      = real (Suc m) * cos_power_int m (pi / 2) * cos_power_int (Suc m) (pi / 2)"
    unfolding wallis_step by simp
  then show ?case using Suc by (simp only:)
qed

lemma wallis_nonneg: "0 \<le> cos_power_int m (pi / 2)"
  by (rule cos_power_int_nonneg) simp_all

lemma wallis_upper: "real (Suc m) * (cos_power_int (Suc m) (pi / 2))\<^sup>2 \<le> pi / 2"
proof -
  have "cos_power_int (Suc m) (pi / 2) * cos_power_int (Suc m) (pi / 2)
        \<le> cos_power_int m (pi / 2) * cos_power_int (Suc m) (pi / 2)"
    by (intro mult_right_mono cos_power_int_antimono wallis_nonneg) simp_all
  then have "real (Suc m) * (cos_power_int (Suc m) (pi / 2) * cos_power_int (Suc m) (pi / 2))
        \<le> real (Suc m) * (cos_power_int m (pi / 2) * cos_power_int (Suc m) (pi / 2))"
    by (rule mult_left_mono) simp
  also have "\<dots> = pi / 2" using wallis_product[of m] by (simp only: mult.assoc)
  finally show ?thesis by (simp only: power2_eq_square)
qed

lemma wallis_lower: "pi / 2 \<le> real (Suc m) * (cos_power_int m (pi / 2))\<^sup>2"
proof -
  have "cos_power_int m (pi / 2) * cos_power_int (Suc m) (pi / 2)
        \<le> cos_power_int m (pi / 2) * cos_power_int m (pi / 2)"
    by (intro mult_left_mono cos_power_int_antimono wallis_nonneg) simp_all
  then have a: "real (Suc m) * (cos_power_int m (pi / 2) * cos_power_int (Suc m) (pi / 2))
        \<le> real (Suc m) * (cos_power_int m (pi / 2) * cos_power_int m (pi / 2))"
    by (rule mult_left_mono) simp
  have b: "real (Suc m) * (cos_power_int m (pi / 2) * cos_power_int (Suc m) (pi / 2)) = pi / 2"
    using wallis_product[of m] by (simp only: mult.assoc)
  show ?thesis using a unfolding b power2_eq_square .
qed

subsection \<open>The error function stays below one\<close>

text \<open>
  Comparing derivatives, \<open>gauss_int (\<surd>n t) / \<surd>n\<close> is at most the integral of
  \<open>cos\<^bsup>2n-2\<^esup>\<close> up to \<open>arctan t\<close>, and \<open>gauss_int (\<surd>n) / \<surd>n\<close> at least the integral of
  \<open>cos\<^bsup>2n+1\<^esup>\<close> up to \<open>\<pi>/2\<close>; the product formula of the cosine integrals then gives
  \<open>(gauss_int y)\<^sup>2 \<le> \<pi>/4\<close> and \<open>(gauss_int (\<surd>n))\<^sup>2 \<ge> \<pi>/4 * n/(n+1)\<close>.
\<close>

lemma le_of_eventual_bound:
  fixes a b c :: real
  assumes "\<And>n. n0 \<le> n \<Longrightarrow> c \<le> a + b / real (Suc n)"
  shows "c \<le> a"
proof (rule LIMSEQ_le_const)
  have "(\<lambda>n. a + b * inverse (real (Suc n))) \<longlonglongrightarrow> a + b * 0"
    by (intro tendsto_add tendsto_mult tendsto_const LIMSEQ_inverse_real_of_nat)
  then show "(\<lambda>n. a + b / real (Suc n)) \<longlonglongrightarrow> a"
    by (simp add: divide_inverse)
  show "\<exists>N. \<forall>n\<ge>N. c \<le> a + b / real (Suc n)"
    using assms by blast
qed

lemma gauss_int_mono:
  assumes "a \<le> b"
  shows "gauss_int a \<le> gauss_int b"
proof (rule DERIV_nonneg_imp_nondecreasing[OF assms])
  fix x :: real
  have "0 \<le> exp (- (x\<^sup>2))" by simp
  then show "\<exists>y. (gauss_int has_real_derivative y) (at x) \<and> 0 \<le> y"
    using gauss_int_deriv by blast
qed

lemma gauss_int_nonneg: "0 \<le> x \<Longrightarrow> 0 \<le> gauss_int x"
  using gauss_int_mono[of 0 x] by (simp add: gauss_int_0)

lemma exp_power_bound: "exp (- (real n * t\<^sup>2)) \<le> (1 / (1 + t\<^sup>2)) ^ n" for t :: real
proof -
  have p: "0 < 1 + t\<^sup>2" by (simp add: add_pos_nonneg)
  have "1 + t\<^sup>2 \<le> exp (t\<^sup>2)" by (rule exp_ge_add_one_self)
  then have "(1 + t\<^sup>2) ^ n \<le> exp (t\<^sup>2) ^ n"
    by (intro power_mono) (use p in simp_all)
  also have "\<dots> = exp (real n * t\<^sup>2)" by (simp add: exp_of_nat_mult)
  finally have "1 / exp (real n * t\<^sup>2) \<le> 1 / (1 + t\<^sup>2) ^ n"
    by (intro divide_left_mono mult_pos_pos zero_less_power p) simp_all
  then show ?thesis by (simp add: exp_minus power_divide inverse_eq_divide)
qed

lemma gauss_int_cos_bound:
  assumes t: "0 \<le> t"
  shows "gauss_int (sqrt (real (Suc k)) * t) / sqrt (real (Suc k)) \<le> cos_power_int (2 * k) (arctan t)"
proof -
  let ?r = "sqrt (real (Suc k))"
  let ?phi = "\<lambda>t. cos_power_int (2 * k) (arctan t) - gauss_int (?r * t) / ?r"
  have r: "0 < ?r" by simp
  have "?phi 0 \<le> ?phi t"
  proof (rule DERIV_nonneg_imp_nondecreasing[OF t])
    fix s :: real
    have p: "0 < 1 + s\<^sup>2" by (simp add: add_pos_nonneg)
    have d: "(?phi has_real_derivative
              cos (arctan s) ^ (2 * k) * (1 / (1 + s\<^sup>2)) - exp (- ((?r * s)\<^sup>2)) * ?r / ?r) (at s)"
      by (rule DERIV_diff DERIV_cdivide DERIV_chain2[OF cos_power_int_deriv]
          DERIV_chain2[OF gauss_int_deriv] DERIV_arctan[unfolded inverse_eq_divide]
          derivative_eq_intros refl | simp add: inverse_eq_divide)+
    have "cos (arctan s) ^ (2 * k) = ((cos (arctan s))\<^sup>2) ^ k" by (simp add: power_mult)
    also have "(cos (arctan s))\<^sup>2 = 1 / (1 + s\<^sup>2)"
      using p by (simp add: cos_arctan power_divide)
    finally have c: "cos (arctan s) ^ (2 * k) * (1 / (1 + s\<^sup>2)) = (1 / (1 + s\<^sup>2)) ^ Suc k"
      by simp
    have e: "exp (- ((?r * s)\<^sup>2)) * ?r / ?r = exp (- (real (Suc k) * s\<^sup>2))"
      using r by (simp add: power_mult_distrib)
    have "0 \<le> (1 / (1 + s\<^sup>2)) ^ Suc k - exp (- (real (Suc k) * s\<^sup>2))"
      using exp_power_bound[of "Suc k" s] by simp
    then show "\<exists>y. (?phi has_real_derivative y) (at s) \<and> 0 \<le> y"
      using d unfolding c e by blast
  qed
  then show ?thesis by (simp add: cos_power_int_0 gauss_int_0)
qed

lemma gauss_int_wallis_upper:
  assumes y: "0 \<le> y"
  shows "gauss_int y \<le> sqrt (real (Suc k)) * cos_power_int (2 * k) (pi / 2)"
proof -
  let ?r = "sqrt (real (Suc k))"
  have r: "0 < ?r" by simp
  have a: "0 \<le> arctan (y / ?r)" "arctan (y / ?r) \<le> pi / 2"
    using y r arctan_ubound[of "y / ?r"] by (simp_all add: zero_le_arctan_iff less_imp_le)
  have "gauss_int (?r * (y / ?r)) / ?r \<le> cos_power_int (2 * k) (arctan (y / ?r))"
    by (rule gauss_int_cos_bound) (use y r in simp)
  also have "\<dots> \<le> cos_power_int (2 * k) (pi / 2)"
    by (rule cos_power_int_mono) (use a in simp_all)
  finally have "gauss_int y / ?r \<le> cos_power_int (2 * k) (pi / 2)"
    using r by simp
  then show ?thesis using r by (simp add: pos_divide_le_eq mult.commute)
qed

lemma gauss_int_sq_upper:
  assumes y: "0 \<le> y"
  shows "(gauss_int y)\<^sup>2 \<le> pi / 4"
proof (rule le_of_eventual_bound[where ?n0.0 = 0 and b = "pi / 4"])
  fix n :: nat
  define W where "W = cos_power_int (2 * Suc n) (pi / 2)"
  have idx: "2 * Suc n = Suc (2 * n + 1)" by simp
  have wu: "real (2 * Suc n) * W\<^sup>2 \<le> pi / 2"
    unfolding W_def idx by (rule wallis_upper)
  have g: "0 \<le> gauss_int y" using y by (rule gauss_int_nonneg)
  have "gauss_int y \<le> sqrt (real (Suc (Suc n))) * W"
    unfolding W_def using y by (rule gauss_int_wallis_upper)
  then have "(gauss_int y)\<^sup>2 \<le> (sqrt (real (Suc (Suc n))) * W)\<^sup>2"
    using g by (rule power_mono)
  also have "\<dots> = real (Suc (Suc n)) * W\<^sup>2" by (simp add: power_mult_distrib)
  also have "\<dots> \<le> real (Suc (Suc n)) * (pi / 2 / real (2 * Suc n))"
  proof (rule mult_left_mono)
    show "W\<^sup>2 \<le> pi / 2 / real (2 * Suc n)"
      using wu by (simp add: field_simps)
  qed simp
  also have "\<dots> = pi / 4 + pi / 4 / real (Suc n)"
    by (simp add: field_simps)
  finally show "(gauss_int y)\<^sup>2 \<le> pi / 4 + pi / 4 / real (Suc n)" .
qed

lemma erf_le_1:
  assumes "0 \<le> x"
  shows "erf x \<le> 1"
proof -
  have "gauss_int x \<le> sqrt (pi / 4)"
    using gauss_int_sq_upper[OF assms] by (rule real_le_rsqrt)
  also have "\<dots> = sqrt pi / 2" by (simp add: real_sqrt_divide)
  finally show ?thesis by (simp add: erf_def field_simps)
qed

lemma erf_nonneg: "0 \<le> x \<Longrightarrow> 0 \<le> erf x"
  by (simp add: erf_def gauss_int_nonneg)

lemma cos_sq_power_bound: "((cos t)\<^sup>2) ^ n \<le> exp (- (real n * (sin t)\<^sup>2))"
proof -
  have "(cos t)\<^sup>2 = 1 + - ((sin t)\<^sup>2)"
    by (simp add: cos_squared_eq)
  also have "\<dots> \<le> exp (- ((sin t)\<^sup>2))" by (rule exp_ge_add_one_self)
  finally have "((cos t)\<^sup>2) ^ n \<le> exp (- ((sin t)\<^sup>2)) ^ n"
    by (intro power_mono) simp_all
  also have "\<dots> = exp (real n * - ((sin t)\<^sup>2))" by (simp only: exp_of_nat_mult)
  finally show ?thesis by simp
qed

lemma odd_power_split: "x ^ (2 * n + 1) = x * (x\<^sup>2) ^ n" for x :: real
  by (simp add: power_mult)

lemma gauss_int_wallis_lower:
  "sqrt (real (Suc k)) * cos_power_int (2 * Suc k + 1) (pi / 2) \<le> gauss_int (sqrt (real (Suc k)))"
proof -
  let ?n = "Suc k"
  let ?r = "sqrt (real ?n)"
  let ?m = "2 * ?n + 1"
  let ?psi = "\<lambda>t. gauss_int (?r * sin t) / ?r - cos_power_int ?m t"
  have r: "0 < ?r" by simp
  have hp: "0 \<le> pi / 2" by simp
  have "?psi 0 \<le> ?psi (pi / 2)"
  proof (rule DERIV_nonneg_imp_nondecreasing[OF hp])
    fix s :: real assume s: "0 \<le> s" "s \<le> pi / 2"
    then have c: "0 \<le> cos s" by (intro cos_ge_zero) simp_all
    have d: "(?psi has_real_derivative
              exp (- ((?r * sin s)\<^sup>2)) * (?r * cos s) / ?r - cos s ^ ?m) (at s)"
      by (rule DERIV_diff DERIV_cdivide DERIV_chain2[OF cos_power_int_deriv]
          DERIV_chain2[OF gauss_int_deriv] derivative_eq_intros refl | simp)+
    have e: "exp (- ((?r * sin s)\<^sup>2)) * (?r * cos s) / ?r
             = cos s * exp (- (real ?n * (sin s)\<^sup>2))"
      using r by (simp add: power_mult_distrib)
    have p: "cos s ^ ?m = cos s * ((cos s)\<^sup>2) ^ ?n"
      by (rule odd_power_split)
    have "cos s * ((cos s)\<^sup>2) ^ ?n \<le> cos s * exp (- (real ?n * (sin s)\<^sup>2))"
      using cos_sq_power_bound c by (rule mult_left_mono)
    then have "0 \<le> exp (- ((?r * sin s)\<^sup>2)) * (?r * cos s) / ?r - cos s ^ ?m"
      unfolding e p by simp
    then show "\<exists>y. (?psi has_real_derivative y) (at s) \<and> 0 \<le> y"
      using d by blast
  qed
  then have "cos_power_int ?m (pi / 2) \<le> gauss_int ?r / ?r"
    by (simp only: sin_zero sin_pi_half mult_zero_right mult_1_right gauss_int_0
        cos_power_int_0 div_0 diff_0_right diff_ge_0_iff_ge)
  then show ?thesis using r by (simp only: pos_le_divide_eq mult.commute)
qed

lemma gauss_int_sq_lower:
  "pi / 4 * (real (Suc k) / real (Suc (Suc k))) \<le> (gauss_int (sqrt (real (Suc k))))\<^sup>2"
proof -
  define W where "W = cos_power_int (2 * Suc k + 1) (pi / 2)"
  have w0: "0 \<le> W" unfolding W_def by (rule wallis_nonneg)
  have wl: "pi / 2 \<le> real (Suc (2 * Suc k + 1)) * W\<^sup>2"
    unfolding W_def by (rule wallis_lower)
  have "pi / 4 / real (Suc (Suc k)) \<le> W\<^sup>2"
    using wl by (simp add: field_simps)
  then have "real (Suc k) * (pi / 4 / real (Suc (Suc k))) \<le> real (Suc k) * W\<^sup>2"
    by (rule mult_left_mono) simp
  also have "\<dots> = (sqrt (real (Suc k)) * W)\<^sup>2" by (simp add: power_mult_distrib)
  also have "\<dots> \<le> (gauss_int (sqrt (real (Suc k))))\<^sup>2"
  proof (rule power_mono)
    show "sqrt (real (Suc k)) * W \<le> gauss_int (sqrt (real (Suc k)))"
      unfolding W_def by (rule gauss_int_wallis_lower)
    show "0 \<le> sqrt (real (Suc k)) * W" using w0 by simp
  qed
  finally show ?thesis by (simp add: field_simps)
qed

lemma erf_sqrt_lower: "1 - 1 / real (Suc (Suc k)) \<le> erf (sqrt (real (Suc k)))"
proof -
  let ?x = "sqrt (real (Suc k))"
  have x: "0 \<le> ?x" by simp
  have e: "0 \<le> erf ?x" "erf ?x \<le> 1" using x by (rule erf_nonneg, rule erf_le_1)
  define c where "c = real (Suc k) / real (Suc (Suc k))"
  have "4 / pi * (pi / 4 * c) \<le> 4 / pi * (gauss_int ?x)\<^sup>2"
    unfolding c_def by (intro mult_left_mono gauss_int_sq_lower) simp
  moreover have "4 / pi * (pi / 4 * c) = c" by simp
  moreover have "(erf ?x)\<^sup>2 = 4 / pi * (gauss_int ?x)\<^sup>2"
    by (simp add: erf_def power_mult_distrib power_divide)
  ultimately have "c \<le> (erf ?x)\<^sup>2" by (simp only:)
  then have "real (Suc k) / real (Suc (Suc k)) \<le> (erf ?x)\<^sup>2" unfolding c_def .
  also have "(erf ?x)\<^sup>2 = erf ?x * erf ?x" by (rule power2_eq_square)
  also have "\<dots> \<le> 1 * erf ?x" using e by (intro mult_right_mono) simp_all
  finally have "real (Suc k) / real (Suc (Suc k)) \<le> erf ?x" by simp
  moreover have "real (Suc k) / real (Suc (Suc k)) = 1 - 1 / real (Suc (Suc k))"
    by (simp add: field_simps)
  ultimately show ?thesis by simp
qed

subsection \<open>The scaled complementary error function on the half line\<close>

lemma erf_deriv: "(erf has_field_derivative 2 / sqrt pi * exp (- (x\<^sup>2))) (at x)"
proof -
  have "((\<lambda>x. 2 / sqrt pi * gauss_int x) has_field_derivative 2 / sqrt pi * exp (- (x\<^sup>2))) (at x)"
    by (rule DERIV_cmult) (rule gauss_int_deriv)
  moreover have "erf = (\<lambda>x. 2 / sqrt pi * gauss_int x)"
    by (rule ext) (simp add: erf_def)
  ultimately show ?thesis by simp
qed

lemma gap_deriv:
  "((\<lambda>x. exp (- (x\<^sup>2)) - 1 + erf x) has_field_derivative
      exp (- (x\<^sup>2)) * (2 / sqrt pi - 2 * x)) (at x)"
proof -
  have "((\<lambda>x. exp (- (x\<^sup>2)) - 1 + erf x) has_field_derivative
      exp (- (x\<^sup>2)) * (- (2 * x)) - 0 + 2 / sqrt pi * exp (- (x\<^sup>2))) (at x)"
    by (rule DERIV_add DERIV_diff erf_deriv derivative_eq_intros refl | simp)+
  moreover have "exp (- (x\<^sup>2)) * (- (2 * x)) - 0 + 2 / sqrt pi * exp (- (x\<^sup>2))
      = exp (- (x\<^sup>2)) * (2 / sqrt pi - 2 * x)"
    by (simp add: algebra_simps)
  ultimately show ?thesis by simp
qed

lemma erf_0: "erf 0 = 0"
  by (simp add: erf_def gauss_int_0)

lemma erfc_le_exp:
  assumes x: "0 \<le> x"
  shows "erfc x \<le> exp (- (x\<^sup>2))"
proof -
  let ?h = "\<lambda>x. exp (- (x\<^sup>2)) - 1 + erf x"
  have "0 \<le> ?h x"
  proof (cases "x \<le> 1 / sqrt pi")
    case True
    have "?h 0 \<le> ?h x"
    proof (rule DERIV_nonneg_imp_nondecreasing[OF x])
      fix s :: real assume "0 \<le> s" "s \<le> x"
      then have "0 \<le> 2 / sqrt pi - 2 * s" using True by simp
      then have "0 \<le> exp (- (s\<^sup>2)) * (2 / sqrt pi - 2 * s)" by simp
      then show "\<exists>y. (?h has_real_derivative y) (at s) \<and> 0 \<le> y"
        using gap_deriv by blast
    qed
    then show ?thesis by (simp add: erf_0)
  next
    case False
    show ?thesis
    proof (rule le_of_eventual_bound[where ?n0.0 = "nat \<lceil>x\<^sup>2\<rceil>" and b = 1])
      fix n :: nat assume n: "nat \<lceil>x\<^sup>2\<rceil> \<le> n"
      let ?y = "sqrt (real (Suc n))"
      have "x\<^sup>2 \<le> real n" using n by linarith
      then have "x\<^sup>2 \<le> real (Suc n)" by simp
      then have xy: "x \<le> ?y" by (rule real_le_rsqrt)
      have "?h ?y \<le> ?h x"
      proof (rule DERIV_nonpos_imp_nonincreasing[OF xy])
        fix s :: real assume "x \<le> s" "s \<le> ?y"
        then have "2 / sqrt pi - 2 * s \<le> 0" using False by simp
        then have "exp (- (s\<^sup>2)) * (2 / sqrt pi - 2 * s) \<le> 0"
          by (intro mult_nonneg_nonpos) simp_all
        then show "\<exists>y. (?h has_real_derivative y) (at s) \<and> y \<le> 0"
          using gap_deriv by blast
      qed
      moreover have "- (1 / real (Suc (Suc n))) \<le> ?h ?y"
      proof -
        have "0 \<le> exp (- (?y\<^sup>2))" by simp
        then show ?thesis using erf_sqrt_lower[of n] by linarith
      qed
      moreover have "1 / real (Suc (Suc n)) \<le> 1 / real (Suc n)"
        by (intro divide_left_mono) simp_all
      ultimately show "0 \<le> ?h x + 1 / real (Suc n)" by linarith
    qed
  qed
  then show ?thesis by (simp add: erfc_def)
qed

lemma erfc_nonneg: "0 \<le> x \<Longrightarrow> 0 \<le> erfc x"
  using erf_le_1[of x] by (simp add: erfc_def)

lemma erfcx_nonneg: "0 \<le> x \<Longrightarrow> 0 \<le> erfcx x"
  by (simp add: erfcx_def erfc_nonneg)

lemma erfcx_le_1:
  assumes "0 \<le> x"
  shows "erfcx x \<le> 1"
proof -
  have "exp (x\<^sup>2) * erfc x \<le> exp (x\<^sup>2) * exp (- (x\<^sup>2))"
    by (intro mult_left_mono erfc_le_exp assms) simp
  also have "\<dots> = 1" by (simp add: exp_minus)
  finally show ?thesis by (simp add: erfcx_def)
qed

lemma exp_sq_int_growth:
  assumes "a \<le> b"
  shows "b - a \<le> exp_sq_int b - exp_sq_int a"
proof -
  have "exp_sq_int a - a \<le> exp_sq_int b - b"
  proof (rule DERIV_nonneg_imp_nondecreasing[OF assms])
    fix s :: real
    have "((\<lambda>x. exp_sq_int x - x) has_real_derivative exp (s\<^sup>2) - 1) (at s)"
      by (intro DERIV_diff exp_sq_int_deriv DERIV_ident)
    moreover have "0 \<le> exp (s\<^sup>2) - 1" by simp
    ultimately show "\<exists>y. ((\<lambda>x. exp_sq_int x - x) has_real_derivative y) (at s) \<and> 0 \<le> y"
      by blast
  qed
  then show ?thesis by simp
qed

lemma exp_sq_int_0: "exp_sq_int 0 = 0"
  by (simp add: exp_sq_int_series)

lemma exp_sq_int_ge: "0 \<le> x \<Longrightarrow> x \<le> exp_sq_int x"
  using exp_sq_int_growth[of 0 x] by (simp add: exp_sq_int_0)

section \<open>The range of the Siegert rate\<close>

lemma weighted_sum_bounds:
  fixes w :: "real list" and f :: "'a \<Rightarrow> real"
  assumes "length x = length w" "list_all (\<lambda>wi. 0 \<le> wi) w"
    and "\<forall>xi \<in> set x. 0 \<le> f xi \<and> f xi \<le> 1"
  shows "0 \<le> sum_list (map2 (\<lambda>xi wi. wi * f xi) x w)
       \<and> sum_list (map2 (\<lambda>xi wi. wi * f xi) x w) \<le> sum_list w"
  using assms
proof (induction x w rule: list_induct2)
  case Nil
  show ?case by simp
next
  case (Cons xi x wi w)
  have f: "0 \<le> f xi" "f xi \<le> 1" using Cons.prems by simp_all
  have wi: "0 \<le> wi" using Cons.prems by simp
  have ih: "0 \<le> sum_list (map2 (\<lambda>xi wi. wi * f xi) x w)"
    "sum_list (map2 (\<lambda>xi wi. wi * f xi) x w) \<le> sum_list w"
    using Cons.IH Cons.prems by simp_all
  have a: "0 \<le> wi * f xi" using wi f by simp
  have "wi * f xi \<le> wi * 1" using f(2) wi by (rule mult_left_mono)
  then have b: "wi * f xi \<le> wi" by simp
  show ?case using a b ih by simp
qed

lemma gauss_rule_sum:
  assumes r: "gauss_rule (x, w)" and a: "0 \<le> a" and b: "0 \<le> b"
  shows "0 \<le> sum_list (map2 (\<lambda>xi wi. wi * erfcx ((b - a) * xi / 2 + (b + a) / 2)) x w)
       \<and> sum_list (map2 (\<lambda>xi wi. wi * erfcx ((b - a) * xi / 2 + (b + a) / 2)) x w) \<le> 2"
proof -
  have len: "length x = length w" and w: "list_all (\<lambda>wi. 0 \<le> wi) w"
    and nodes: "\<forall>xi \<in> set x. - 1 \<le> xi \<and> xi \<le> 1" and s: "sum_list w = 2"
    using r by (simp_all add: gauss_rule_def list_all_iff)
  have "0 \<le> erfcx ((b - a) * xi / 2 + (b + a) / 2) \<and> erfcx ((b - a) * xi / 2 + (b + a) / 2) \<le> 1"
    if xi: "xi \<in> set x" for xi
  proof -
    have x1: "0 \<le> 1 - xi" "0 \<le> 1 + xi" using nodes xi by auto
    have eq: "(b - a) * xi / 2 + (b + a) / 2 = (a * (1 - xi) + b * (1 + xi)) / 2"
      by (simp add: field_simps)
    have "0 \<le> a * (1 - xi)" "0 \<le> b * (1 + xi)"
      using a b x1 by simp_all
    then have "0 \<le> (b - a) * xi / 2 + (b + a) / 2"
      unfolding eq by (intro divide_nonneg_nonneg add_nonneg_nonneg) simp_all
    then show ?thesis by (simp only: erfcx_nonneg erfcx_le_1 simp_thms)
  qed
  then have "\<forall>xi \<in> set x. 0 \<le> erfcx ((b - a) * xi / 2 + (b + a) / 2)
                          \<and> erfcx ((b - a) * xi / 2 + (b + a) / 2) \<le> 1"
    by blast
  from weighted_sum_bounds[OF len w this] show ?thesis unfolding s .
qed

lemma erfcx_integral1_bounds:
  assumes r: "gauss_rule (rl order)" and a: "0 \<le> a" and b: "0 \<le> b"
  shows "min 0 (b - a) \<le> erfcx_integral1 rl a b order"
    and "erfcx_integral1 rl a b order \<le> max 0 (b - a)"
proof -
  obtain x w where xw: "rl order = (x, w)" by (cases "rl order")
  define S where "S = sum_list (map2 (\<lambda>xi wi. wi * erfcx ((b - a) * xi / 2 + (b + a) / 2)) x w)"
  have S: "0 \<le> S" "S \<le> 2"
    using gauss_rule_sum[OF r[unfolded xw] a b] unfolding S_def by simp_all
  have G: "erfcx_integral1 rl a b order = (b - a) * (S / 2)"
    by (simp add: erfcx_integral1_def xw S_def)
  define T where "T = S / 2"
  have h: "0 \<le> T" "T \<le> 1" using S unfolding T_def by simp_all
  have G': "erfcx_integral1 rl a b order = (b - a) * T" unfolding G T_def ..
  have neg: "(b - a) * T = - ((a - b) * T)" by (simp add: algebra_simps)
  show "min 0 (b - a) \<le> erfcx_integral1 rl a b order"
  proof (cases "a \<le> b")
    case True
    then have "0 \<le> (b - a) * T" using h by simp
    then show ?thesis using True unfolding G' by simp
  next
    case False
    then have "(a - b) * T \<le> (a - b) * 1"
      using h by (intro mult_left_mono) simp_all
    then have "b - a \<le> (b - a) * T" unfolding neg by simp
    then show ?thesis using False unfolding G' by simp
  qed
  show "erfcx_integral1 rl a b order \<le> max 0 (b - a)"
  proof (cases "a \<le> b")
    case True
    then have "(b - a) * T \<le> (b - a) * 1"
      using h by (intro mult_left_mono) simp_all
    then show ?thesis using True unfolding G' by simp
  next
    case False
    then have "0 \<le> (a - b) * T" using h by simp
    then have "(b - a) * T \<le> 0" unfolding neg by simp
    then show ?thesis using False unfolding G' by simp
  qed
qed

lemma rate_of_bracket:
  assumes "0 < tau_m" "0 < t_ref" "0 \<le> B"
  shows "0 < 1 / (t_ref + tau_m * sqrt pi * B) \<and> 1 / (t_ref + tau_m * sqrt pi * B) \<le> 1 / t_ref"
proof -
  have "0 \<le> tau_m * sqrt pi * B" using assms by simp
  then have d: "t_ref \<le> t_ref + tau_m * sqrt pi * B" by simp
  then have "0 < t_ref + tau_m * sqrt pi * B" using assms(2) by linarith
  moreover have "1 / (t_ref + tau_m * sqrt pi * B) \<le> 1 / t_ref"
    using d assms(2) by (intro divide_left_mono mult_pos_pos) simp_all
  ultimately show ?thesis by simp
qed

lemma exc_rate_bounds:
  assumes r: "gauss_rule (rl order)" and tau: "0 < tau_m" "0 < t_ref"
    and y: "y_r < y_th" "y_th < 0"
  shows "0 < exc_rate tau_m t_ref (erfcx_integral1 rl \<bar>y_th\<bar> \<bar>y_r\<bar> order)
       \<and> exc_rate tau_m t_ref (erfcx_integral1 rl \<bar>y_th\<bar> \<bar>y_r\<bar> order) \<le> 1 / t_ref"
proof -
  have "min 0 (\<bar>y_r\<bar> - \<bar>y_th\<bar>) \<le> erfcx_integral1 rl \<bar>y_th\<bar> \<bar>y_r\<bar> order"
    by (rule erfcx_integral1_bounds[where rl = rl and order = order, OF r]) simp_all
  then have "0 \<le> erfcx_integral1 rl \<bar>y_th\<bar> \<bar>y_r\<bar> order" using y by simp
  then show ?thesis unfolding exc_rate_def by (rule rate_of_bracket[OF tau])
qed

lemma scaled_rate:
  fixes e :: real
  assumes "0 < e"
  shows "e / (e * t_ref + c * (e * B)) = 1 / (t_ref + c * B)"
proof -
  have "e * t_ref + c * (e * B) = e * (t_ref + c * B)" by (simp add: algebra_simps)
  then show ?thesis using assms by simp
qed

lemma inh_rate_bounds:
  assumes r: "gauss_rule (rl order)" and tau: "0 < tau_m" "0 < t_ref"
    and y: "y_r < y_th" "0 < y_r"
  shows "0 < inh_rate y_th y_r tau_m t_ref (erfcx_integral1 rl y_r y_th order)
       \<and> inh_rate y_th y_r tau_m t_ref (erfcx_integral1 rl y_r y_th order) \<le> 1 / t_ref"
proof -
  define G where "G = erfcx_integral1 rl y_r y_th order"
  define e where "e = exp (- (y_th\<^sup>2))"
  define B where "B = 2 * exp_sq_int y_th - 2 * exp_sq_int y_r - G"
  have e: "0 < e" by (simp add: e_def)
  have "G \<le> max 0 (y_th - y_r)"
    unfolding G_def by (rule erfcx_integral1_bounds[where rl = rl and order = order, OF r]) (use y in simp_all)
  then have G: "G \<le> y_th - y_r" using y by simp
  have "y_th - y_r \<le> exp_sq_int y_th - exp_sq_int y_r"
    by (rule exp_sq_int_growth) (use y in simp)
  then have B: "0 \<le> B" using G y unfolding B_def by linarith
  have ee: "exp (y_r\<^sup>2 - y_th\<^sup>2) * exp (- (y_r\<^sup>2)) = e"
    unfolding e_def by (simp add: exp_add[symmetric])
  have "2 * dawsn y_th - 2 * exp (y_r\<^sup>2 - y_th\<^sup>2) * dawsn y_r - e * G
        = 2 * (e * exp_sq_int y_th) - 2 * ((exp (y_r\<^sup>2 - y_th\<^sup>2) * exp (- (y_r\<^sup>2))) * exp_sq_int y_r)
          - e * G"
    by (simp add: dawsn_def e_def)
  also have "\<dots> = e * B" unfolding ee B_def by (simp add: algebra_simps)
  finally have I: "2 * dawsn y_th - 2 * exp (y_r\<^sup>2 - y_th\<^sup>2) * dawsn y_r - e * G = e * B" .
  have "inh_rate y_th y_r tau_m t_ref G = e / (e * t_ref + tau_m * sqrt pi * (e * B))"
    unfolding inh_rate_def Let_def e_def[symmetric] I ..
  also have "\<dots> = 1 / (t_ref + tau_m * sqrt pi * B)" using e by (rule scaled_rate)
  finally show ?thesis unfolding G_def[symmetric] using rate_of_bracket[OF tau B] by simp
qed

lemma interm_rate_bounds:
  assumes r: "gauss_rule (rl order)" and tau: "0 < tau_m" "0 < t_ref"
    and y: "y_r \<le> 0" "0 \<le> y_th"
  shows "0 < interm_rate y_th tau_m t_ref (erfcx_integral1 rl y_th \<bar>y_r\<bar> order)
       \<and> interm_rate y_th tau_m t_ref (erfcx_integral1 rl y_th \<bar>y_r\<bar> order) \<le> 1 / t_ref"
proof -
  define G where "G = erfcx_integral1 rl y_th \<bar>y_r\<bar> order"
  define e where "e = exp (- (y_th\<^sup>2))"
  define B where "B = 2 * exp_sq_int y_th + G"
  have e: "0 < e" by (simp add: e_def)
  have "min 0 (\<bar>y_r\<bar> - y_th) \<le> G"
    unfolding G_def by (rule erfcx_integral1_bounds[where rl = rl and order = order, OF r]) (use y in simp_all)
  then have G: "- y_th \<le> G" using y by simp
  have "y_th \<le> exp_sq_int y_th" using y(2) by (rule exp_sq_int_ge)
  then have B: "0 \<le> B" using G y unfolding B_def by linarith
  have I: "2 * dawsn y_th + e * G = e * B"
    by (simp add: dawsn_def e_def B_def algebra_simps)
  have "interm_rate y_th tau_m t_ref G = e / (e * t_ref + tau_m * sqrt pi * (e * B))"
    unfolding interm_rate_def Let_def e_def[symmetric] I ..
  also have "\<dots> = 1 / (t_ref + tau_m * sqrt pi * B)" using e by (rule scaled_rate)
  finally show ?thesis unfolding G_def[symmetric] using rate_of_bracket[OF tau B] by simp
qed

lemma branch_rate_bounds:
  assumes r: "gauss_rule (rl order)" and tau: "0 < tau_m" "0 < t_ref"
    and y: "y_r < y_th" and tag: "tag \<in> set (branch_tags y_th y_r)"
  shows "0 < branch_rate rl order tau_m t_ref y_th y_r tag
       \<and> branch_rate rl order tau_m t_ref y_th y_r tag \<le> 1 / t_ref"
proof (cases tag)
  case Exc
  then have "y_th < 0" using tag by (auto simp: branch_tags_def split: if_splits)
  then show ?thesis unfolding Exc branch_rate_def using exc_rate_bounds[where rl = rl and order = order, OF r tau y] by simp
next
  case Inh
  then have "0 < y_r" using tag by (auto simp: branch_tags_def split: if_splits)
  then show ?thesis unfolding Inh branch_rate_def using inh_rate_bounds[where rl = rl and order = order, OF r tau y] by simp
next
  case Interm
  then have "y_r \<le> 0" "0 \<le> y_th" using tag by (auto simp: branch_tags_def split: if_splits)
  then show ?thesis unfolding Interm branch_rate_def using interm_rate_bounds[where rl = rl and order = order, OF r tau] by simp
qed

lemma bcast_nth_mem:
  assumes "common_len [length (mu :: real list), length (sigma :: real list)] = Inr n" "i < n"
  shows "bcast n sigma ! i \<in> set sigma"
proof (cases "length sigma = n")
  case True
  then show ?thesis using assms(2) by (simp add: bcast_def)
next
  case False
  have "sigma \<noteq> []"
  proof
    assume "sigma = []"
    then have "n = 0" using assms(1) by (auto simp: bind_err_simps split: if_splits)
    then show False using assms(2) by simp
  qed
  then have "hd sigma \<in> set sigma" by simp
  then show ?thesis using False assms(2) by (simp add: bcast_def)
qed

lemma coords_ordered:
  assumes cl: "common_len [length mu, length sigma] = Inr n"
    and V: "V_0_rel < V_th_rel" and sigma: "\<forall>s \<in> set sigma. 0 < s" and i: "i < n"
  shows "coords [V_0_rel] mu sigma n ! i < coords [V_th_rel] mu sigma n ! i"
proof -
  have "0 < bcast n sigma ! i" using bcast_nth_mem[OF cl i] sigma by blast
  then show ?thesis using V i by (simp add: coords_def bcast_single divide_strict_right_mono)
qed

text \<open>
  Claim C1, as the code has it. Let \<open>tau_m > 0\<close>, \<open>tau_r > 0\<close>, \<open>V_th_rel > V_0_rel\<close> and every
  \<open>sigma > 0\<close>, and let the table of \<^verbatim>\<open>roots_legendre\<close> at the order \<open>g\<close> in use be a
  quadrature rule with nodes in \<open>[-1, 1]\<close> and non-negative weights of sum \<open>2\<close>. Then, in
  exact real arithmetic, the value that each of the three branches \<^verbatim>\<open>_siegert_exc\<close>,
  \<^verbatim>\<open>_siegert_inh\<close> and \<^verbatim>\<open>_siegert_interm\<close> computes for an element with \<open>y_r < y_th\<close> that
  meets the branch's mask condition is strictly positive and at most \<open>1 / tau_r\<close>; and
  whenever the order search of \<^verbatim>\<open>nu_0\<close> returns the order \<open>g\<close>, \<^verbatim>\<open>nu_0\<close> returns one rate
  per element, each of them strictly positive and at most \<open>1 / tau_r\<close>. Where the order
  search does not return an order, \<^verbatim>\<open>nu_0\<close> raises its error and returns no rate.
\<close>

theorem siegert_rate_in_range:
  assumes tau: "0 < tau_m" "0 < tau_r"
    and V: "V_0_rel < V_th_rel"
    and sigma: "\<forall>s \<in> set sigma. 0 < s"
    and rule: "gauss_rule (rl g)"
  shows "(\<forall>y_th y_r tag. y_r < y_th \<longrightarrow> tag \<in> set (branch_tags y_th y_r) \<longrightarrow>
            0 < branch_rate rl g tau_m tau_r y_th y_r tag
            \<and> branch_rate rl g tau_m tau_r y_th y_r tag \<le> 1 / tau_r)
       \<and> (\<forall>n. common_len [length mu, length sigma] = Inr n \<longrightarrow>
            get_erfcx_integral_gl_order rl quad (coords [V_th_rel] mu sigma n)
              (coords [V_0_rel] mu sigma n) 10 (1 / 10 ^ 12) 10 = Inr g \<longrightarrow>
            (\<exists>nu. nu_0 rl quad tau_m tau_r V_th_rel V_0_rel mu sigma = Inr nu
                  \<and> length (to_list nu) = n
                  \<and> (\<forall>v \<in> set (to_list nu). 0 < v \<and> v \<le> 1 / tau_r)))"
proof (intro conjI allI impI)
  fix y_th y_r :: real and tag
  assume "y_r < y_th" "tag \<in> set (branch_tags y_th y_r)"
  then show "0 < branch_rate rl g tau_m tau_r y_th y_r tag"
    and "branch_rate rl g tau_m tau_r y_th y_r tag \<le> 1 / tau_r"
    using branch_rate_bounds[where rl = rl and order = g, OF rule tau] by simp_all
next
  fix n
  assume cl: "common_len [length mu, length sigma] = Inr n"
    and ord: "get_erfcx_integral_gl_order rl quad (coords [V_th_rel] mu sigma n)
              (coords [V_0_rel] mu sigma n) 10 (1 / 10 ^ 12) 10 = Inr g"
  let ?yt = "\<lambda>i. coords [V_th_rel] mu sigma n ! i"
  let ?yr = "\<lambda>i. coords [V_0_rel] mu sigma n ! i"
  let ?nu = "map (\<lambda>i. branch_rate rl g tau_m tau_r (?yt i) (?yr i) (hd (branch_tags (?yt i) (?yr i))))
               [0..<n]"
  have lt: "?yr i < ?yt i" if "i < n" for i
    using cl V sigma that by (rule coords_ordered)
  have one: "\<forall>i<n. \<not> (?yt i < 0 \<and> 0 < ?yr i)"
  proof (intro allI impI)
    fix i assume "i < n"
    from lt[OF this] show "\<not> (?yt i < 0 \<and> 0 < ?yr i)" by simp
  qed
  have ret: "nu_0 rl quad tau_m tau_r V_th_rel V_0_rel mu sigma = Inr (item_or_array ?nu)"
    unfolding nu_0_by_coords[OF cl one] ord by (simp add: bind_err_simps)
  have "0 < v \<and> v \<le> 1 / tau_r" if v: "v \<in> set ?nu" for v
  proof -
    from v obtain i where i: "i < n"
      and vi: "v = branch_rate rl g tau_m tau_r (?yt i) (?yr i) (hd (branch_tags (?yt i) (?yr i)))"
      by auto
    have "\<not> (?yt i < 0 \<and> 0 < ?yr i)" using lt[OF i] by simp
    then have "hd (branch_tags (?yt i) (?yr i)) \<in> set (branch_tags (?yt i) (?yr i))"
      by (simp add: branch_tags_ordered)
    then show ?thesis
      unfolding vi using branch_rate_bounds[where rl = rl and order = g, OF rule tau lt[OF i]]
      by simp
  qed
  then have "\<forall>v \<in> set (to_list (item_or_array ?nu)). 0 < v \<and> v \<le> 1 / tau_r"
    unfolding to_list_item_or_array by blast
  moreover have "length (to_list (item_or_array ?nu)) = n"
    unfolding to_list_item_or_array by simp
  ultimately show "\<exists>nu. nu_0 rl quad tau_m tau_r V_th_rel V_0_rel mu sigma = Inr nu
                  \<and> length (to_list nu) = n
                  \<and> (\<forall>v \<in> set (to_list nu). 0 < v \<and> v \<le> 1 / tau_r)"
    using ret by blast
qed

theorem siegert_rate_in_range_witness:
  "0 < branch_rate (\<lambda>n. ([- 1], [2])) 10 1 1 1 0 Interm
   \<and> branch_rate (\<lambda>n. ([- 1], [2])) 10 1 1 1 0 Interm \<le> 1 / 1
   \<and> (\<exists>v. nu_0 (\<lambda>n. ([- 1], [2])) (\<lambda>f a b e. 1) 1 1 1 0 [0] [1] = Inr (Scalar v)
           \<and> 0 < v \<and> v \<le> 1 / 1)"
proof -
  have h: "0 < (1::real)" "(0::real) < 1" "\<forall>s \<in> set [1::real]. 0 < s"
    "gauss_rule ((\<lambda>n. ([- 1], [2])) (10::nat))"
    by (simp_all add: gauss_rule_def)
  note inst = siegert_rate_in_range[where tau_m = 1 and tau_r = 1 and V_0_rel = 0
      and V_th_rel = 1 and sigma = "[1]" and mu = "[0]" and rl = "\<lambda>n. ([- 1], [2])" and g = 10
      and quad = "\<lambda>f a b e. 1", OF h(1) h(1) h(2) h(3) h(4)]
  have t: "Interm \<in> set (branch_tags 1 0)" by (simp add: branch_tags_def)
  have b: "0 < branch_rate (\<lambda>n. ([- 1], [2])) 10 1 1 1 0 Interm
           \<and> branch_rate (\<lambda>n. ([- 1], [2])) 10 1 1 1 0 Interm \<le> 1 / 1"
    using inst[THEN conjunct1, THEN spec, THEN spec, THEN spec, THEN mp, THEN mp, of 0 1 Interm] t
    by simp
  have c: "coords [1] [0] [1] (Suc 0) = [1]" "coords [0] [0] [1] (Suc 0) = [0]"
    by (simp_all add: coords_def bcast_def)
  have cl: "common_len [length [0::real], length [1::real]] = Inr 1"
    by (simp add: bind_err_simps)
  have ord: "get_erfcx_integral_gl_order (\<lambda>n. ([- 1], [2])) (\<lambda>f a b e. 1) (coords [1] [0] [1] 1)
              (coords [0] [0] [1] 1) 10 (1 / 10 ^ 12) 10 = Inr 10"
    using order_search_example by (simp add: c)
  from inst[THEN conjunct2, THEN spec, THEN mp, OF cl, THEN mp, OF ord]
  obtain nu where nu: "nu_0 (\<lambda>n. ([- 1], [2])) (\<lambda>f a b e. 1) 1 1 1 0 [0] [1] = Inr nu"
    "length (to_list nu) = 1" "\<forall>v \<in> set (to_list nu). 0 < v \<and> v \<le> 1 / 1"
    by blast
  have "nu_0 (\<lambda>n. ([- 1], [2])) (\<lambda>f a b e. 1) 1 1 1 0 [0] [1]
       = Inr (Scalar (branch_rate (\<lambda>n. ([- 1], [2])) 10 1 1 1 0 Interm))"
    using nu_0_example by simp
  then have "nu = Scalar (branch_rate (\<lambda>n. ([- 1], [2])) 10 1 1 1 0 Interm)"
    using nu(1) by simp
  then have "\<exists>v. nu_0 (\<lambda>n. ([- 1], [2])) (\<lambda>f a b e. 1) 1 1 1 0 [0] [1] = Inr (Scalar v)
           \<and> 0 < v \<and> v \<le> 1 / 1"
    using nu by simp
  then show ?thesis using b by blast
qed

text \<open>
  The order search divides by the reference integral: where that is zero the relative
  error is not a number, no order passes the test, and the search raises.
\<close>

lemma order_search_zero_reference:
  assumes "y_th \<noteq> []" "y_r \<noteq> []" "0 < maxiter"
    and "quad erfcx (Min (abs ` (set y_th \<union> set y_r))) (Max (abs ` (set y_th \<union> set y_r))) eps = 0"
  shows "get_erfcx_integral_gl_order rl quad y_th y_r start eps maxiter
         = Inl (ConvergenceError maxiter None)"
proof -
  have "gl_order_loop (\<lambda>d. Inr (erfcx_integral1 rl (Min (abs ` (set y_th \<union> set y_r)))
                                (Max (abs ` (set y_th \<union> set y_r))) d))
          0 eps maxiter maxiter start None
        = Inl (ConvergenceError maxiter
                 (rel_error (erfcx_integral1 rl (Min (abs ` (set y_th \<union> set y_r)))
                               (Max (abs ` (set y_th \<union> set y_r))) (start * 2 ^ (maxiter - 1))) 0))"
    by (rule gl_order_loop_exhausted) (simp_all add: rel_error_def below_def assms(3))
  then show ?thesis
    unfolding get_order_unfold[OF assms(1,2)] assms(4) by (simp add: rel_error_def)
qed

text \<open>
  Claim C1 as stated, for every input, fails at \<open>V_th_rel = 3\<close>, \<open>V_0_rel = 0\<close>, \<open>mu = 3/2\<close>,
  \<open>sigma = 1\<close> and \<open>tau_m = tau_r = 1\<close>: there \<open>\<bar>y_th\<bar> = \<bar>y_r\<bar> = 3/2\<close>, the integration range of
  the order search is empty, the reference integral is \<open>0\<close> and \<^verbatim>\<open>nu_0\<close> raises the
  convergence error instead of returning a rate. The table is the Gauss--Legendre rule
  of one node and the reference quadrature the midpoint rule; every table and every
  quadrature that is \<open>0\<close> on an empty range give the same.
\<close>

theorem nu_0_raises_on_empty_range:
  "nu_0 (\<lambda>n. ([0], [2])) (\<lambda>f a b e. (b - a) * f ((a + b) / 2)) 1 1 3 0 [3 / 2] [1]
     = Inl (ConvergenceError 10 None)"
proof -
  have "get_erfcx_integral_gl_order (\<lambda>n. ([0], [2])) (\<lambda>f a b e. (b - a) * f ((a + b) / 2))
          [3 / 2] [- (3 / 2)] 10 (1 / 10 ^ 12) 10 = Inl (ConvergenceError 10 None)"
    by (rule order_search_zero_reference) simp_all
  then show ?thesis
    by (simp add: nu_0_def bind_err_simps bcast_def Let_def)
qed

end
